(* ===== verification/Prelude.thy ===== *)
theory Prelude
  imports Main "HOL-Library.Word"
begin

text \<open>
  Shared vocabulary of the development of the \<open>sbd\<close> encrypted RAM disk
  (\<open>src/assignments/a3/ramdisk.c\<close>): the machine types of the driver, its
  error values, the kernel log written by \<open>printk\<close>, and the memory model of byte
  arrays (bounds-checked reads, writes and \<open>memcpy\<close>) that the key store and the
  transfer engine share.  The collection \<open>mem_simps\<close> gathers the rewrite rules of
  the memory model that the component proofs use.
\<close>

unbundle bit_operations_syntax

section \<open>Machine types\<close>

text \<open>
  The driver runs on a 64-bit kernel: \<open>unsigned long\<close> and \<open>sector_t\<close> are
  \<open>u64\<close>, C \<open>int\<close> is \<open>c_int\<close> (a 32-bit word read with \<open>sint\<close>), bytes are
  \<open>8 word\<close>.
\<close>

type_synonym byte = "8 word"
type_synonym bytes = "byte list"
type_synonym u64 = "64 word"
type_synonym c_int = "32 word"

named_theorems mem_simps "rewrite rules of the byte-array memory model"

text \<open>
  Undefined behaviour of the C code is a value: \<open>Mem_fault\<close> is an access outside
  the object a pointer points into (an overrun of the device buffer or of the
  caller's buffer).  The kernel's error numbers are those the driver returns.
\<close>

datatype fault = Mem_fault

datatype errno = EINVAL | ENOMEM | EIO

definition INT_MAX :: int where
  "INT_MAX = 2 ^ 31 - 1"

section \<open>The kernel log\<close>

text \<open>
  Every \<open>printk\<close> of the driver appends one message to the log; the log is the
  only place where the driver reports a rejected transfer.
\<close>

datatype msg =
    Msg_copying_key
  | Msg_key_invalid nat
  | Msg_storing_key
  | Msg_no_key_set
  | Msg_beyond_end u64 u64
  | Msg_skip_non_cmd
  | Msg_cipher_failed
  | Msg_no_major

record klog_state =
  klog :: "msg list"

definition printk :: "'a klog_state_scheme \<Rightarrow> msg \<Rightarrow> 'a klog_state_scheme" where
  "printk st m = st\<lparr>klog := klog st @ [m]\<rparr>"

section \<open>Byte arrays\<close>

text \<open>
  An object of the C heap (the device buffer, a request's data page, the key array)
  is a byte list.  \<open>blit m a v\<close> is \<open>m\<close> with the bytes from address \<open>a\<close> on
  replaced by \<open>v\<close>.  Reads and writes take the address as an \<open>int\<close>, since the
  driver forms addresses from a signed loop index, and fail with \<open>Mem_fault\<close>
  outside the object.
\<close>

definition blit :: "bytes \<Rightarrow> nat \<Rightarrow> bytes \<Rightarrow> bytes" where
  "blit m a v = take a m @ v @ drop (a + length v) m"

definition mem_read :: "bytes \<Rightarrow> int \<Rightarrow> nat \<Rightarrow> fault + bytes" where
  "mem_read m a n =
     (if 0 \<le> a \<and> a + int n \<le> int (length m) then Inr (take n (drop (nat a) m))
      else Inl Mem_fault)"

definition mem_write :: "bytes \<Rightarrow> int \<Rightarrow> bytes \<Rightarrow> fault + bytes" where
  "mem_write m a v =
     (if 0 \<le> a \<and> a + int (length v) \<le> int (length m) then Inr (blit m (nat a) v)
      else Inl Mem_fault)"

text \<open>\<open>memcpy(dst + d, src + s, n)\<close>: both ranges must lie inside their objects.\<close>

definition memcpy :: "bytes \<Rightarrow> int \<Rightarrow> bytes \<Rightarrow> int \<Rightarrow> nat \<Rightarrow> fault + bytes" where
  "memcpy dst d src s n =
     (case mem_read src s n of Inl e \<Rightarrow> Inl e | Inr v \<Rightarrow> mem_write dst d v)"

subsection \<open>Sums\<close>

lemma map_sum_eq_Inr [simp]:
  "map_sum f g x = Inr y \<longleftrightarrow> (\<exists>z. x = Inr z \<and> y = g z)"
  by (cases x) auto

lemma map_sum_eq_Inl [simp]:
  "map_sum f g x = Inl e \<longleftrightarrow> (\<exists>z. x = Inl z \<and> e = f z)"
  by (cases x) auto

subsection \<open>Lists\<close>

lemma takeWhile_replicate_append [simp]:
  "P x \<Longrightarrow> takeWhile P (replicate n x @ ys) = replicate n x @ takeWhile P ys"
  by (induction n) simp_all

subsection \<open>Lemmas on blit\<close>

lemma blit_length [simp, mem_simps]:
  "a + length v \<le> length m \<Longrightarrow> length (blit m a v) = length m"
  by (simp add: blit_def)

lemma blit_nth [mem_simps]:
  assumes "a + length v \<le> length m" and "i < length m"
  shows "blit m a v ! i = (if a \<le> i \<and> i < a + length v then v ! (i - a) else m ! i)"
  using assms by (auto simp: blit_def nth_append min_def)

lemma take_drop_blit [simp, mem_simps]:
  "a + length v \<le> length m \<Longrightarrow> take (length v) (drop a (blit m a v)) = v"
  by (simp add: blit_def)

lemma take_blit [mem_simps]:
  "a + length v \<le> length m \<Longrightarrow> take a (blit m a v) = take a m"
  by (simp add: blit_def)

lemma drop_blit [mem_simps]:
  "a + length v \<le> length m \<Longrightarrow> drop (a + length v) (blit m a v) = drop (a + length v) m"
  by (simp add: blit_def)

lemma blit_blit_adjacent [mem_simps]:
  assumes "a + length v + length w \<le> length m"
  shows "blit (blit m a v) (a + length v) w = blit m a (v @ w)"
proof -
  from assms have "min (length m) a = a" by simp
  with assms show ?thesis by (simp add: blit_def ac_simps)
qed

lemma blit_blit_same [mem_simps]:
  assumes "a + length v \<le> length m" and "length w = length v"
  shows "blit (blit m a v) a w = blit m a w"
proof -
  from assms have "min (length m) a = a" by simp
  with assms show ?thesis by (simp add: blit_def)
qed

lemma blit_take_drop [simp, mem_simps]:
  "a + n \<le> length m \<Longrightarrow> blit m a (take n (drop a m)) = m"
proof -
  assume "a + n \<le> length m"
  then have "take a m @ take n (drop a m) @ drop n (drop a m) = m"
    by (metis append_take_drop_id)
  with \<open>a + n \<le> length m\<close> show ?thesis
    by (simp add: blit_def min_def add.commute)
qed

lemma blit_Nil [simp]: "a \<le> length m \<Longrightarrow> blit m a [] = m"
  by (simp add: blit_def)

subsection \<open>Lemmas on reads and writes\<close>

lemma mem_read_Inr [mem_simps]:
  "0 \<le> a \<Longrightarrow> a + int n \<le> int (length m) \<Longrightarrow> mem_read m a n = Inr (take n (drop (nat a) m))"
  by (simp add: mem_read_def)

lemma mem_write_Inr [mem_simps]:
  "0 \<le> a \<Longrightarrow> a + int (length v) \<le> int (length m) \<Longrightarrow> mem_write m a v = Inr (blit m (nat a) v)"
  by (simp add: mem_write_def)

lemma mem_read_fault_iff:
  "mem_read m a n = Inl e \<longleftrightarrow> \<not> (0 \<le> a \<and> a + int n \<le> int (length m))"
  by (cases e) (simp add: mem_read_def)

lemma mem_write_fault_iff:
  "mem_write m a v = Inl e \<longleftrightarrow> \<not> (0 \<le> a \<and> a + int (length v) \<le> int (length m))"
  by (cases e) (simp add: mem_write_def)

lemma mem_write_length [mem_simps]:
  "mem_write m a v = Inr m' \<Longrightarrow> length m' = length m"
  by (auto simp: mem_write_def split: if_splits)

lemma memcpy_Inr [mem_simps]:
  assumes "s + int n \<le> int (length src)" and "d + int n \<le> int (length dst)"
    and "0 \<le> s" and "0 \<le> d"
  shows "memcpy dst d src s n = Inr (blit dst (nat d) (take n (drop (nat s) src)))"
  using assms by (simp add: memcpy_def mem_read_def mem_write_def)

lemma memcpy_length [mem_simps]: "memcpy dst d src s n = Inr m \<Longrightarrow> length m = length dst"
  by (auto simp: memcpy_def mem_write_length split: sum.splits)

subsection \<open>Words\<close>

lemma unat_scast_nonneg: "0 \<le> sint (x :: 32 word) \<Longrightarrow> unat (scast x :: 64 word) = nat (sint x)"
proof -
  assume "0 \<le> sint x"
  moreover have "sint x < 2 ^ 63" using sint_less [of x] by simp
  ultimately have t: "take_bit 64 (sint x) = sint x" by (simp add: take_bit_int_eq_self)
  have "uint (scast x :: 64 word) = take_bit 64 (sint x)"
    by (simp only: scast_eq uint_word_of_int_eq) simp
  with t have "uint (scast x :: 64 word) = sint x" by simp
  then show ?thesis by (simp only: unat_eq_nat_uint)
qed

lemma sint_mult_in_range:
  "- (2 ^ 31) \<le> sint a * sint b \<Longrightarrow> sint a * sint b < 2 ^ 31 \<Longrightarrow> sint (a * b :: 32 word) = sint a * sint b"
  by (simp add: sint_word_mult signed_take_bit_int_eq_self)

lemma uint_scast_sint: "uint (scast (x :: 32 word) :: 64 word) = sint x mod 2 ^ 64"
  by (simp only: scast_eq uint_word_of_int_eq take_bit_eq_mod) simp

lemma sint_prod_bound:
  "\<bar>sint (a :: 32 word) * sint (b :: 32 word)\<bar> \<le> 2 ^ 62"
proof -
  have "\<bar>sint a\<bar> \<le> 2 ^ 31" "\<bar>sint b\<bar> \<le> 2 ^ 31"
    using sint_ge [of a] sint_less [of a] sint_ge [of b] sint_less [of b] by auto
  then have "\<bar>sint a\<bar> * \<bar>sint b\<bar> \<le> 2 ^ 31 * 2 ^ 31" by (intro mult_mono) simp_all
  then show ?thesis by (simp add: abs_mult)
qed

lemma not_bit_small:
  assumes "unat (x :: 64 word) < 2 ^ n" and "n \<le> m"
  shows "\<not> bit x m"
proof
  assume "bit x m"
  then have "bit (unat x) m" by (simp add: bit_unsigned_iff)
  moreover have "unat x div 2 ^ m = 0"
    using assms order_less_le_trans [of "unat x" "2 ^ n" "2 ^ m"] by (simp add: div_eq_0_iff)
  ultimately show False by (simp add: bit_nat_def)
qed

lemma signed_drop_bit_pos:
  "\<not> bit (w :: 64 word) 63 \<Longrightarrow> signed_drop_bit m w = drop_bit m w"
  by (rule bit_eqI) (auto simp: bit_signed_drop_bit_iff bit_drop_bit_eq dest: bit_imp_le_length)

lemma mask6: "(0x3f :: 64 word) = mask 6"
  by (simp add: mask_eq_exp_minus_1)

lemma drop_bit_and_not_mask:
  "drop_bit n (w AND NOT (mask n)) = drop_bit n (w :: 'a::len word)"
  by (rule bit_eqI) (auto simp: bit_drop_bit_eq bit_and_iff bit_not_iff bit_mask_iff dest: bit_imp_le_length)

end
