(* ===== verification/Cipher.thy ===== *)
theory Cipher
  imports Prelude
begin

text \<open>
  The kernel crypto API as the driver uses it (\<open>crypto_alloc_cipher("aes", 0, 16)\<close>
  and the single-block cipher interface of \<open>linux/crypto.h\<close>).  The API is not
  part of the repository: it is modelled from its documented contract.  The block
  cipher itself is a parameter, a record \<open>cipher\<close> of an encryption and a
  decryption function of a key and a 16-byte block; \<open>cipher_ok\<close> is the contract
  the driver relies on (blocks stay 16 bytes, decryption inverts encryption).
  \<open>ecb\<close> is the reference of what the driver's block loops compute: the
  electronic-codebook transform of a byte range, block by block.
\<close>

section \<open>The cipher interface\<close>

definition AES_BLOCK_SIZE :: nat where
  "AES_BLOCK_SIZE = 16"

record cipher =
  cia_encrypt :: "bytes \<Rightarrow> bytes \<Rightarrow> bytes"
  cia_decrypt :: "bytes \<Rightarrow> bytes \<Rightarrow> bytes"

definition cipher_ok :: "cipher \<Rightarrow> bool" where
  "cipher_ok c \<longleftrightarrow>
     (\<forall>k b. length b = AES_BLOCK_SIZE \<longrightarrow>
        length (cia_encrypt c k b) = AES_BLOCK_SIZE \<and>
        length (cia_decrypt c k b) = AES_BLOCK_SIZE \<and>
        cia_decrypt c k (cia_encrypt c k b) = b)"

section \<open>The cipher handle\<close>

text \<open>
  \<open>struct crypto_cipher *tfm\<close>: the flags word and the installed key.  The key
  schedule AES derives from the key is not modelled: the installed key bytes stand
  for it.
\<close>

record crypto_tfm =
  crt_flags :: "32 word"
  crt_key :: bytes

definition CRYPTO_TFM_RES_BAD_KEY_LEN :: "32 word" where
  "CRYPTO_TFM_RES_BAD_KEY_LEN = 0x00200000"

definition crypto_cipher_clear_flags :: "crypto_tfm \<Rightarrow> 32 word \<Rightarrow> crypto_tfm" where
  "crypto_cipher_clear_flags tfm flags = tfm\<lparr>crt_flags := crt_flags tfm AND NOT flags\<rparr>"

text \<open>
  \<open>crypto_cipher_setkey(tfm, key, keylen)\<close>: AES accepts 16, 24 and 32 byte keys
  and reads exactly \<open>keylen\<close> bytes of \<open>key\<close>; any other length sets the
  bad-key-length flag and returns \<open>-EINVAL\<close>, leaving the installed key alone.
\<close>

definition crypto_cipher_setkey ::
  "crypto_tfm \<Rightarrow> bytes \<Rightarrow> nat \<Rightarrow> (errno + unit) \<times> crypto_tfm" where
  "crypto_cipher_setkey tfm key keylen =
     (if keylen \<noteq> 16 \<and> keylen \<noteq> 24 \<and> keylen \<noteq> 32
      then (Inl EINVAL, tfm\<lparr>crt_flags := crt_flags tfm OR CRYPTO_TFM_RES_BAD_KEY_LEN\<rparr>)
      else (Inr (), tfm\<lparr>crt_key := take keylen key\<rparr>))"

definition crypto_cipher_blocksize :: "crypto_tfm \<Rightarrow> nat" where
  "crypto_cipher_blocksize tfm = AES_BLOCK_SIZE"

text \<open>
  \<open>crypto_cipher_encrypt_one(tfm, dst, src)\<close> and its decrypting twin read one
  block at \<open>src\<close> and write its image at \<open>dst\<close>; both pointers must have a whole
  block behind them.  \<open>cipher_one\<close> is the shared shape, over the block function.
\<close>

definition cipher_one :: "(bytes \<Rightarrow> bytes) \<Rightarrow> bytes \<Rightarrow> int \<Rightarrow> bytes \<Rightarrow> int \<Rightarrow> fault + bytes" where
  "cipher_one f dst d src s =
     (case mem_read src s AES_BLOCK_SIZE of
        Inl e \<Rightarrow> Inl e
      | Inr blk \<Rightarrow> mem_write dst d (f blk))"

definition crypto_cipher_encrypt_one ::
  "cipher \<Rightarrow> crypto_tfm \<Rightarrow> bytes \<Rightarrow> int \<Rightarrow> bytes \<Rightarrow> int \<Rightarrow> fault + bytes" where
  "crypto_cipher_encrypt_one c tfm = cipher_one (cia_encrypt c (crt_key tfm))"

definition crypto_cipher_decrypt_one ::
  "cipher \<Rightarrow> crypto_tfm \<Rightarrow> bytes \<Rightarrow> int \<Rightarrow> bytes \<Rightarrow> int \<Rightarrow> fault + bytes" where
  "crypto_cipher_decrypt_one c tfm = cipher_one (cia_decrypt c (crt_key tfm))"

section \<open>Electronic codebook: the reference transform\<close>

function ecb :: "(bytes \<Rightarrow> bytes) \<Rightarrow> bytes \<Rightarrow> bytes" where
  "ecb f bs =
     (if bs = [] then [] else f (take AES_BLOCK_SIZE bs) @ ecb f (drop AES_BLOCK_SIZE bs))"
  by pat_completeness auto
termination
  by (relation "measure (\<lambda>(f, bs). length bs)") (auto simp: AES_BLOCK_SIZE_def)

declare ecb.simps [simp del]

text \<open>A stand-in cipher, used only to evaluate witnesses: byte-wise addition of the key.\<close>

definition pad_key :: "bytes \<Rightarrow> bytes" where
  "pad_key k = take AES_BLOCK_SIZE (k @ replicate AES_BLOCK_SIZE 0)"

definition add_cipher :: cipher where
  "add_cipher =
     \<lparr>cia_encrypt = (\<lambda>k b. map2 (+) b (pad_key k)),
      cia_decrypt = (\<lambda>k b. map2 (-) b (pad_key k))\<rparr>"

definition block_preserving :: "(bytes \<Rightarrow> bytes) \<Rightarrow> bool" where
  "block_preserving f \<longleftrightarrow> (\<forall>b. length b = AES_BLOCK_SIZE \<longrightarrow> length (f b) = AES_BLOCK_SIZE)"

subsection \<open>Lemmas on the reference transform\<close>

lemma ecb_Nil [simp]: "ecb f [] = []"
  by (simp add: ecb.simps)

lemma ecb_block:
  "length b = AES_BLOCK_SIZE \<Longrightarrow> ecb f (b @ bs) = f b @ ecb f bs"
  by (subst ecb.simps) (auto simp: AES_BLOCK_SIZE_def)

lemma ecb_unfold:
  "bs \<noteq> [] \<Longrightarrow> ecb f bs = f (take AES_BLOCK_SIZE bs) @ ecb f (drop AES_BLOCK_SIZE bs)"
  by (subst ecb.simps) simp

lemma ecb_append:
  "AES_BLOCK_SIZE dvd length xs \<Longrightarrow> ecb f (xs @ ys) = ecb f xs @ ecb f ys"
proof (induction f xs rule: ecb.induct)
  case (1 f xs)
  show ?case
  proof (cases "xs = []")
    case False
    with "1.prems" have "AES_BLOCK_SIZE \<le> length xs"
      by (auto simp: AES_BLOCK_SIZE_def dest: dvd_imp_le)
    moreover from "1.prems" have "AES_BLOCK_SIZE dvd length (drop AES_BLOCK_SIZE xs)"
      by (simp add: AES_BLOCK_SIZE_def dvd_diff_nat)
    ultimately show ?thesis
      using False "1.IH" by (simp add: ecb_unfold)
  qed simp
qed

text \<open>A block function that keeps blocks at 16 bytes keeps every aligned range's length.\<close>

lemma ecb_length:
  "block_preserving f \<Longrightarrow> AES_BLOCK_SIZE dvd length bs \<Longrightarrow> length (ecb f bs) = length bs"
proof (induction f bs rule: ecb.induct)
  case (1 f bs)
  show ?case
  proof (cases "bs = []")
    case False
    with "1.prems" have "AES_BLOCK_SIZE \<le> length bs"
      by (auto simp: AES_BLOCK_SIZE_def dest: dvd_imp_le)
    moreover from "1.prems" have "AES_BLOCK_SIZE dvd length (drop AES_BLOCK_SIZE bs)"
      by (simp add: AES_BLOCK_SIZE_def dvd_diff_nat)
    ultimately show ?thesis
      using False "1.IH" "1.prems"(1) by (simp add: ecb_unfold block_preserving_def)
  qed simp
qed

lemma ecb_inverse:
  "(\<And>b. length b = AES_BLOCK_SIZE \<Longrightarrow> length (f b) = AES_BLOCK_SIZE \<and> g (f b) = b) \<Longrightarrow>
   AES_BLOCK_SIZE dvd length bs \<Longrightarrow> ecb g (ecb f bs) = bs"
proof (induction f bs rule: ecb.induct)
  case (1 f bs)
  show ?case
  proof (cases "bs = []")
    case False
    with "1.prems" have le: "AES_BLOCK_SIZE \<le> length bs"
      by (auto simp: AES_BLOCK_SIZE_def dest: dvd_imp_le)
    from "1.prems" have "AES_BLOCK_SIZE dvd length (drop AES_BLOCK_SIZE bs)"
      by (simp add: AES_BLOCK_SIZE_def dvd_diff_nat)
    with False "1.IH" "1.prems"(1) have IH: "ecb g (ecb f (drop AES_BLOCK_SIZE bs)) = drop AES_BLOCK_SIZE bs"
      by blast
    from le have "length (take AES_BLOCK_SIZE bs) = AES_BLOCK_SIZE" by simp
    with "1.prems"(1) have "length (f (take AES_BLOCK_SIZE bs)) = AES_BLOCK_SIZE"
      and "g (f (take AES_BLOCK_SIZE bs)) = take AES_BLOCK_SIZE bs" by auto
    with False IH show ?thesis
      by (simp add: ecb_unfold [of bs f] ecb_block)
  qed simp
qed

lemma cipher_ok_block_preserving:
  "cipher_ok c \<Longrightarrow> block_preserving (cia_encrypt c k) \<and> block_preserving (cia_decrypt c k)"
  by (simp add: cipher_ok_def block_preserving_def)

lemma ecb_decrypt_encrypt:
  "cipher_ok c \<Longrightarrow> AES_BLOCK_SIZE dvd length bs \<Longrightarrow>
   ecb (cia_decrypt c k) (ecb (cia_encrypt c k) bs) = bs"
  by (rule ecb_inverse) (auto simp: cipher_ok_def)

lemma map2_minus_plus:
  "length p = length b \<Longrightarrow> map2 (-) (map2 (+) b p) p = (b :: bytes)"
  by (induction b arbitrary: p) (auto simp: length_Suc_conv)

lemma add_cipher_ok: "cipher_ok add_cipher"
  by (simp add: cipher_ok_def add_cipher_def pad_key_def map2_minus_plus AES_BLOCK_SIZE_def)

lemma ecb_take_drop:
  assumes "block_preserving f" and "AES_BLOCK_SIZE dvd m" and "m \<le> length d"
  shows "take m (ecb f d) = ecb f (take m d)" and "drop m (ecb f d) = ecb f (drop m d)"
proof -
  have split: "ecb f d = ecb f (take m d) @ ecb f (drop m d)"
    using ecb_append [of "take m d" f "drop m d"] assms(2,3) by simp
  have len: "length (ecb f (take m d)) = m"
    using ecb_length [OF assms(1), of "take m d"] assms(2,3) by simp
  from split len show "take m (ecb f d) = ecb f (take m d)" and "drop m (ecb f d) = ecb f (drop m d)"
    by simp_all
qed

lemma ecb_blit:
  assumes f: "block_preserving f" and a: "AES_BLOCK_SIZE dvd a" "AES_BLOCK_SIZE dvd length v"
    and fit: "a + length v \<le> length m"
  shows "ecb f (blit m a v) = blit (ecb f m) a (ecb f v)"
proof -
  have lv: "length (ecb f v) = length v" using ecb_length [OF f a(2)] .
  have "ecb f (blit m a v) = ecb f (take a m) @ ecb f v @ ecb f (drop (a + length v) m)"
    using a fit by (simp add: blit_def ecb_append dvd_add)
  also have "\<dots> = take a (ecb f m) @ ecb f v @ drop (a + length v) (ecb f m)"
    using ecb_take_drop [OF f, of a m] ecb_take_drop [OF f, of "a + length v" m] a fit by (simp add: dvd_add)
  finally show ?thesis using lv by (simp add: blit_def)
qed

end
