(* ===== verification/BlockLoop.thy ===== *)
theory BlockLoop
  imports Cipher
begin

text \<open>
  The block loop of \<open>sbd_transfer\<close> (\<open>ramdisk.c\<close> lines 133-136 and 147-150).
  Both loops have one shape,
  \<open>for (k = 0; k < nbytes; k += bs) op(dst + doff + k, src + soff + k)\<close>, and are
  one definition \<open>cipher_loop\<close> instantiated twice.  Its index \<open>k\<close> is the C
  \<open>int\<close> it is in the source: compared with the \<open>unsigned long\<close> \<open>nbytes\<close> after
  sign extension, and advanced by the unsigned block size with 32-bit wrap-around.
  Since a wrapped index could in principle keep the loop going, the loop is a
  \<open>partial_function (option)\<close>; its termination is a theorem.  The lemmas show what
  the loop computes (the ECB image of the range), that it returns, and where it
  faults.
\<close>

partial_function (option) cipher_loop ::
  "(bytes \<Rightarrow> int \<Rightarrow> bytes \<Rightarrow> int \<Rightarrow> fault + bytes) \<Rightarrow> nat \<Rightarrow> u64 \<Rightarrow> c_int \<Rightarrow>
   bytes \<Rightarrow> nat \<Rightarrow> bytes \<Rightarrow> nat \<Rightarrow> (fault + bytes) option" where
  "cipher_loop op bs nbytes k dst doff src soff =
     (if (scast k :: u64) < nbytes then
        (case op dst (int doff + sint k) src (int soff + sint k) of
           Inl e \<Rightarrow> Some (Inl e)
         | Inr dst' \<Rightarrow> cipher_loop op bs nbytes (k + of_nat bs) dst' doff src soff)
      else Some (Inr dst))"

text \<open>
  The reference the loop is compared with: read the whole source range, transform it
  block by block, write the whole destination range, each access checked as one.
\<close>

definition ecb_copy :: "(bytes \<Rightarrow> bytes) \<Rightarrow> bytes \<Rightarrow> nat \<Rightarrow> bytes \<Rightarrow> nat \<Rightarrow> nat \<Rightarrow> fault + bytes" where
  "ecb_copy f dst doff src soff n =
     (case mem_read src (int soff) n of Inl e \<Rightarrow> Inl e | Inr v \<Rightarrow> mem_write dst (int doff) (ecb f v))"

section \<open>Lemmas on the block loop\<close>

text \<open>
  The loop index: below \<open>2 ^ 31\<close> the C \<open>int\<close> holds the natural number
  exactly, and sign extension to \<open>unsigned long\<close> keeps it.
\<close>

lemma sint_of_nat_small:
  assumes "n < 2 ^ 31"
  shows "sint (of_nat n :: c_int) = int n"
proof -
  from assms have "int n < 2 ^ 31" by simp
  then have "signed_take_bit 31 (int n) = int n"
    by (simp add: signed_take_bit_int_eq_self)
  then show ?thesis
    using signed_of_nat [where 'b = 32, of n] by simp
qed

lemma scast_of_nat_small:
  assumes "n < 2 ^ 31"
  shows "(scast (of_nat n :: c_int) :: u64) = of_nat n"
proof -
  from assms have "int n < 2 ^ 31" by simp
  then have "signed_take_bit 31 (int n) = int n"
    by (simp add: signed_take_bit_int_eq_self)
  then show ?thesis
    using signed_of_nat [where 'b = 32, of n] by simp
qed

lemma unat_of_nat_u64: "n < 2 ^ 64 \<Longrightarrow> unat (of_nat n :: u64) = n"
  by (simp add: unsigned_of_nat take_bit_nat_eq_self)

lemma of_nat_less_u64:
  "n < 2 ^ 64 \<Longrightarrow> ((of_nat n :: u64) < m) = (n < unat m)"
  by (simp add: word_less_nat_alt unat_of_nat_u64)


lemma cipher_loop_stop:
  "\<not> (scast k :: u64) < nbytes \<Longrightarrow> cipher_loop op bs nbytes k dst doff src soff = Some (Inr dst)"
  by (simp add: cipher_loop.simps)

lemma cipher_loop_step:
  "(scast k :: u64) < nbytes \<Longrightarrow> op dst (int doff + sint k) src (int soff + sint k) = Inr dst' \<Longrightarrow>
   cipher_loop op bs nbytes k dst doff src soff = cipher_loop op bs nbytes (k + of_nat bs) dst' doff src soff"
  by (simp add: cipher_loop.simps)

lemma cipher_one_Inr:
  assumes "d + AES_BLOCK_SIZE \<le> length dst" and "s + AES_BLOCK_SIZE \<le> length src"
    and "block_preserving f"
  shows "cipher_one f dst (int d) src (int s) =
           Inr (blit dst d (f (take AES_BLOCK_SIZE (drop s src))))"
proof -
  from assms(2) have "length (take AES_BLOCK_SIZE (drop s src)) = AES_BLOCK_SIZE" by simp
  with assms(3) have "length (f (take AES_BLOCK_SIZE (drop s src))) = AES_BLOCK_SIZE"
    by (simp add: block_preserving_def)
  with assms(1,2) show ?thesis
    by (simp add: cipher_one_def mem_read_Inr mem_write_Inr)
qed

lemma cipher_one_Inr_block:
  assumes "cipher_one f dst (int d) src (int s) = Inr dst'" and "block_preserving f"
  shows "s + AES_BLOCK_SIZE \<le> length src" and "d + AES_BLOCK_SIZE \<le> length dst"
    and "dst' = blit dst d (f (take AES_BLOCK_SIZE (drop s src)))" and "length dst' = length dst"
proof -
  from assms(1) show "length dst' = length dst"
    by (auto simp: cipher_one_def mem_write_length split: sum.splits)
  from assms(1) show src: "s + AES_BLOCK_SIZE \<le> length src"
    by (auto simp: cipher_one_def mem_read_def split: if_splits)
  with assms(2) have "length (f (take AES_BLOCK_SIZE (drop s src))) = AES_BLOCK_SIZE"
    by (simp add: block_preserving_def)
  with assms(1) src show "d + AES_BLOCK_SIZE \<le> length dst"
    and "dst' = blit dst d (f (take AES_BLOCK_SIZE (drop s src)))"
    by (auto simp: cipher_one_def mem_read_def mem_write_def split: if_splits)
qed


lemma take_drop_split_block:
  "AES_BLOCK_SIZE \<le> m \<Longrightarrow>
   take m (drop a xs) = take AES_BLOCK_SIZE (drop a xs) @ take (m - AES_BLOCK_SIZE) (drop (a + AES_BLOCK_SIZE) xs)"
  by (metis add.commute drop_drop le_add_diff_inverse take_add)

lemma cipher_loop_ecb:
  assumes f: "block_preserving f"
    and n: "AES_BLOCK_SIZE dvd unat nbytes" "unat nbytes < 2 ^ 31"
    and s: "soff + unat nbytes \<le> length src"
  shows "AES_BLOCK_SIZE dvd j \<Longrightarrow> j \<le> unat nbytes \<Longrightarrow> doff + unat nbytes \<le> length dst \<Longrightarrow>
     cipher_loop (cipher_one f) AES_BLOCK_SIZE nbytes (of_nat j) dst doff src soff =
       Some (Inr (blit dst (doff + j) (ecb f (take (unat nbytes - j) (drop (soff + j) src)))))"
proof (induction "unat nbytes - j" arbitrary: j dst rule: less_induct)
  case less
  have jsmall: "j < 2 ^ 31" using less.prems(2) n(2) by linarith
  have k: "(scast (of_nat j :: c_int) :: u64) = of_nat j" "sint (of_nat j :: c_int) = int j"
    using jsmall by (simp_all add: scast_of_nat_small sint_of_nat_small)
  have lt: "((of_nat j :: u64) < nbytes) = (j < unat nbytes)"
    using jsmall by (simp add: of_nat_less_u64)
  show ?case
  proof (cases "j < unat nbytes")
    case False
    with less.prems(2) have "j = unat nbytes" by simp
    with less.prems(3) k(1) lt False show ?thesis
      by (simp add: cipher_loop_stop)
  next
    case True
    from True less.prems(1) n(1) have j16: "j + AES_BLOCK_SIZE \<le> unat nbytes"
      by (auto simp: AES_BLOCK_SIZE_def elim!: dvdE)
    let ?blk = "take AES_BLOCK_SIZE (drop (soff + j) src)"
    let ?dst' = "blit dst (doff + j) (f ?blk)"
    let ?rest = "ecb f (take (unat nbytes - (j + AES_BLOCK_SIZE)) (drop (soff + (j + AES_BLOCK_SIZE)) src))"
    have blk: "length (f ?blk) = AES_BLOCK_SIZE"
      using f j16 s by (simp add: block_preserving_def)
    have one: "cipher_one f dst (int doff + sint (of_nat j :: c_int)) src (int soff + sint (of_nat j :: c_int)) = Inr ?dst'"
      using cipher_one_Inr [OF _ _ f, of "doff + j" dst "soff + j" src] j16 s less.prems(3) k(2)
      by (simp add: add.assoc)
    have len': "length ?dst' = length dst"
      using blk j16 less.prems(3) by simp
    have IH: "cipher_loop (cipher_one f) AES_BLOCK_SIZE nbytes (of_nat (j + AES_BLOCK_SIZE)) ?dst' doff src soff
                = Some (Inr (blit ?dst' (doff + (j + AES_BLOCK_SIZE)) ?rest))"
      using less.hyps [of "j + AES_BLOCK_SIZE" ?dst'] True j16 less.prems(1,3) len'
      by (simp add: AES_BLOCK_SIZE_def)
    have rest_len: "length ?rest = unat nbytes - (j + AES_BLOCK_SIZE)"
    proof -
      have "AES_BLOCK_SIZE dvd unat nbytes - (j + AES_BLOCK_SIZE)"
        using n(1) less.prems(1) by (simp add: AES_BLOCK_SIZE_def dvd_diff_nat)
      then show ?thesis
        using ecb_length [OF f] s j16 by simp
    qed
    have split: "take (unat nbytes - j) (drop (soff + j) src) =
                 ?blk @ take (unat nbytes - (j + AES_BLOCK_SIZE)) (drop (soff + (j + AES_BLOCK_SIZE)) src)"
      using take_drop_split_block [of "unat nbytes - j" "soff + j" src] j16
      by (simp add: add.assoc)
    have "blit ?dst' (doff + j + AES_BLOCK_SIZE) ?rest = blit dst (doff + j) (f ?blk @ ?rest)"
      using blit_blit_adjacent [of "doff + j" "f ?blk" ?rest dst] blk rest_len j16 less.prems(3)
      by simp
    moreover have "ecb f (take (unat nbytes - j) (drop (soff + j) src)) = f ?blk @ ?rest"
      using split j16 s by (simp add: ecb_block)
    ultimately show ?thesis
      using cipher_loop_step [of "of_nat j" nbytes "cipher_one f" dst doff src soff ?dst' AES_BLOCK_SIZE]
        k(1) lt True one IH
      by (simp add: add.assoc)
  qed
qed


lemma sint_nonneg_unat:
  assumes "0 \<le> sint (k :: c_int)"
  shows "unat k = nat (sint k)" and "unat k < 2 ^ 31"
proof -
  have "sint k < 2 ^ 31" using sint_lt [of k] by simp
  with assms have "take_bit 32 (sint k) = sint k"
    by (simp add: take_bit_int_eq_self)
  then have "uint k = sint k" by (simp add: uint_sint)
  then show "unat k = nat (sint k)" by (simp add: unat_eq_nat_uint)
  with \<open>sint k < 2 ^ 31\<close> assms show "unat k < 2 ^ 31" by (simp add: nat_less_iff)
qed

lemma unat_add_block:
  "0 \<le> sint (k :: c_int) \<Longrightarrow> unat (k + of_nat AES_BLOCK_SIZE) = unat k + AES_BLOCK_SIZE"
  using sint_nonneg_unat(2) [of k] by (simp add: unat_add_lem [THEN iffD1] AES_BLOCK_SIZE_def)

lemma cipher_one_Inr_bounds:
  "cipher_one f dst d src s = Inr x \<Longrightarrow> 0 \<le> d \<and> 0 \<le> s"
  by (auto simp: cipher_one_def mem_read_def mem_write_def split: if_splits)

lemma cipher_loop_terminates:
  assumes "doff = 0 \<or> soff = 0"
  shows "\<exists>r. cipher_loop (cipher_one f) AES_BLOCK_SIZE nbytes k dst doff src soff = Some r"
proof (induction "2 ^ 32 - unat k" arbitrary: k dst rule: less_induct)
  case less
  show ?case
  proof (cases "(scast k :: u64) < nbytes")
    case False
    then show ?thesis by (simp add: cipher_loop_stop)
  next
    case True
    show ?thesis
    proof (cases "cipher_one f dst (int doff + sint k) src (int soff + sint k)")
      case (Inl e)
      with True show ?thesis by (simp add: cipher_loop.simps)
    next
      case (Inr dst')
      with assms have "0 \<le> sint k"
        by (auto dest: cipher_one_Inr_bounds)
      then have "unat (k + of_nat AES_BLOCK_SIZE) = unat k + AES_BLOCK_SIZE"
        and "unat k < 2 ^ 31"
        by (rule unat_add_block, rule sint_nonneg_unat(2))
      then have "2 ^ 32 - unat (k + of_nat AES_BLOCK_SIZE) < 2 ^ 32 - unat k"
        by (simp add: AES_BLOCK_SIZE_def)
      then obtain r where "cipher_loop (cipher_one f) AES_BLOCK_SIZE nbytes (k + of_nat AES_BLOCK_SIZE) dst' doff src soff = Some r"
        using less.hyps by blast
      with True Inr show ?thesis
        by (simp add: cipher_loop_step)
    qed
  qed
qed

lemma cipher_loop_unaligned_fault:
  assumes n: "\<not> AES_BLOCK_SIZE dvd unat nbytes" "unat nbytes < 2 ^ 31" and f: "block_preserving f"
  shows "length src = soff + unat nbytes \<or> length dst = doff + unat nbytes \<Longrightarrow>
     AES_BLOCK_SIZE dvd j \<Longrightarrow> j \<le> unat nbytes \<Longrightarrow>
     cipher_loop (cipher_one f) AES_BLOCK_SIZE nbytes (of_nat j) dst doff src soff = Some (Inl Mem_fault)"
proof (induction "unat nbytes - j" arbitrary: j dst rule: less_induct)
  case less
  have jsmall: "j < 2 ^ 31" using less.prems(3) n(2) by linarith
  have k: "(scast (of_nat j :: c_int) :: u64) = of_nat j" "sint (of_nat j :: c_int) = int j"
    using jsmall by (simp_all add: scast_of_nat_small sint_of_nat_small)
  from less.prems(2,3) n(1) have True: "j < unat nbytes"
    by (metis le_neq_implies_less)
  then have lt: "(scast (of_nat j :: c_int) :: u64) < nbytes"
    using jsmall k(1) by (simp add: of_nat_less_u64)
  show ?case
  proof (cases "cipher_one f dst (int (doff + j)) src (int (soff + j))")
    case (Inl e)
    with lt k(2) show ?thesis by (cases e) (simp add: cipher_loop.simps)
  next
    case (Inr dst')
    note blk = cipher_one_Inr_block [OF Inr f]
    have len': "length dst' = length dst" by (rule blk(4))
    from blk(1,2) less.prems(1) have j16: "j + AES_BLOCK_SIZE \<le> unat nbytes" by auto
    have "cipher_loop (cipher_one f) AES_BLOCK_SIZE nbytes (of_nat (j + AES_BLOCK_SIZE)) dst' doff src soff
            = Some (Inl Mem_fault)"
      using less.hyps [of "j + AES_BLOCK_SIZE" dst'] less.prems(1,2) j16 True len'
      by (simp add: AES_BLOCK_SIZE_def)
    with lt Inr k(2) show ?thesis
      by (simp add: cipher_loop_step)
  qed
qed

lemma cipher_loop_length:
  assumes "cipher_loop (cipher_one f) bs n k dst doff src soff = Some (Inr dst')"
  shows "length dst' = length dst"
proof (rule cipher_loop.raw_induct [where P = "\<lambda>op bs n k dst doff src soff r.
          op = cipher_one f \<longrightarrow> (\<forall>d'. r = Inr d' \<longrightarrow> length d' = length dst)", OF _ assms, THEN mp, THEN spec, THEN mp])
  fix cl op bs n k dst doff src soff r
  assume IH: "\<And>op bs n k dst doff src soff r. cl op bs n k dst doff src soff = Some r \<Longrightarrow>
                 op = cipher_one f \<longrightarrow> (\<forall>d'. r = Inr d' \<longrightarrow> length d' = length dst)"
    and eq: "(if (scast k :: u64) < n then
        (case op dst (int doff + sint k) src (int soff + sint k) of
           Inl e \<Rightarrow> Some (Inl e)
         | Inr dst' \<Rightarrow> cl op bs n (k + of_nat bs) dst' doff src soff)
      else Some (Inr dst)) = Some r"
  show "op = cipher_one f \<longrightarrow> (\<forall>d'. r = Inr d' \<longrightarrow> length d' = length dst)"
  proof (intro impI allI)
    fix d' assume op: "op = cipher_one f" and r: "r = Inr d'"
    show "length d' = length dst"
    proof (cases "(scast k :: u64) < n")
      case False with eq r show ?thesis by simp
    next
      case True
      show ?thesis
      proof (cases "op dst (int doff + sint k) src (int soff + sint k)")
        case (Inl e) with True eq r show ?thesis by simp
      next
        case (Inr d1)
        with True eq have "cl op bs n (k + of_nat bs) d1 doff src soff = Some r" by simp
        from IH [OF this] op r have "length d' = length d1" by simp
        moreover from Inr op have "length d1 = length dst"
          by (auto simp: cipher_one_def mem_write_length split: sum.splits)
        ultimately show ?thesis by simp
      qed
    qed
  qed
qed simp_all


lemma ecb_copy_eq:
  assumes "block_preserving f" and "AES_BLOCK_SIZE dvd n"
  shows "ecb_copy f dst doff src soff n =
           (if soff + n \<le> length src \<and> doff + n \<le> length dst
            then Inr (blit dst doff (ecb f (take n (drop soff src)))) else Inl Mem_fault)"
proof -
  have "soff + n \<le> length src \<Longrightarrow> length (ecb f (take n (drop soff src))) = n"
    using ecb_length [OF assms(1)] assms(2) by simp
  then show ?thesis
    by (auto simp: ecb_copy_def mem_read_def mem_write_def)
qed

lemma cipher_loop_aligned_fault:
  assumes n: "AES_BLOCK_SIZE dvd unat nbytes" "unat nbytes < 2 ^ 31" and f: "block_preserving f"
  shows "\<not> (soff + unat nbytes \<le> length src \<and> doff + unat nbytes \<le> length dst) \<Longrightarrow>
     AES_BLOCK_SIZE dvd j \<Longrightarrow> j < unat nbytes \<Longrightarrow>
     cipher_loop (cipher_one f) AES_BLOCK_SIZE nbytes (of_nat j) dst doff src soff = Some (Inl Mem_fault)"
proof (induction "unat nbytes - j" arbitrary: j dst rule: less_induct)
  case less
  have jsmall: "j < 2 ^ 31" using less.prems(3) n(2) by linarith
  have k: "(scast (of_nat j :: c_int) :: u64) = of_nat j" "sint (of_nat j :: c_int) = int j"
    using jsmall by (simp_all add: scast_of_nat_small sint_of_nat_small)
  have lt: "(scast (of_nat j :: c_int) :: u64) < nbytes"
    using jsmall k(1) less.prems(3) by (simp add: of_nat_less_u64)
  show ?case
  proof (cases "cipher_one f dst (int (doff + j)) src (int (soff + j))")
    case (Inl e)
    with lt k(2) show ?thesis by (cases e) (simp add: cipher_loop.simps)
  next
    case (Inr dst')
    note blk = cipher_one_Inr_block [OF Inr f]
    from less.prems(2,3) n(1) have j16: "j + AES_BLOCK_SIZE \<le> unat nbytes"
      by (auto simp: AES_BLOCK_SIZE_def elim!: dvdE)
    have more: "j + AES_BLOCK_SIZE < unat nbytes"
    proof (rule ccontr)
      assume "\<not> j + AES_BLOCK_SIZE < unat nbytes"
      with j16 blk(1,2) less.prems(1) show False by simp
    qed
    have len': "length dst' = length dst" by (rule blk(4))
    have "cipher_loop (cipher_one f) AES_BLOCK_SIZE nbytes (of_nat (j + AES_BLOCK_SIZE)) dst' doff src soff
            = Some (Inl Mem_fault)"
      using less.hyps [of "j + AES_BLOCK_SIZE" dst'] less.prems(1,2) more len'
      by (simp add: AES_BLOCK_SIZE_def)
    with lt Inr k(2) show ?thesis
      by (simp add: cipher_loop_step)
  qed
qed

section \<open>Properties of the block loop\<close>

text \<open>
  C25: For a non-empty, block-aligned length below \<open>2 ^ 31\<close>, the block loop is
  equivalent to the reference \<open>ecb_copy\<close>: it returns exactly what reading the whole
  source range, transforming it block by block and writing it whole returns,
  faulting on exactly the same inputs.
\<close>

theorem cipher_loop_equiv_ecb_copy:
  assumes f: "block_preserving f" and n: "AES_BLOCK_SIZE dvd n" "0 < n" "n < 2 ^ 31"
  shows "cipher_loop (cipher_one f) AES_BLOCK_SIZE (of_nat n) 0 dst doff src soff =
           Some (ecb_copy f dst doff src soff n)"
proof -
  have un: "unat (of_nat n :: u64) = n" using n(3) by (simp add: unat_of_nat_u64)
  show ?thesis
  proof (cases "soff + n \<le> length src \<and> doff + n \<le> length dst")
    case True
    then show ?thesis
      using cipher_loop_ecb [OF f, of "of_nat n" soff src 0 doff dst] un n
      by (simp add: ecb_copy_eq [OF f n(1)])
  next
    case False
    then show ?thesis
      using cipher_loop_aligned_fault [OF _ _ f, of "of_nat n" soff src doff dst 0] un n
      by (simp add: ecb_copy_eq [OF f n(1)])
  qed
qed

section \<open>Witnesses\<close>

lemma cipher_loop_equiv_ecb_copy_witness:
  "cipher_loop (cipher_one id) AES_BLOCK_SIZE (of_nat 16) 0 (replicate 32 0) 16 (replicate 16 1) 0 =
     Some (Inr (replicate 16 0 @ replicate 16 1)) \<and>
   cipher_loop (cipher_one id) AES_BLOCK_SIZE (of_nat 16) 0 (replicate 32 0) 16 (replicate 8 1) 0 =
     Some (Inl Mem_fault)"
proof -
  have f: "block_preserving id" by (simp add: block_preserving_def)
  have n: "AES_BLOCK_SIZE dvd 16" "0 < (16::nat)" "(16::nat) < 2 ^ 31" by (simp_all add: AES_BLOCK_SIZE_def)
  show ?thesis
    using cipher_loop_equiv_ecb_copy [OF f n, of "replicate 32 0" 16 "replicate 16 1" 0]
      cipher_loop_equiv_ecb_copy [OF f n, of "replicate 32 0" 16 "replicate 8 1" 0]
    by (simp add: ecb_copy_def mem_read_def mem_write_def blit_def ecb_unfold AES_BLOCK_SIZE_def)
qed

end
