(* ===== verification/KeyStore.thy ===== *)
theory KeyStore
  imports Prelude
begin

text \<open>
  The key store of the driver: the global array \<open>crypto_key[KEY_SIZE]\<close> and the
  length \<open>key_size\<close> (\<open>ramdisk.c\<close> lines 34-36), written by the sysfs store
  handler \<open>key_store\<close> and read by the show handler \<open>key_display\<close> (lines 66-89).
  Its state is the record \<open>key_state\<close>, an extension of the kernel log; the driver's
  whole state extends it in turn, so the operations here are stated over
  \<open>'a key_state_scheme\<close> and apply unchanged to the whole driver.
  \<open>snprintf_key\<close> is the \<open>snprintf(crypto_key, sizeof(crypto_key), "%.*s", ...)\<close>
  call of line 86: it copies at most the precision, stops at the first NUL byte of
  the input, always writes a terminating NUL, and leaves the bytes behind that NUL
  as they were.
\<close>

definition KEY_SIZE :: nat where
  "KEY_SIZE = 32"

definition PAGE_SIZE :: nat where
  "PAGE_SIZE = 4096"

record key_state = klog_state +
  crypto_key :: bytes
  key_size :: c_int

definition key_state_init :: key_state where
  "key_state_init = \<lparr>klog = [], crypto_key = replicate KEY_SIZE 0, key_size = 0\<rparr>"

definition snprintf_key :: "bytes \<Rightarrow> nat \<Rightarrow> bytes \<Rightarrow> bytes" where
  "snprintf_key dst prec src =
     (let s = take (KEY_SIZE - 1) (take prec (takeWhile (\<lambda>b. b \<noteq> 0) src))
      in take KEY_SIZE (s @ 0 # drop (Suc (length s)) dst))"

definition key_store :: "'a key_state_scheme \<Rightarrow> bytes \<Rightarrow> (errno + nat) \<times> 'a key_state_scheme" where
  "key_store st buf =
     (let count = length buf in
      if count \<noteq> 16 \<and> count \<noteq> 24 \<and> count \<noteq> 32
      then (Inl EINVAL, printk st (Msg_key_invalid count))
      else
        let st1 = printk st Msg_storing_key
        in (Inr count,
            st1\<lparr>crypto_key := snprintf_key (crypto_key st1) (min count (KEY_SIZE - 1)) buf,
                key_size := of_nat count\<rparr>))"

text \<open>
  \<open>scnprintf(buf, PAGE_SIZE, "%s\n", crypto_key)\<close> reads the key up to its first
  NUL byte; without one it would read past the array.
\<close>

definition key_display :: "'a key_state_scheme \<Rightarrow> (fault + bytes) \<times> 'a key_state_scheme" where
  "key_display st =
     (let st1 = printk st Msg_copying_key in
      if 0 \<in> set (crypto_key st1)
      then (Inr (take (PAGE_SIZE - 1) (takeWhile (\<lambda>b. b \<noteq> 0) (crypto_key st1) @ [10])), st1)
      else (Inl Mem_fault, st1))"

text \<open>
  The invariant of the key store: the array has its 32 bytes, holds a NUL byte
  (so that \<open>%s\<close> stops inside it), and the length is one of the values the code
  assigns (0 initially, then an accepted count).
\<close>

definition key_inv :: "'a key_state_scheme \<Rightarrow> bool" where
  "key_inv st \<longleftrightarrow>
     length (crypto_key st) = KEY_SIZE \<and> 0 \<in> set (crypto_key st) \<and>
     key_size st \<in> {0, 16, 24, 32}"

text \<open>
  The key a transfer installs in the cipher: the first \<open>key_size\<close> bytes of the
  array (\<open>crypto_cipher_setkey(tfm, crypto_key, key_size)\<close>, line 117).
\<close>

definition installed_key :: "'a key_state_scheme \<Rightarrow> bytes" where
  "installed_key st = take (unat (key_size st)) (crypto_key st)"

section \<open>Lemmas on the key store\<close>

lemma printk_key_fields [simp]:
  "crypto_key (printk st m) = crypto_key st" "key_size (printk st m) = key_size st"
  by (simp_all add: printk_def)

lemma snprintf_key_length:
  "length dst = KEY_SIZE \<Longrightarrow> length (snprintf_key dst p src) = KEY_SIZE"
  by (simp add: snprintf_key_def Let_def KEY_SIZE_def)

lemma snprintf_key_nul:
  "length dst = KEY_SIZE \<Longrightarrow> 0 \<in> set (snprintf_key dst p src)"
  by (simp add: snprintf_key_def Let_def KEY_SIZE_def)

text \<open>The image of a key with a NUL byte at position \<open>length pre\<close>.\<close>

lemma snprintf_key_split:
  assumes "length dst = KEY_SIZE" and "0 \<notin> set pre" and "length pre \<le> p" and "p < KEY_SIZE"
  shows "snprintf_key dst p (pre @ 0 # post) = pre @ 0 # drop (Suc (length pre)) dst"
proof -
  from assms(2) have "takeWhile (\<lambda>b. b \<noteq> 0) (pre @ 0 # post) = pre"
    by (auto simp: takeWhile_append2 takeWhile_tail)
  moreover from assms(3,4) have "take (KEY_SIZE - 1) (take p pre) = pre"
    by simp
  ultimately show ?thesis
    using assms(1,3,4) by (simp add: snprintf_key_def Let_def)
qed

lemma snprintf_key_nul_free:
  assumes "length dst = KEY_SIZE" and "0 \<notin> set src" and "p < KEY_SIZE" and "p \<le> length src"
  shows "snprintf_key dst p src = take p src @ 0 # drop (Suc p) dst"
proof -
  from assms(2) have tw: "takeWhile (\<lambda>b. b \<noteq> 0) src = src"
    by (auto simp: takeWhile_eq_all_conv)
  from assms(3) have "take (KEY_SIZE - 1) (take p src) = take p src"
    by simp
  with assms(1,3,4) show ?thesis
    by (simp only: snprintf_key_def Let_def tw) (simp add: min_def)
qed

lemma key_store_accepted:
  assumes "length buf \<in> {16, 24, 32}"
  shows "key_store st buf =
           (Inr (length buf),
            (printk st Msg_storing_key)\<lparr>crypto_key :=
               snprintf_key (crypto_key st) (min (length buf) (KEY_SIZE - 1)) buf,
             key_size := of_nat (length buf)\<rparr>)"
  using assms by (auto simp: key_store_def Let_def)

lemma key_display_key [simp]:
  "crypto_key (snd (key_display st)) = crypto_key st"
  "key_size (snd (key_display st)) = key_size st"
  by (simp_all add: key_display_def Let_def)

lemma key_inv_init: "key_inv key_state_init"
  by (simp add: key_inv_def key_state_init_def KEY_SIZE_def)

lemma key_store_accepted_fields:
  assumes "length buf \<in> {16, 24, 32}"
  shows "fst (key_store st buf) = Inr (length buf)"
    and "crypto_key (snd (key_store st buf)) = snprintf_key (crypto_key st) (min (length buf) (KEY_SIZE - 1)) buf"
    and "unat (key_size (snd (key_store st buf))) = length buf"
  using assms by (auto simp: key_store_accepted)

lemma key_store_inv:
  assumes "key_inv st"
  shows "key_inv (snd (key_store st buf))"
proof (cases "length buf \<in> {16, 24, 32}")
  case True
  with assms show ?thesis
    by (auto simp: key_store_accepted key_inv_def snprintf_key_length snprintf_key_nul)
next
  case False
  with assms show ?thesis by (auto simp: key_store_def key_inv_def Let_def)
qed

text \<open>A NUL-free 16- or 24-byte key is what the next transfer installs.\<close>

lemma key_store_nul_free_installed:
  assumes "key_inv st" and "length buf \<in> {16, 24}" and "0 \<notin> set buf"
  shows "installed_key (snd (key_store st buf)) = buf" and "key_size (snd (key_store st buf)) \<noteq> 0"
proof -
  from assms(2) have acc: "length buf \<in> {16, 24, 32}" and n: "min (length buf) (KEY_SIZE - 1) = length buf" "length buf < KEY_SIZE"
    by (auto simp: KEY_SIZE_def)
  from assms(1,3) n have "snprintf_key (crypto_key st) (length buf) buf = buf @ 0 # drop (Suc (length buf)) (crypto_key st)"
    by (simp add: snprintf_key_nul_free key_inv_def)
  with n show "installed_key (snd (key_store st buf)) = buf"
    by (simp add: installed_key_def key_store_accepted_fields [OF acc])
  from assms(2) show "key_size (snd (key_store st buf)) \<noteq> 0"
    by (auto simp: key_store_accepted)
qed

section \<open>Properties of the key store\<close>

text \<open>
  C6: A key whose length is not 16, 24 or 32 bytes is rejected by \<open>key_store\<close> with
  \<open>EINVAL\<close>, and the stored key and its length stay as they were.
\<close>

lemma key_store_rejects_invalid_length:
  assumes "length buf \<notin> {16, 24, 32}"
  shows "fst (key_store st buf) = Inl EINVAL \<and> crypto_key (snd (key_store st buf)) = crypto_key st \<and>
         key_size (snd (key_store st buf)) = key_size st"
  using assms by (auto simp: key_store_def Let_def)

lemma key_store_rejects_invalid_length_witness:
  "fst (key_store key_state_init (replicate 8 7)) = Inl EINVAL \<and>
   crypto_key (snd (key_store key_state_init (replicate 8 7))) = crypto_key key_state_init \<and>
   key_size (snd (key_store key_state_init (replicate 8 7))) = key_size key_state_init"
  using key_store_rejects_invalid_length [of "replicate 8 7" key_state_init] by simp

text \<open>
  C7: Both sysfs handlers, \<open>key_store\<close> and \<open>key_display\<close>, keep the key-store invariant: the array keeps its 32 bytes and
  a NUL byte, and the key length stays in {0, 16, 24, 32}.
\<close>

lemma key_store_preserves_inv:
  assumes "key_inv st"
  shows "key_inv (snd (key_store st buf)) \<and> key_inv (snd (key_display st))"
  using assms key_store_inv [OF assms] by (simp add: key_inv_def)

text \<open>
  C8: A NUL-free 16- or 24-byte key is stored whole: the first \<open>key_size\<close> bytes of
  the array, which every transfer installs in the cipher, are the key written.
\<close>

lemma key_store_installs_key:
  assumes "key_inv st" and "length buf \<in> {16, 24}" and "0 \<notin> set buf"
  shows "take (unat (key_size (snd (key_store st buf)))) (crypto_key (snd (key_store st buf))) = buf"
  using key_store_nul_free_installed (1) [OF assms] by (simp add: installed_key_def)

text \<open>
  C9: A NUL-free 32-byte key is not stored whole: \<open>snprintf\<close> keeps 31 of its
  bytes and a NUL, so the 256-bit key the cipher receives ends in a zero byte and
  differs from the key written.
\<close>

lemma key_store_truncates_32_byte_key:
  assumes "key_inv st" and "length buf = 32" and "0 \<notin> set buf"
  shows "take (unat (key_size (snd (key_store st buf)))) (crypto_key (snd (key_store st buf))) = take 31 buf @ [0]
         \<and> take (unat (key_size (snd (key_store st buf)))) (crypto_key (snd (key_store st buf))) \<noteq> buf"
proof -
  from assms(2) have acc: "length buf \<in> {16, 24, 32}" by simp
  from assms(1,2,3) have k: "snprintf_key (crypto_key st) 31 buf = take 31 buf @ 0 # drop 32 (crypto_key st)"
    by (simp add: snprintf_key_nul_free key_inv_def KEY_SIZE_def)
  from assms(1) have "drop 32 (crypto_key st) = []" by (simp add: key_inv_def KEY_SIZE_def)
  with k have k': "snprintf_key (crypto_key st) 31 buf = take 31 buf @ [0]" by simp
  have ne: "take 31 buf @ [0] \<noteq> buf"
  proof
    assume eq: "take 31 buf @ [0] = buf"
    have "buf ! 31 = (take 31 buf @ [0]) ! 31" by (simp add: eq)
    also have "\<dots> = 0" using assms(2) by (simp add: nth_append)
    finally have "buf ! 31 = 0" .
    moreover have "buf ! 31 \<in> set buf" using assms(2) by simp
    ultimately show False using assms(3) by simp
  qed
  from assms(2) k' ne show ?thesis
    by (simp add: key_store_accepted_fields [OF acc] KEY_SIZE_def)
qed

text \<open>
  C10: A key with a NUL byte inside is cut at the NUL, and the bytes behind it are
  those of the previous key: the installed key mixes the new key and the old one.
\<close>

lemma key_store_keeps_stale_bytes:
  assumes "key_inv st" and "length (pre @ 0 # post) \<in> {16, 24, 32}" and "0 \<notin> set pre"
  shows "crypto_key (snd (key_store st (pre @ 0 # post))) = pre @ 0 # drop (Suc (length pre)) (crypto_key st)"
proof -
  from assms(2) have "length pre \<le> min (length (pre @ 0 # post)) (KEY_SIZE - 1)"
    and "min (length (pre @ 0 # post)) (KEY_SIZE - 1) < KEY_SIZE"
    by (auto simp: KEY_SIZE_def)
  with assms show ?thesis
    by (simp add: key_store_accepted_fields(2) [OF assms(2)] snprintf_key_split key_inv_def)
qed

lemma key_store_keeps_stale_bytes_witness:
  "crypto_key (snd (key_store (key_state_init\<lparr>crypto_key := replicate 31 9 @ [0], key_size := 16\<rparr>)
                              ([1, 0] @ replicate 14 1)))
   = [1, 0] @ replicate 29 9 @ [0]"
proof -
  have "key_inv (key_state_init\<lparr>crypto_key := replicate 31 9 @ [0], key_size := 16\<rparr>)"
    by (simp add: key_inv_def key_state_init_def KEY_SIZE_def)
  from key_store_keeps_stale_bytes [OF this, of "[1]" "replicate 14 1"] show ?thesis
    by (simp add: numeral_eq_Suc)
qed

text \<open>
  C11: Under the invariant \<open>key_display\<close> never reads past the key array: it shows the
  key up to its first NUL byte, followed by a newline.
\<close>

lemma key_display_shows_key:
  assumes "key_inv st"
  shows "fst (key_display st) = Inr (takeWhile (\<lambda>b. b \<noteq> 0) (crypto_key st) @ [10])"
proof -
  have "length (takeWhile (\<lambda>b. b \<noteq> 0) (crypto_key st)) \<le> length (crypto_key st)"
    by (rule length_takeWhile_le)
  with assms show ?thesis
    by (simp add: key_display_def Let_def key_inv_def KEY_SIZE_def PAGE_SIZE_def)
qed

text \<open>
  C12: Reading the key back after storing a NUL-free 16- or 24-byte key shows exactly
  that key, followed by a newline.
\<close>

lemma key_store_display_roundtrip:
  assumes "key_inv st" and "length buf \<in> {16, 24}" and "0 \<notin> set buf"
  shows "fst (key_display (snd (key_store st buf))) = Inr (buf @ [10])"
proof -
  from assms(2) have acc: "length buf \<in> {16, 24, 32}" and n: "min (length buf) (KEY_SIZE - 1) = length buf" "length buf < KEY_SIZE"
    by (auto simp: KEY_SIZE_def)
  from assms(1,3) n have k: "crypto_key (snd (key_store st buf)) = buf @ 0 # drop (Suc (length buf)) (crypto_key st)"
    by (simp add: key_store_accepted_fields(2) [OF acc] snprintf_key_nul_free key_inv_def)
  from assms(3) have "\<forall>x\<in>set buf. x \<noteq> 0" by auto
  then have "takeWhile (\<lambda>b. b \<noteq> 0) (buf @ 0 # drop (Suc (length buf)) (crypto_key st)) = buf"
    by (simp add: takeWhile_append2)
  with k n show ?thesis
    by (simp add: key_display_def Let_def PAGE_SIZE_def KEY_SIZE_def)
qed


lemma key_store_preserves_inv_witness:
  "key_inv (snd (key_store key_state_init (replicate 16 65))) \<and> key_inv (snd (key_display key_state_init))"
  by (rule key_store_preserves_inv [OF key_inv_init])

lemma key_store_installs_key_witness:
  "take (unat (key_size (snd (key_store key_state_init (replicate 16 65)))))
     (crypto_key (snd (key_store key_state_init (replicate 16 65)))) = replicate 16 65"
  using key_store_installs_key [OF key_inv_init, of "replicate 16 65"] by simp

lemma key_store_truncates_32_byte_key_witness:
  "take (unat (key_size (snd (key_store key_state_init (replicate 32 65)))))
     (crypto_key (snd (key_store key_state_init (replicate 32 65)))) = replicate 31 65 @ [0]"
  using key_store_truncates_32_byte_key [OF key_inv_init, of "replicate 32 65"] by simp

lemma key_display_shows_key_witness:
  "fst (key_display key_state_init) = Inr [10]"
  using key_display_shows_key [OF key_inv_init] by (simp add: key_state_init_def KEY_SIZE_def)

lemma key_store_display_roundtrip_witness:
  "fst (key_display (snd (key_store key_state_init (replicate 24 66)))) = Inr (replicate 24 66 @ [10])"
  using key_store_display_roundtrip [OF key_inv_init, of "replicate 24 66"] by simp

end
