(* ===== verification/TransferEngine.thy ===== *)
theory TransferEngine
  imports BlockLoop KeyStore
begin

text \<open>
  The transfer engine \<open>sbd_transfer\<close> (\<open>ramdisk.c\<close> lines 106-157) and the state
  it works on.  The module parameters are the record \<open>sbd_params\<close>, the device
  \<open>struct sbd_device\<close> the record \<open>sbd_device\<close> (its spin lock is not a field:
  every operation of the model is one atomic step, which is what holding the lock
  gives), and the driver's global state \<open>sbd_state\<close> extends the key store with the
  device and the cipher handle \<open>tfm\<close>.
  The two block loops of lines 133-136 and 147-150 are \<open>cipher_loop\<close> of the
  theory \<open>BlockLoop\<close>, instantiated with the encrypting and the decrypting block
  function.
\<close>

record sbd_params =
  logical_block_size :: c_int
  nsectors :: c_int

record sbd_device =
  dev_size :: u64
  dev_data :: bytes

record sbd_state = key_state +
  Device :: sbd_device
  tfm :: crypto_tfm

text \<open>Lines 113-118: with a key set, the key is installed in the cipher on every call.\<close>

definition sbd_install_key :: "'a sbd_state_scheme \<Rightarrow> 'a sbd_state_scheme" where
  "sbd_install_key st =
     (if key_size st = 0 then printk st Msg_no_key_set
      else st\<lparr>tfm := snd (crypto_cipher_setkey (crypto_cipher_clear_flags (tfm st) (NOT 0))
                                             (crypto_key st) (unat (key_size st)))\<rparr>)"

definition set_dev_data :: "'a sbd_state_scheme \<Rightarrow> bytes \<Rightarrow> 'a sbd_state_scheme" where
  "set_dev_data st d = st\<lparr>Device := (Device st)\<lparr>dev_data := d\<rparr>\<rparr>"

text \<open>
  The result is \<open>None\<close> when the transfer does not return, \<open>Some (Inl Mem_fault)\<close>
  when it touches memory outside the device buffer or the caller's buffer, and
  otherwise the new state and the new contents of the caller's buffer.
\<close>

definition sbd_transfer ::
  "cipher \<Rightarrow> sbd_params \<Rightarrow> 'a sbd_state_scheme \<Rightarrow> u64 \<Rightarrow> u64 \<Rightarrow> bytes \<Rightarrow> bool \<Rightarrow>
   (fault + 'a sbd_state_scheme \<times> bytes) option" where
  "sbd_transfer c p st sector nsect buffer write =
     (let offset = sector * scast (logical_block_size p);
          nbytes = nsect * scast (logical_block_size p);
          st1 = sbd_install_key st;
          dev = Device st1
      in if dev_size dev < offset + nbytes
         then Some (Inr (printk st1 (Msg_beyond_end offset nbytes), buffer))
         else if write then
           (if key_size st1 \<noteq> 0 then
              map_option (map_sum id (\<lambda>d. (set_dev_data st1 d, buffer)))
                (cipher_loop (crypto_cipher_encrypt_one c (tfm st1))
                   (crypto_cipher_blocksize (tfm st1)) nbytes 0 (dev_data dev) (unat offset) buffer 0)
            else
              Some (map_sum id (\<lambda>d. (set_dev_data st1 d, buffer))
                (memcpy (dev_data dev) (uint offset) buffer 0 (unat nbytes))))
         else
           (if key_size st1 \<noteq> 0 then
              map_option (map_sum id (\<lambda>b. (st1, b)))
                (cipher_loop (crypto_cipher_decrypt_one c (tfm st1))
                   (crypto_cipher_blocksize (tfm st1)) nbytes 0 buffer 0 (dev_data dev) (unat offset))
            else
              Some (map_sum id (\<lambda>b. (st1, b))
                (memcpy buffer 0 (dev_data dev) (uint offset) (unat nbytes)))))"

text \<open>
  Well-formedness of the driver state: the key store invariant, and a device
  buffer of \<open>dev_size\<close> bytes (\<open>vmalloc(Device.size)\<close> in \<open>sbd_init\<close>).
\<close>

definition sbd_wf :: "'a sbd_state_scheme \<Rightarrow> bool" where
  "sbd_wf st \<longleftrightarrow> key_inv st \<and> length (dev_data (Device st)) = unat (dev_size (Device st))"

text \<open>
  The contract of a transfer of \<open>n\<close> bytes at byte offset \<open>off\<close>, on the device
  buffer and the caller's buffer: a write stores the caller's bytes in the range,
  encrypted block by block under the installed key when there is one; a read fills
  the front of the caller's buffer with the range, decrypted likewise.
\<close>

definition transfer_spec ::
  "cipher \<Rightarrow> bytes \<Rightarrow> nat \<Rightarrow> nat \<Rightarrow> bytes \<Rightarrow> bytes \<Rightarrow> bool \<Rightarrow> bytes \<times> bytes" where
  "transfer_spec c key off n data buffer write =
     (if write
      then (blit data off (if key = [] then take n buffer else ecb (cia_encrypt c key) (take n buffer)),
            buffer)
      else (data,
            blit buffer 0 (if key = [] then take n (drop off data)
                           else ecb (cia_decrypt c key) (take n (drop off data)))))"

text \<open>
  The module's default parameters (lines 28-31), and small configurations on which
  the witnesses of the theorems below are evaluated: a device of 400 bytes with a
  16-byte key installed, and sector sizes of 16 and 100 bytes.
\<close>

definition sbd_default_params :: sbd_params where
  "sbd_default_params = \<lparr>logical_block_size = 512, nsectors = 1024\<rparr>"

definition ex_params16 :: sbd_params where
  "ex_params16 = \<lparr>logical_block_size = 16, nsectors = 25\<rparr>"

definition ex_params100 :: sbd_params where
  "ex_params100 = \<lparr>logical_block_size = 100, nsectors = 4\<rparr>"

definition ex_state :: sbd_state where
  "ex_state =
     \<lparr>klog = [], crypto_key = replicate 16 7 @ replicate 16 0, key_size = 16,
      Device = \<lparr>dev_size = 400, dev_data = replicate 400 0\<rparr>,
      tfm = \<lparr>crt_flags = 0, crt_key = []\<rparr>\<rparr>"

section \<open>Lemmas on the transfer\<close>

lemma sbd_install_key_fields [simp]:
  "Device (sbd_install_key st) = Device st"
  "crypto_key (sbd_install_key st) = crypto_key st"
  "key_size (sbd_install_key st) = key_size st"
  by (simp_all add: sbd_install_key_def printk_def)

lemma installed_key_Nil_iff:
  "key_inv st \<Longrightarrow> (installed_key st = []) = (key_size st = 0)"
  by (auto simp: key_inv_def installed_key_def KEY_SIZE_def)

lemma sbd_install_key_tfm:
  assumes "key_inv st" and "key_size st \<noteq> 0"
  shows "crt_key (tfm (sbd_install_key st)) = installed_key st"
proof -
  from assms have "unat (key_size st) \<in> {16, 24, 32}"
    by (auto simp: key_inv_def)
  with assms(2) show ?thesis
    by (auto simp: sbd_install_key_def crypto_cipher_setkey_def crypto_cipher_clear_flags_def
                   installed_key_def)
qed

lemma set_dev_data_same [simp]: "set_dev_data st (dev_data (Device st)) = st"
  by (simp add: set_dev_data_def)

lemma set_dev_data_fields [simp]:
  "dev_data (Device (set_dev_data st d)) = d"
  "dev_size (Device (set_dev_data st d)) = dev_size (Device st)"
  "crypto_key (set_dev_data st d) = crypto_key st"
  "key_size (set_dev_data st d) = key_size st"
  "tfm (set_dev_data st d) = tfm st"
  by (simp_all add: set_dev_data_def)

lemma in_range_no_wrap:
  assumes "unat a + unat b \<le> unat (s :: u64)"
  shows "\<not> s < a + b" and "unat (a + b) = unat a + unat b"
proof -
  have "unat s < 2 ^ 64" using unsigned_less [of s] by simp
  with assms have "unat a + unat b < 2 ^ 64" by simp
  then show u: "unat (a + b) = unat a + unat b" by (simp add: unat_add_lem [THEN iffD1])
  with assms show "\<not> s < a + b" by (simp add: word_less_nat_alt)
qed

lemma sbd_transfer_in_range:
  assumes "unat (sector * scast (logical_block_size p)) + unat (nsect * scast (logical_block_size p))
             \<le> unat (dev_size (Device st))"
  shows "sbd_transfer c p st sector nsect buffer write =
    (let offset = sector * scast (logical_block_size p);
         nbytes = nsect * scast (logical_block_size p);
         st1 = sbd_install_key st;
         dev = Device st1
      in if write then
           (if key_size st1 \<noteq> 0 then
              map_option (map_sum id (\<lambda>d. (set_dev_data st1 d, buffer)))
                (cipher_loop (crypto_cipher_encrypt_one c (tfm st1))
                   (crypto_cipher_blocksize (tfm st1)) nbytes 0 (dev_data dev) (unat offset) buffer 0)
            else
              Some (map_sum id (\<lambda>d. (set_dev_data st1 d, buffer))
                (memcpy (dev_data dev) (uint offset) buffer 0 (unat nbytes))))
         else
           (if key_size st1 \<noteq> 0 then
              map_option (map_sum id (\<lambda>b. (st1, b)))
                (cipher_loop (crypto_cipher_decrypt_one c (tfm st1))
                   (crypto_cipher_blocksize (tfm st1)) nbytes 0 buffer 0 (dev_data dev) (unat offset))
            else
              Some (map_sum id (\<lambda>b. (st1, b))
                (memcpy buffer 0 (dev_data dev) (uint offset) (unat nbytes)))))"
  using in_range_no_wrap(1) [OF assms] by (simp add: sbd_transfer_def Let_def)


lemma set_dev_data_unchanged [simp]: "d = dev_data (Device st) \<Longrightarrow> set_dev_data st d = st"
  by (simp add: set_dev_data_def)

lemma crypt_one_install_key:
  assumes "key_inv st" and "key_size st \<noteq> 0"
  shows "crypto_cipher_encrypt_one c (tfm (sbd_install_key st)) = cipher_one (cia_encrypt c (installed_key st))"
    and "crypto_cipher_decrypt_one c (tfm (sbd_install_key st)) = cipher_one (cia_decrypt c (installed_key st))"
    and "crypto_cipher_blocksize (tfm (sbd_install_key st)) = AES_BLOCK_SIZE"
  using sbd_install_key_tfm [OF assms]
  by (simp_all add: crypto_cipher_encrypt_one_def crypto_cipher_decrypt_one_def crypto_cipher_blocksize_def)

lemma cipher_loop_ecb_0:
  assumes "block_preserving f" and "AES_BLOCK_SIZE dvd unat nbytes" and "unat nbytes < 2 ^ 31"
    and "soff + unat nbytes \<le> length src" and "doff + unat nbytes \<le> length dst"
  shows "cipher_loop (cipher_one f) AES_BLOCK_SIZE nbytes 0 dst doff src soff =
           Some (Inr (blit dst doff (ecb f (take (unat nbytes) (drop soff src)))))"
  using cipher_loop_ecb [OF assms(1-4), of 0 doff dst] assms(5) by simp

lemma memcpy_at_word:
  assumes "unat a + unat n \<le> length m" and "unat n \<le> length b"
  shows "memcpy m (uint a) b 0 (unat n) = Inr (blit m (unat a) (take (unat n) b))"
    and "memcpy b 0 m (uint a) (unat n) = Inr (blit b 0 (take (unat n) (drop (unat a) m)))"
proof -
  from assms(1) have "int (unat a + unat n) \<le> int (length m)"
    by (simp only: of_nat_le_iff)
  then have "uint a + uint n \<le> int (length m)" by simp
  moreover from assms(2) have "uint n \<le> int (length b)"
    by (metis of_nat_le_iff uint_nat)
  ultimately show "memcpy m (uint a) b 0 (unat n) = Inr (blit m (unat a) (take (unat n) b))"
    and "memcpy b 0 m (uint a) (unat n) = Inr (blit b 0 (take (unat n) (drop (unat a) m)))"
    using assms by (simp_all add: memcpy_def mem_read_def mem_write_def)
qed

lemma sbd_transfer_in_range_spec:
  assumes wf: "sbd_wf st" and c: "cipher_ok c"
    and range: "unat (sector * scast (logical_block_size p)) + unat (nsect * scast (logical_block_size p))
                  \<le> unat (dev_size (Device st))"
    and buf: "unat (nsect * scast (logical_block_size p)) \<le> length buffer"
    and aligned: "key_size st \<noteq> 0 \<Longrightarrow>
                    AES_BLOCK_SIZE dvd unat (nsect * scast (logical_block_size p)) \<and>
                    unat (nsect * scast (logical_block_size p)) < 2 ^ 31"
  shows "sbd_transfer c p st sector nsect buffer write =
           Some (Inr (set_dev_data (sbd_install_key st)
                        (fst (transfer_spec c (installed_key st) (unat (sector * scast (logical_block_size p)))
                                (unat (nsect * scast (logical_block_size p))) (dev_data (Device st)) buffer write)),
                      snd (transfer_spec c (installed_key st) (unat (sector * scast (logical_block_size p)))
                                (unat (nsect * scast (logical_block_size p))) (dev_data (Device st)) buffer write)))"
proof -
  have ki: "key_inv st" and len: "length (dev_data (Device st)) = unat (dev_size (Device st))"
    using wf by (simp_all add: sbd_wf_def)
  note tr = sbd_transfer_in_range [OF range]
  show ?thesis
  proof (cases "key_size st = 0")
    case True
    with ki have "installed_key st = []" by (simp add: installed_key_Nil_iff)
    with True range buf len show ?thesis
      by (cases "write") (simp_all add: tr Let_def memcpy_at_word transfer_spec_def)
  next
    case False
    from aligned [OF False] have al: "AES_BLOCK_SIZE dvd unat (nsect * scast (logical_block_size p))"
      "unat (nsect * scast (logical_block_size p)) < 2 ^ 31" by simp_all
    from ki False have kne: "installed_key st \<noteq> []" by (simp add: installed_key_Nil_iff)
    from c have f: "block_preserving (cia_encrypt c (installed_key st))"
      "block_preserving (cia_decrypt c (installed_key st))"
      by (simp_all add: cipher_ok_block_preserving)
    note ops = crypt_one_install_key [OF ki False]
    show ?thesis
    proof (cases "write")
      case True
      with False kne range buf len show ?thesis
        by (simp add: tr Let_def ops transfer_spec_def cipher_loop_ecb_0 [OF f(1) al])
    next
      case False': False
      with False kne range buf len show ?thesis
        by (simp add: tr Let_def ops transfer_spec_def cipher_loop_ecb_0 [OF f(2) al])
    qed
  qed
qed


lemma sbd_wf_after_write:
  assumes "sbd_wf st" and "length d = length (dev_data (Device st))"
  shows "sbd_wf (set_dev_data (sbd_install_key st) d)"
  using assms by (simp add: sbd_wf_def key_inv_def)

lemma installed_key_after_write [simp]:
  "installed_key (set_dev_data (sbd_install_key st) d) = installed_key st"
  by (simp add: installed_key_def)

lemma transfer_image_length:
  assumes "cipher_ok c" and "n \<le> length buffer" and "key \<noteq> [] \<Longrightarrow> AES_BLOCK_SIZE dvd n"
  shows "length (if key = [] then take n buffer else ecb (cia_encrypt c key) (take n buffer)) = n"
  using assms ecb_length [of "cia_encrypt c key" "take n buffer"]
  by (auto simp: cipher_ok_block_preserving min_def)

lemma transfer_loops_terminate:
  "\<exists>r. cipher_loop (crypto_cipher_encrypt_one c t) (crypto_cipher_blocksize t) n 0 d off b 0 = Some r"
  "\<exists>r. cipher_loop (crypto_cipher_decrypt_one c t) (crypto_cipher_blocksize t) n 0 b 0 d off = Some r"
  by (simp_all add: crypto_cipher_encrypt_one_def crypto_cipher_decrypt_one_def
                    crypto_cipher_blocksize_def cipher_loop_terminates)

lemma ex_state_wf: "sbd_wf ex_state" "sbd_wf (ex_state\<lparr>key_size := 0\<rparr>)"
  by (simp_all add: sbd_wf_def key_inv_def ex_state_def KEY_SIZE_def)

lemma sbd_transfer_not_None: "sbd_transfer c p st sector nsect buffer write \<noteq> None"
  using transfer_loops_terminate by (simp add: sbd_transfer_def Let_def)

lemma sbd_transfer_shape:
  assumes "sbd_transfer c p st sector nsect buffer write = Some (Inr (st', b'))"
  shows "dev_size (Device st') = dev_size (Device st) \<and>
         length (dev_data (Device st')) = length (dev_data (Device st)) \<and>
         length b' = length buffer \<and> sbd_state.more st' = sbd_state.more st \<and>
         crypto_key st' = crypto_key st \<and> key_size st' = key_size st"
  using assms
  by (auto simp: sbd_transfer_def Let_def crypto_cipher_encrypt_one_def crypto_cipher_decrypt_one_def
                 set_dev_data_def sbd_install_key_def printk_def
           split: if_splits option.splits sum.splits
           dest: cipher_loop_length memcpy_length)



section \<open>Properties of the transfer engine\<close>

text \<open>
  C2: An in-range transfer refines its contract \<open>transfer_spec\<close>: a write stores the
  caller's bytes in the byte range of the request, encrypted block by block (ECB) under
  the installed key when a key is set and copied raw otherwise; a read fills the
  caller's buffer with the range, decrypted likewise.  The device size and the key
  are unchanged.
\<close>

theorem sbd_transfer_refines_spec:
  assumes wf: "sbd_wf st" and c: "cipher_ok c"
    and range: "unat (sector * scast (logical_block_size p)) + unat (nsect * scast (logical_block_size p))
                  \<le> unat (dev_size (Device st))"
    and buf: "unat (nsect * scast (logical_block_size p)) \<le> length buffer"
    and aligned: "key_size st \<noteq> 0 \<Longrightarrow>
                    AES_BLOCK_SIZE dvd unat (nsect * scast (logical_block_size p)) \<and>
                    unat (nsect * scast (logical_block_size p)) < 2 ^ 31"
  shows "\<exists>st'. sbd_transfer c p st sector nsect buffer write =
                  Some (Inr (st', snd (transfer_spec c (installed_key st)
                                     (unat (sector * scast (logical_block_size p)))
                                     (unat (nsect * scast (logical_block_size p)))
                                     (dev_data (Device st)) buffer write))) \<and>
               dev_data (Device st') = fst (transfer_spec c (installed_key st)
                                     (unat (sector * scast (logical_block_size p)))
                                     (unat (nsect * scast (logical_block_size p)))
                                     (dev_data (Device st)) buffer write) \<and>
               dev_size (Device st') = dev_size (Device st) \<and>
               crypto_key st' = crypto_key st \<and> key_size st' = key_size st"
  using sbd_transfer_in_range_spec [OF assms] by simp

text \<open>
  C1: Writing a buffer to a range and reading the same range back, with the same key
  state, returns the bytes written, with or without a key; both transfers succeed.
\<close>

theorem sbd_transfer_write_read_roundtrip:
  assumes wf: "sbd_wf st" and c: "cipher_ok c"
    and range: "unat (sector * scast (logical_block_size p)) + unat (nsect * scast (logical_block_size p))
                  \<le> unat (dev_size (Device st))"
    and buf: "unat (nsect * scast (logical_block_size p)) \<le> length buffer"
    and buf2: "unat (nsect * scast (logical_block_size p)) \<le> length buffer2"
    and aligned: "key_size st \<noteq> 0 \<Longrightarrow>
                    AES_BLOCK_SIZE dvd unat (nsect * scast (logical_block_size p)) \<and>
                    unat (nsect * scast (logical_block_size p)) < 2 ^ 31"
  shows "\<exists>st1 st2 b2.
           sbd_transfer c p st sector nsect buffer True = Some (Inr (st1, buffer)) \<and>
           sbd_transfer c p st1 sector nsect buffer2 False = Some (Inr (st2, b2)) \<and>
           take (unat (nsect * scast (logical_block_size p))) b2 =
             take (unat (nsect * scast (logical_block_size p))) buffer"
proof -
  let ?off = "unat (sector * scast (logical_block_size p))"
  let ?n = "unat (nsect * scast (logical_block_size p))"
  define k where "k = installed_key st"
  define T where "T = (if k = [] then take ?n buffer else ecb (cia_encrypt c k) (take ?n buffer))"
  let ?st1 = "set_dev_data (sbd_install_key st) (blit (dev_data (Device st)) ?off T)"
  have ki: "key_inv st" and len: "length (dev_data (Device st)) = unat (dev_size (Device st))"
    using wf by (simp_all add: sbd_wf_def)
  have kal: "k \<noteq> [] \<Longrightarrow> AES_BLOCK_SIZE dvd ?n"
    using aligned ki by (simp add: installed_key_Nil_iff k_def)
  have Tlen: "length T = ?n"
    unfolding T_def using transfer_image_length [OF c buf kal] .
  have w: "sbd_transfer c p st sector nsect buffer True = Some (Inr (?st1, buffer))"
    using sbd_transfer_in_range_spec [OF wf c range buf aligned, of True]
    by (simp add: transfer_spec_def T_def k_def)
  have wf1: "sbd_wf ?st1"
    using sbd_wf_after_write [OF wf] Tlen range len by simp
  have range1: "?off + ?n \<le> unat (dev_size (Device ?st1))" using range by simp
  have aligned1: "key_size ?st1 \<noteq> 0 \<Longrightarrow> AES_BLOCK_SIZE dvd ?n \<and> ?n < 2 ^ 31"
    using aligned by simp
  have readback: "take ?n (drop ?off (blit (dev_data (Device st)) ?off T)) = T"
    using take_drop_blit [of ?off T "dev_data (Device st)"] Tlen range len by simp
  have dec: "k = [] \<Longrightarrow> T = take ?n buffer" "k \<noteq> [] \<Longrightarrow> ecb (cia_decrypt c k) T = take ?n buffer"
    using ecb_decrypt_encrypt [OF c, of "take ?n buffer" k] kal buf by (auto simp: min_def T_def)
  have r0: "sbd_transfer c p ?st1 sector nsect buffer2 False =
              Some (Inr (sbd_install_key ?st1,
                         blit buffer2 0 (if k = [] then T else ecb (cia_decrypt c k) T)))"
    using sbd_transfer_in_range_spec [OF wf1 c range1 buf2 aligned1, of False]
    by (simp add: transfer_spec_def readback k_def [symmetric])
  have "(if k = [] then T else ecb (cia_decrypt c k) T) = take ?n buffer"
    using dec by simp
  with r0 have r: "sbd_transfer c p ?st1 sector nsect buffer2 False =
                  Some (Inr (sbd_install_key ?st1, blit buffer2 0 (take ?n buffer)))"
    by simp
  have "take ?n (blit buffer2 0 (take ?n buffer)) = take ?n buffer"
    using take_drop_blit [of 0 "take ?n buffer" buffer2] buf buf2 by simp
  with w r show ?thesis by blast
qed


text \<open>
  C4: A successful write changes no byte of the device buffer outside the byte range
  of the request, and keeps the buffer's length.
\<close>

theorem sbd_transfer_write_frame:
  assumes wf: "sbd_wf st" and c: "cipher_ok c"
    and range: "unat (sector * scast (logical_block_size p)) + unat (nsect * scast (logical_block_size p))
                  \<le> unat (dev_size (Device st))"
    and buf: "unat (nsect * scast (logical_block_size p)) \<le> length buffer"
    and aligned: "key_size st \<noteq> 0 \<Longrightarrow>
                    AES_BLOCK_SIZE dvd unat (nsect * scast (logical_block_size p)) \<and>
                    unat (nsect * scast (logical_block_size p)) < 2 ^ 31"
  shows "\<exists>st'. sbd_transfer c p st sector nsect buffer True = Some (Inr (st', buffer)) \<and>
           length (dev_data (Device st')) = length (dev_data (Device st)) \<and>
           (\<forall>i < length (dev_data (Device st)).
              i < unat (sector * scast (logical_block_size p)) \<or>
              unat (sector * scast (logical_block_size p)) + unat (nsect * scast (logical_block_size p)) \<le> i
              \<longrightarrow> dev_data (Device st') ! i = dev_data (Device st) ! i)"
proof -
  let ?off = "unat (sector * scast (logical_block_size p))"
  let ?n = "unat (nsect * scast (logical_block_size p))"
  define k where "k = installed_key st"
  define T where "T = (if k = [] then take ?n buffer else ecb (cia_encrypt c k) (take ?n buffer))"
  have ki: "key_inv st" and len: "length (dev_data (Device st)) = unat (dev_size (Device st))"
    using wf by (simp_all add: sbd_wf_def)
  have kal: "k \<noteq> [] \<Longrightarrow> AES_BLOCK_SIZE dvd ?n"
    using aligned ki by (simp add: installed_key_Nil_iff k_def)
  have Tlen: "length T = ?n"
    unfolding T_def using transfer_image_length [OF c buf kal] .
  have w: "sbd_transfer c p st sector nsect buffer True =
             Some (Inr (set_dev_data (sbd_install_key st) (blit (dev_data (Device st)) ?off T), buffer))"
    using sbd_transfer_in_range_spec [OF wf c range buf aligned, of True]
    by (simp add: transfer_spec_def T_def k_def)
  have fit: "?off + length T \<le> length (dev_data (Device st))" using Tlen range len by simp
  show ?thesis
    using w blit_nth [OF fit] blit_length [OF fit] Tlen by auto
qed

text \<open>
  C3: A request whose end lies beyond the device (as the 64-bit sum computes it) is
  not performed: device buffer and caller buffer are unchanged, and the only trace
  is the "Beyond-end write" log message.
\<close>

theorem sbd_transfer_beyond_end:
  assumes "dev_size (Device st) < sector * scast (logical_block_size p) + nsect * scast (logical_block_size p)"
  shows "\<exists>st'. sbd_transfer c p st sector nsect buffer write = Some (Inr (st', buffer)) \<and>
           Device st' = Device st \<and>
           klog st' = klog (sbd_install_key st) @
             [Msg_beyond_end (sector * scast (logical_block_size p)) (nsect * scast (logical_block_size p))]"
  using assms by (simp add: sbd_transfer_def Let_def printk_def)

text \<open>
  C5: Every call of \<open>sbd_transfer\<close> returns, whatever its arguments: the block loops
  end although their \<open>int\<close> index may wrap around.
\<close>

theorem sbd_transfer_terminates:
  "\<exists>r. sbd_transfer c p st sector nsect buffer write = Some r"
  by (simp add: sbd_transfer_def Let_def transfer_loops_terminate)


text \<open>
  C13: The bounds check is defeated by wrap-around: when the byte offset plus the
  length overflows 64 bits and the wrapped sum lies within the device, the check
  passes and the copy runs outside the device buffer.
\<close>

theorem sbd_transfer_wrapped_range_faults:
  assumes wf: "sbd_wf st" and nokey: "key_size st = 0"
    and wrap: "2 ^ 64 \<le> unat (sector * scast (logical_block_size p)) + unat (nsect * scast (logical_block_size p))"
    and pass: "sector * scast (logical_block_size p) + nsect * scast (logical_block_size p) \<le> dev_size (Device st)"
    and buf: "unat (nsect * scast (logical_block_size p)) \<le> length buffer"
  shows "sbd_transfer c p st sector nsect buffer write = Some (Inl Mem_fault)"
proof -
  let ?o = "sector * scast (logical_block_size p)" and ?n = "nsect * scast (logical_block_size p)"
  have len: "length (dev_data (Device st)) < 2 ^ 64"
    using wf unsigned_less [of "dev_size (Device st)"] by (simp add: sbd_wf_def)
  have big: "int (length (dev_data (Device st))) < uint ?o + int (unat ?n)"
  proof -
    have "length (dev_data (Device st)) < unat ?o + unat ?n" using len wrap by linarith
    then have "int (length (dev_data (Device st))) < int (unat ?o + unat ?n)" by (simp only: of_nat_less_iff)
    then show ?thesis by simp
  qed
  have nb: "int (unat ?n) \<le> int (length buffer)" using buf by (simp only: of_nat_le_iff)
  have "length (take (unat ?n) buffer) = unat ?n" using buf by simp
  with big nb nokey pass show ?thesis
    by (cases "write") (auto simp: sbd_transfer_def Let_def memcpy_def mem_read_def mem_write_def not_less)
qed

text \<open>
  C14: With the default 512-byte sectors the byte offset \<open>sector * 512\<close> wraps modulo
  2^64, so sector \<open>2^55 + s\<close> is transferred exactly as sector \<open>s\<close>.
\<close>

theorem sbd_transfer_sector_alias:
  assumes "logical_block_size p = 512"
  shows "sbd_transfer c p st (2 ^ 55 + sector) nsect buffer write = sbd_transfer c p st sector nsect buffer write"
proof -
  have "(2 ^ 55 + sector) * scast (logical_block_size p) = sector * (scast (logical_block_size p) :: u64)"
    using assms by (simp add: distrib_right)
  then show ?thesis by (simp add: sbd_transfer_def)
qed

text \<open>
  C15: With a key set and a transfer length that is not a multiple of the 16-byte
  cipher block (a logical block size such as 100), the block loop overruns the
  caller's buffer by the last partial block: the transfer faults.
\<close>

theorem sbd_transfer_unaligned_faults:
  assumes ki: "key_inv st" and ks: "key_size st \<noteq> 0" and c: "cipher_ok c"
    and range: "unat (sector * scast (logical_block_size p)) + unat (nsect * scast (logical_block_size p))
                  \<le> unat (dev_size (Device st))"
    and n: "\<not> AES_BLOCK_SIZE dvd unat (nsect * scast (logical_block_size p))"
      "unat (nsect * scast (logical_block_size p)) < 2 ^ 31"
    and buf: "length buffer = unat (nsect * scast (logical_block_size p))"
  shows "sbd_transfer c p st sector nsect buffer write = Some (Inl Mem_fault)"
proof -
  from c have f: "block_preserving (cia_encrypt c (installed_key st))"
    "block_preserving (cia_decrypt c (installed_key st))"
    by (simp_all add: cipher_ok_block_preserving)
  note ops = crypt_one_install_key [OF ki ks]
  note loop_e = cipher_loop_unaligned_fault [OF n f(1), where soff = 0 and j = 0, simplified]
  note loop_d = cipher_loop_unaligned_fault [OF n f(2), where doff = 0 and j = 0, simplified]
  show ?thesis
    using ks buf by (cases "write") (simp_all add: sbd_transfer_in_range [OF range] Let_def ops loop_e loop_d)
qed


section \<open>Witnesses\<close>

lemma sbd_transfer_refines_spec_witness:
  "\<exists>st'. sbd_transfer add_cipher ex_params16 ex_state 1 1 (replicate 16 5) True =
                  Some (Inr (st', snd (transfer_spec add_cipher (installed_key ex_state)
                                     (unat (1 * scast (logical_block_size ex_params16) :: u64))
                                     (unat (1 * scast (logical_block_size ex_params16) :: u64))
                                     (dev_data (Device ex_state)) (replicate 16 5) True))) \<and>
               dev_data (Device st') = fst (transfer_spec add_cipher (installed_key ex_state)
                                     (unat (1 * scast (logical_block_size ex_params16) :: u64))
                                     (unat (1 * scast (logical_block_size ex_params16) :: u64))
                                     (dev_data (Device ex_state)) (replicate 16 5) True) \<and>
               dev_size (Device st') = dev_size (Device ex_state) \<and>
               crypto_key st' = crypto_key ex_state \<and> key_size st' = key_size ex_state"
  by (rule sbd_transfer_refines_spec [OF ex_state_wf(1) add_cipher_ok])
     (simp_all add: ex_state_def ex_params16_def AES_BLOCK_SIZE_def)

lemma sbd_transfer_write_read_roundtrip_witness:
  "\<exists>st1 st2 b2.
     sbd_transfer add_cipher ex_params16 ex_state 1 1 (replicate 16 5) True = Some (Inr (st1, replicate 16 5)) \<and>
     sbd_transfer add_cipher ex_params16 st1 1 1 (replicate 16 0) False = Some (Inr (st2, b2)) \<and>
     take (unat (1 * scast (logical_block_size ex_params16) :: u64)) b2 =
       take (unat (1 * scast (logical_block_size ex_params16) :: u64)) (replicate 16 5)"
  by (rule sbd_transfer_write_read_roundtrip [OF ex_state_wf(1) add_cipher_ok])
     (simp_all add: ex_state_def ex_params16_def AES_BLOCK_SIZE_def)

lemma sbd_transfer_write_frame_witness:
  "\<exists>st'. sbd_transfer add_cipher ex_params16 ex_state 1 1 (replicate 16 5) True = Some (Inr (st', replicate 16 5)) \<and>
     length (dev_data (Device st')) = length (dev_data (Device ex_state)) \<and>
     (\<forall>i < length (dev_data (Device ex_state)).
        i < unat (1 * scast (logical_block_size ex_params16) :: u64) \<or>
        unat (1 * scast (logical_block_size ex_params16) :: u64) + unat (1 * scast (logical_block_size ex_params16) :: u64) \<le> i
        \<longrightarrow> dev_data (Device st') ! i = dev_data (Device ex_state) ! i)"
  by (rule sbd_transfer_write_frame [OF ex_state_wf(1) add_cipher_ok])
     (simp_all add: ex_state_def ex_params16_def AES_BLOCK_SIZE_def)

lemma sbd_transfer_beyond_end_witness:
  "\<exists>st'. sbd_transfer add_cipher ex_params16 ex_state 25 1 (replicate 16 5) True = Some (Inr (st', replicate 16 5)) \<and>
     Device st' = Device ex_state \<and>
     klog st' = klog (sbd_install_key ex_state) @
       [Msg_beyond_end (25 * scast (logical_block_size ex_params16)) (1 * scast (logical_block_size ex_params16))]"
  by (rule sbd_transfer_beyond_end) (simp add: ex_state_def ex_params16_def)

lemma sbd_transfer_wrapped_range_faults_witness:
  "sbd_transfer add_cipher sbd_default_params (ex_state\<lparr>key_size := 0\<rparr>) (2 ^ 55 - 1) 1 (replicate 512 0) True = Some (Inl Mem_fault)"
  by (rule sbd_transfer_wrapped_range_faults [OF ex_state_wf(2)])
     (simp_all add: ex_state_def sbd_default_params_def)

lemma sbd_transfer_sector_alias_witness:
  "sbd_transfer add_cipher sbd_default_params ex_state (2 ^ 55 + 3) 1 (replicate 512 0) False =
   sbd_transfer add_cipher sbd_default_params ex_state 3 1 (replicate 512 0) False"
  by (rule sbd_transfer_sector_alias) (simp add: sbd_default_params_def)

lemma sbd_transfer_unaligned_faults_witness:
  "sbd_transfer add_cipher ex_params100 ex_state 0 1 (replicate 100 5) True = Some (Inl Mem_fault)"
  by (rule sbd_transfer_unaligned_faults [OF _ _ add_cipher_ok])
     (simp_all add: ex_state_def ex_params100_def key_inv_def KEY_SIZE_def AES_BLOCK_SIZE_def)


end
