(* ===== verification/Dispatcher.thy ===== *)
theory Dispatcher
  imports TransferEngine
begin

text \<open>
  The request function \<open>sbd_request\<close> (\<open>ramdisk.c\<close> lines 159-178) and the part of
  the block layer it calls: \<open>blk_fetch_request\<close> pops the head of the queue,
  \<open>__blk_end_request_cur\<close> completes the current segment of a request and says
  whether segments remain, \<open>__blk_end_request_all\<close> completes a whole request with
  an error.  A request is the record \<open>request\<close>: its command type, direction,
  position in 512-byte kernel sectors, and its segments (the current one first,
  \<open>req->buffer\<close>); the segments already completed keep the bytes the driver left in
  them.  The block layer's state extends the driver's with the queue and the list of
  completions reported upstream.  The loop is a \<open>partial_function (option)\<close>:
  \<open>None\<close> is a call that never returns.  As in the source, a request that is not a
  filesystem request is ended with \<open>-EIO\<close> and the loop \<open>continue\<close>s with the same
  request.
\<close>

datatype rq_cmd_type =
    REQ_TYPE_FS
  | REQ_TYPE_BLOCK_PC
  | REQ_TYPE_SENSE
  | REQ_TYPE_PM_SUSPEND
  | REQ_TYPE_PM_RESUME
  | REQ_TYPE_PM_SHUTDOWN
  | REQ_TYPE_SPECIAL
  | REQ_TYPE_ATA_TASKFILE
  | REQ_TYPE_ATA_PC

record request =
  rq_id :: nat
  cmd_type :: rq_cmd_type
  rq_write :: bool
  rq_pos :: u64
  rq_segs :: "bytes list"
  rq_done :: "bytes list"

text \<open>A completion: the request, its error (\<open>None\<close> for status 0), its data segments.\<close>

datatype completion = Completion nat "errno option" "bytes list"

record blk_state = sbd_state +
  queue :: "request list"
  completed :: "completion list"

definition KERNEL_SECTOR_SIZE :: nat where
  "KERNEL_SECTOR_SIZE = 512"

definition blk_fetch_request :: "'a blk_state_scheme \<Rightarrow> request option \<times> 'a blk_state_scheme" where
  "blk_fetch_request st =
     (case queue st of [] \<Rightarrow> (None, st) | r # rs \<Rightarrow> (Some r, st\<lparr>queue := rs\<rparr>))"

definition blk_rq_cur_sectors :: "request \<Rightarrow> u64" where
  "blk_rq_cur_sectors r =
     (case rq_segs r of [] \<Rightarrow> 0 | s # _ \<Rightarrow> of_nat (length s div KERNEL_SECTOR_SIZE))"

definition rq_buffer :: "request \<Rightarrow> bytes" where
  "rq_buffer r = (case rq_segs r of [] \<Rightarrow> [] | s # _ \<Rightarrow> s)"

definition blk_end_request_all ::
  "'a blk_state_scheme \<Rightarrow> request \<Rightarrow> errno \<Rightarrow> 'a blk_state_scheme" where
  "blk_end_request_all st r e =
     st\<lparr>completed := completed st @ [Completion (rq_id r) (Some e) (rq_done r @ rq_segs r)]\<rparr>"

text \<open>
  \<open>__blk_end_request_cur(req, 0)\<close> with \<open>buf\<close> the current segment as the transfer
  left it: the position advances past the segment, and when no segment remains the
  request is completed with status 0.
\<close>

definition blk_end_request_cur ::
  "'a blk_state_scheme \<Rightarrow> request \<Rightarrow> bytes \<Rightarrow> bool \<times> request \<times> 'a blk_state_scheme" where
  "blk_end_request_cur st r buf =
     (case rq_segs r of
        [] \<Rightarrow> (False, r, st\<lparr>completed := completed st @ [Completion (rq_id r) None (rq_done r)]\<rparr>)
      | s # ss \<Rightarrow>
          (let r' = r\<lparr>rq_pos := rq_pos r + of_nat (length s div KERNEL_SECTOR_SIZE),
                      rq_segs := ss, rq_done := rq_done r @ [buf]\<rparr>
           in if ss = [] then (False, r', st\<lparr>completed := completed st @ [Completion (rq_id r) None (rq_done r')]\<rparr>)
              else (True, r', st)))"

partial_function (option) sbd_request_loop ::
  "cipher \<Rightarrow> sbd_params \<Rightarrow> request option \<Rightarrow> 'a blk_state_scheme \<Rightarrow> (fault + 'a blk_state_scheme) option" where
  "sbd_request_loop c p req st =
     (case req of
        None \<Rightarrow> Some (Inr st)
      | Some r \<Rightarrow>
          if cmd_type r \<noteq> REQ_TYPE_FS then
            sbd_request_loop c p (Some r) (blk_end_request_all (printk st Msg_skip_non_cmd) r EIO)
          else
            Option.bind (sbd_transfer c p st (rq_pos r) (blk_rq_cur_sectors r) (rq_buffer r) (rq_write r))
              (\<lambda>res. case res of
                 Inl e \<Rightarrow> Some (Inl e)
               | Inr (st1, buf) \<Rightarrow>
                   (case blk_end_request_cur st1 r buf of
                      (pending, r', st2) \<Rightarrow>
                        if pending then sbd_request_loop c p (Some r') st2
                        else (case blk_fetch_request st2 of
                                (req', st3) \<Rightarrow> sbd_request_loop c p req' st3))))"

definition sbd_request :: "cipher \<Rightarrow> sbd_params \<Rightarrow> 'a blk_state_scheme \<Rightarrow> (fault + 'a blk_state_scheme) option" where
  "sbd_request c p st = (case blk_fetch_request st of (req, st1) \<Rightarrow> sbd_request_loop c p req st1)"

text \<open>Reading a completion: its request and its error.\<close>

fun completion_id :: "completion \<Rightarrow> nat" where
  "completion_id (Completion i _ _) = i"

fun completion_err :: "completion \<Rightarrow> errno option" where
  "completion_err (Completion _ e _) = e"

text \<open>
  The work left to the loop: the segments of the current request and, for each
  queued request, its segments and its fetch.
\<close>

definition pending_work :: "request option \<Rightarrow> 'a blk_state_scheme \<Rightarrow> nat" where
  "pending_work req st =
     (case req of None \<Rightarrow> 0 | Some r \<Rightarrow> Suc (length (rq_segs r))) +
     sum_list (map (\<lambda>r. Suc (length (rq_segs r))) (queue st))"



text \<open>The request loop changes neither the device's size and length nor the key.\<close>

definition blk_frame :: "'a blk_state_scheme \<Rightarrow> 'a blk_state_scheme \<Rightarrow> bool" where
  "blk_frame st st' \<longleftrightarrow>
     dev_size (Device st') = dev_size (Device st) \<and>
     length (dev_data (Device st')) = length (dev_data (Device st)) \<and>
     crypto_key st' = crypto_key st \<and> key_size st' = key_size st"

text \<open>
  Example queues on which the witnesses below are evaluated: the 400-byte device of
  \<open>ex_state\<close> with a 16-byte key (or none), and write requests of one 512-byte
  segment.
\<close>

definition ex_request :: "nat \<Rightarrow> rq_cmd_type \<Rightarrow> u64 \<Rightarrow> request" where
  "ex_request i t pos =
     \<lparr>rq_id = i, cmd_type = t, rq_write = True, rq_pos = pos, rq_segs = [replicate 512 5], rq_done = []\<rparr>"

definition ex_blk_state :: "c_int \<Rightarrow> request list \<Rightarrow> blk_state" where
  "ex_blk_state ks rs =
     \<lparr>klog = [], crypto_key = replicate 16 7 @ replicate 16 0, key_size = ks,
      Device = \<lparr>dev_size = 400, dev_data = replicate 400 0\<rparr>,
      tfm = \<lparr>crt_flags = 0, crt_key = []\<rparr>, queue = rs, completed = []\<rparr>"

section \<open>Lemmas on the request loop\<close>

lemma sbd_install_key_blk_fields [simp]:
  "queue (sbd_install_key st) = queue st" "completed (sbd_install_key st) = completed st"
  by (simp_all add: sbd_install_key_def printk_def)

lemma sbd_transfer_blk_fields:
  assumes "sbd_transfer c p st sector nsect buffer write = Some (Inr (st', b'))"
  shows "queue st' = queue st" and "completed st' = completed st"
  using assms
  by (auto simp: sbd_transfer_def Let_def set_dev_data_def sbd_install_key_def printk_def
           split: if_splits option.splits sum.splits)

lemma blk_end_request_cur_facts:
  assumes "blk_end_request_cur st r buf = (pending, r', st')"
  shows "queue st' = queue st" and "cmd_type r' = cmd_type r" and "rq_id r' = rq_id r"
    and "pending \<Longrightarrow> length (rq_segs r') < length (rq_segs r)"
  using assms by (auto simp: blk_end_request_cur_def Let_def split: list.splits if_splits)

lemma blk_fetch_request_pending_work:
  assumes "blk_fetch_request st = (req, st')"
  shows "sum_list (map (\<lambda>r. Suc (length (rq_segs r))) (queue st)) = pending_work req st'"
  using assms by (auto simp: blk_fetch_request_def pending_work_def split: list.splits)

lemma blk_fetch_request_queue:
  assumes "blk_fetch_request st = (req, st')"
  shows "req = None \<Longrightarrow> queue st' = []"
    and "map f (queue st) = (case req of None \<Rightarrow> [] | Some r \<Rightarrow> [f r]) @ map f (queue st')"
    and "list_all P (queue st) \<longleftrightarrow> pred_option P req \<and> list_all P (queue st')"
    and "completed st' = completed st"
  using assms by (auto simp: blk_fetch_request_def split: list.splits)

lemma sbd_request_loop_fs_returns:
  "pred_option (\<lambda>r. cmd_type r = REQ_TYPE_FS) req \<Longrightarrow> list_all (\<lambda>r. cmd_type r = REQ_TYPE_FS) (queue st) \<Longrightarrow>
   sbd_request_loop c p req st \<noteq> None"
proof (induction "pending_work req st" arbitrary: req st rule: less_induct)
  case less
  show ?case
  proof (cases req)
    case None
    then show ?thesis by (simp add: sbd_request_loop.simps)
  next
    case (Some r)
    with less.prems have fs: "cmd_type r = REQ_TYPE_FS" by simp
    obtain res where tr: "sbd_transfer c p st (rq_pos r) (blk_rq_cur_sectors r) (rq_buffer r) (rq_write r) = Some res"
      using sbd_transfer_not_None by blast
    show ?thesis
    proof (cases res)
      case (Inl e)
      with Some fs tr show ?thesis by (simp add: sbd_request_loop.simps)
    next
      case (Inr x)
      obtain st1 buf where x: "x = (st1, buf)" by fastforce
      with tr Inr have q1: "queue st1 = queue st"
        by (simp add: sbd_transfer_blk_fields)
      obtain pending r' st2 where e: "blk_end_request_cur st1 r buf = (pending, r', st2)"
        by (metis prod_cases3)
      note ef = blk_end_request_cur_facts [OF e]
      show ?thesis
      proof (cases pending)
        case True
        have "pending_work (Some r') st2 < pending_work req st"
          using ef(1,4) True q1 Some by (simp add: pending_work_def)
        moreover have "pred_option (\<lambda>r. cmd_type r = REQ_TYPE_FS) (Some r')"
          using ef(2) fs by simp
        moreover have "list_all (\<lambda>r. cmd_type r = REQ_TYPE_FS) (queue st2)"
          using ef(1) q1 less.prems(2) by simp
        ultimately have "sbd_request_loop c p (Some r') st2 \<noteq> None"
          using less.hyps by blast
        with Some fs tr Inr x e True show ?thesis
          by (simp add: sbd_request_loop.simps [of c p "Some r"])
      next
        case False
        obtain req' st3 where f: "blk_fetch_request st2 = (req', st3)" by fastforce
        note ff = blk_fetch_request_queue [OF f]
        have "pending_work req' st3 < pending_work req st"
          using blk_fetch_request_pending_work [OF f] ef(1) q1 Some by (simp add: pending_work_def)
        moreover have "pred_option (\<lambda>r. cmd_type r = REQ_TYPE_FS) req'"
          and "list_all (\<lambda>r. cmd_type r = REQ_TYPE_FS) (queue st3)"
          using ff(3) [of "\<lambda>r. cmd_type r = REQ_TYPE_FS"] ef(1) q1 less.prems(2) by simp_all
        ultimately have "sbd_request_loop c p req' st3 \<noteq> None"
          using less.hyps by blast
        with Some fs tr Inr x e False f show ?thesis
          by (simp add: sbd_request_loop.simps [of c p "Some r"])
      qed
    qed
  qed
qed

lemma sbd_request_loop_returns_only_fs:
  assumes "sbd_request_loop c p req st = Some y"
  shows "pred_option (\<lambda>r. cmd_type r = REQ_TYPE_FS) req"
  by (rule sbd_request_loop.raw_induct [where P = "\<lambda>c p req st y. pred_option (\<lambda>r. cmd_type r = REQ_TYPE_FS) req",
        OF _ assms])
     (fastforce split: option.splits if_splits)

lemma sbd_request_body_Some:
  fixes f :: "cipher \<Rightarrow> sbd_params \<Rightarrow> request option \<Rightarrow> 'a blk_state_scheme \<Rightarrow> (fault + 'a blk_state_scheme) option"
  assumes "(case req of
        None \<Rightarrow> Some (Inr st)
      | Some r \<Rightarrow>
          if cmd_type r \<noteq> REQ_TYPE_FS then
            f c p (Some r) (blk_end_request_all (printk st Msg_skip_non_cmd) r EIO)
          else
            Option.bind (sbd_transfer c p st (rq_pos r) (blk_rq_cur_sectors r) (rq_buffer r) (rq_write r))
              (\<lambda>res. case res of
                 Inl e \<Rightarrow> Some (Inl e)
               | Inr (st1, buf) \<Rightarrow>
                   (case blk_end_request_cur st1 r buf of
                      (pending, r', st2) \<Rightarrow>
                        if pending then f c p (Some r') st2
                        else (case blk_fetch_request st2 of
                                (req', st3) \<Rightarrow> f c p req' st3)))) = Some y"
  obtains (Done) "req = None" "y = Inr st"
  | (Skip) r where "req = Some r" "cmd_type r \<noteq> REQ_TYPE_FS"
      "f c p (Some r) (blk_end_request_all (printk st Msg_skip_non_cmd) r EIO) = Some y"
  | (Fault) r e where "req = Some r" "cmd_type r = REQ_TYPE_FS"
      "sbd_transfer c p st (rq_pos r) (blk_rq_cur_sectors r) (rq_buffer r) (rq_write r) = Some (Inl e)"
      "y = Inl e"
  | (Next) r st1 buf r' st2 where "req = Some r" "cmd_type r = REQ_TYPE_FS"
      "sbd_transfer c p st (rq_pos r) (blk_rq_cur_sectors r) (rq_buffer r) (rq_write r) = Some (Inr (st1, buf))"
      "blk_end_request_cur st1 r buf = (True, r', st2)" "f c p (Some r') st2 = Some y"
  | (Fetch) r st1 buf r' st2 req' st3 where "req = Some r" "cmd_type r = REQ_TYPE_FS"
      "sbd_transfer c p st (rq_pos r) (blk_rq_cur_sectors r) (rq_buffer r) (rq_write r) = Some (Inr (st1, buf))"
      "blk_end_request_cur st1 r buf = (False, r', st2)" "blk_fetch_request st2 = (req', st3)"
      "f c p req' st3 = Some y"
proof (cases req)
  case None
  with assms show thesis by (simp add: Done)
next
  case (Some r)
  show thesis
  proof (cases "cmd_type r = REQ_TYPE_FS")
    case False
    with assms Some show thesis by (intro Skip [of r]) simp_all
  next
    case fs: True
    let ?tr = "sbd_transfer c p st (rq_pos r) (blk_rq_cur_sectors r) (rq_buffer r) (rq_write r)"
    consider (N) "?tr = None" | (L) e where "?tr = Some (Inl e)" | (R) st1 buf where "?tr = Some (Inr (st1, buf))"
      by (metis option.exhaust sum.exhaust prod.exhaust)
    then show thesis
    proof cases
      case N
      with assms Some fs show thesis by simp
    next
      case (L e)
      with assms Some fs show thesis by (intro Fault [of r e]) simp_all
    next
      case (R st1 buf)
      obtain pending r' st2 where e: "blk_end_request_cur st1 r buf = (pending, r', st2)"
        by (metis prod_cases3)
      obtain req' st3 where f: "blk_fetch_request st2 = (req', st3)" by fastforce
      show thesis
      proof (cases pending)
        case True
        with assms Some fs R e show thesis by (intro Next [of r st1 buf r' st2]) simp_all
      next
        case False
        with assms Some fs R e f show thesis by (intro Fetch [of r st1 buf r' st2 req' st3]) simp_all
      qed
    qed
  qed
qed

lemma blk_end_request_cur_completed:
  assumes "blk_end_request_cur st r buf = (pending, r', st')"
  shows "pending \<Longrightarrow> completed st' = completed st"
    and "\<not> pending \<Longrightarrow> \<exists>d. completed st' = completed st @ [Completion (rq_id r) None d]"
  using assms by (auto simp: blk_end_request_cur_def Let_def split: list.splits if_splits)

lemma sbd_request_loop_Inr:
  assumes "sbd_request_loop c p req st = Some y"
  shows "\<forall>st'. y = Inr st' \<longrightarrow> (req = None \<longrightarrow> queue st = []) \<longrightarrow>
           pred_option (\<lambda>r. cmd_type r = REQ_TYPE_FS) req \<and> list_all (\<lambda>r. cmd_type r = REQ_TYPE_FS) (queue st) \<and>
           queue st' = [] \<and>
           (\<exists>new. completed st' = completed st @ new \<and>
              map completion_id new = (case req of None \<Rightarrow> [] | Some r \<Rightarrow> [rq_id r]) @ map rq_id (queue st) \<and>
              (\<forall>x\<in>set new. completion_err x = None))"
  apply (rule sbd_request_loop.raw_induct [OF _ assms])
  apply (erule sbd_request_body_Some)
  subgoal by simp
  subgoal for f c p req st y r
    by (drule meta_spec [of _ c], drule meta_spec [of _ p], drule meta_spec [of _ "Some r"]) fastforce
  subgoal by simp
  subgoal premises prems for f c p req st y r st1 buf r' st2
  proof (intro allI impI)
    fix st' assume y: "y = Inr st'"
    note ih = prems(1) [OF prems(6), rule_format, OF y]
    show "pred_option (\<lambda>r. cmd_type r = REQ_TYPE_FS) req \<and> list_all (\<lambda>r. cmd_type r = REQ_TYPE_FS) (queue st) \<and>
           queue st' = [] \<and>
           (\<exists>new. completed st' = completed st @ new \<and>
              map completion_id new = (case req of None \<Rightarrow> [] | Some r \<Rightarrow> [rq_id r]) @ map rq_id (queue st) \<and>
              (\<forall>x\<in>set new. completion_err x = None))"
      using ih prems(2,3) sbd_transfer_blk_fields [OF prems(4)] blk_end_request_cur_facts [OF prems(5)]
        blk_end_request_cur_completed(1) [OF prems(5)] by simp
  qed
  subgoal premises prems for f c p req st y r st1 buf r' st2 req' st3
  proof (intro allI impI)
    fix st' assume y: "y = Inr st'"
    note ef = blk_end_request_cur_facts [OF prems(5)]
    note ff = blk_fetch_request_queue [OF prems(6)]
    note tf = sbd_transfer_blk_fields [OF prems(4)]
    have ih: "pred_option (\<lambda>r. cmd_type r = REQ_TYPE_FS) req' \<and> list_all (\<lambda>r. cmd_type r = REQ_TYPE_FS) (queue st3) \<and>
           queue st' = [] \<and>
           (\<exists>new. completed st' = completed st3 @ new \<and>
              map completion_id new = (case req' of None \<Rightarrow> [] | Some r \<Rightarrow> [rq_id r]) @ map rq_id (queue st3) \<and>
              (\<forall>x\<in>set new. completion_err x = None))"
      using prems(1) [OF prems(7), rule_format, OF y] ff(1) by blast
    then obtain new where new: "completed st' = completed st3 @ new"
      "map completion_id new = (case req' of None \<Rightarrow> [] | Some r \<Rightarrow> [rq_id r]) @ map rq_id (queue st3)"
      "\<forall>x\<in>set new. completion_err x = None" by blast
    obtain d where d: "completed st2 = completed st1 @ [Completion (rq_id r) None d]"
      using blk_end_request_cur_completed(2) [OF prems(5)] by blast
    have cw: "completed st' = completed st @ (Completion (rq_id r) None d # new) \<and>
          map completion_id (Completion (rq_id r) None d # new) = [rq_id r] @ map rq_id (queue st) \<and>
          (\<forall>x\<in>set (Completion (rq_id r) None d # new). completion_err x = None)"
      using new d ff(2) [of rq_id] ff(4) tf ef(1) by simp
    show "pred_option (\<lambda>r. cmd_type r = REQ_TYPE_FS) req \<and> list_all (\<lambda>r. cmd_type r = REQ_TYPE_FS) (queue st) \<and>
           queue st' = [] \<and>
           (\<exists>new. completed st' = completed st @ new \<and>
              map completion_id new = (case req of None \<Rightarrow> [] | Some r \<Rightarrow> [rq_id r]) @ map rq_id (queue st) \<and>
              (\<forall>x\<in>set new. completion_err x = None))"
    proof (intro conjI)
      show "pred_option (\<lambda>r. cmd_type r = REQ_TYPE_FS) req" using prems(2,3) by simp
      show "list_all (\<lambda>r. cmd_type r = REQ_TYPE_FS) (queue st)"
        using ih ff(3) [of "\<lambda>r. cmd_type r = REQ_TYPE_FS"] tf ef(1) by simp
      show "queue st' = []" using ih by simp
      show "\<exists>new. completed st' = completed st @ new \<and>
              map completion_id new = (case req of None \<Rightarrow> [] | Some r \<Rightarrow> [rq_id r]) @ map rq_id (queue st) \<and>
              (\<forall>x\<in>set new. completion_err x = None)"
        using cw prems(2) by (intro exI [of _ "Completion (rq_id r) None d # new"]) simp
    qed
  qed
  done

text \<open>
  What the loop leaves alone: the steps around a transfer only complete requests and
  take them off the queue.
\<close>

lemma blk_end_request_cur_fields:
  assumes "blk_end_request_cur st r buf = (pending, r', st')"
  shows "Device st' = Device st \<and> crypto_key st' = crypto_key st \<and> key_size st' = key_size st \<and>
         klog st' = klog st \<and> tfm st' = tfm st \<and> queue st' = queue st"
  using assms by (auto simp: blk_end_request_cur_def Let_def split: list.splits if_splits)

lemma blk_fetch_request_fields:
  assumes "blk_fetch_request st = (req, st')"
  shows "Device st' = Device st \<and> crypto_key st' = crypto_key st \<and> key_size st' = key_size st \<and>
         klog st' = klog st \<and> tfm st' = tfm st \<and> completed st' = completed st"
  using assms by (auto simp: blk_fetch_request_def split: list.splits)

lemma sbd_request_loop_frame:
  assumes "sbd_request_loop c p req st = Some y"
  shows "\<forall>st'. y = Inr st' \<longrightarrow> blk_frame st st'"
  apply (rule sbd_request_loop.raw_induct [OF _ assms])
  apply (erule sbd_request_body_Some)
  subgoal by (simp add: blk_frame_def)
  subgoal for f c p req st y r
    by (drule meta_spec [of _ c], drule meta_spec [of _ p], drule meta_spec [of _ "Some r"])
       (fastforce simp: blk_frame_def blk_end_request_all_def printk_def)
  subgoal by simp
  subgoal premises prems for f c p req st y r st1 buf r' st2
    using prems(1) [OF prems(6)] sbd_transfer_shape [OF prems(4)] blk_end_request_cur_fields [OF prems(5)]
    by (auto simp: blk_frame_def)
  subgoal premises prems for f c p req st y r st1 buf r' st2 req' st3
    using prems(1) [OF prems(7)] sbd_transfer_shape [OF prems(4)] blk_end_request_cur_fields [OF prems(5)]
      blk_fetch_request_fields [OF prems(6)]
    by (auto simp: blk_frame_def)
  done

lemma sbd_request_frame:
  assumes "sbd_request c p st = Some (Inr st')"
  shows "blk_frame st st'"
proof -
  obtain req st1 where f: "blk_fetch_request st = (req, st1)" by fastforce
  from assms f have "sbd_request_loop c p req st1 = Some (Inr st')" by (simp add: sbd_request_def)
  from sbd_request_loop_frame [OF this] blk_fetch_request_fields [OF f] show ?thesis
    by (simp add: blk_frame_def)
qed

lemma sbd_request_Inr_ids:
  assumes "sbd_request c p st = Some (Inr st')"
  shows "queue st' = [] \<and>
         (\<exists>new. completed st' = completed st @ new \<and> map completion_id new = map rq_id (queue st) \<and>
                (\<forall>x\<in>set new. completion_err x = None))"
proof -
  obtain req st1 where f: "blk_fetch_request st = (req, st1)" by fastforce
  note ff = blk_fetch_request_queue [OF f]
  from assms f have "sbd_request_loop c p req st1 = Some (Inr st')" by (simp add: sbd_request_def)
  from sbd_request_loop_Inr [OF this, rule_format, OF refl ff(1)]
  show ?thesis using ff(2) [of rq_id] ff(4) by simp
qed

lemma sbd_request_fs_not_None:
  assumes "list_all (\<lambda>r. cmd_type r = REQ_TYPE_FS) (queue st)"
  shows "sbd_request c p st \<noteq> None"
proof -
  obtain req st1 where f: "blk_fetch_request st = (req, st1)" by fastforce
  from blk_fetch_request_queue(3) [OF f] assms
  have "sbd_request_loop c p req st1 \<noteq> None" by (simp add: sbd_request_loop_fs_returns)
  with f show ?thesis by (simp add: sbd_request_def)
qed

text \<open>The rewrite rules that evaluate the request loop on the example queues.\<close>

lemmas ex_request_eval =
  ex_blk_state_def ex_request_def ex_params16_def sbd_request_def blk_fetch_request_def
  sbd_request_loop.simps sbd_transfer_def Let_def sbd_install_key_def printk_def blk_rq_cur_sectors_def
  KERNEL_SECTOR_SIZE_def rq_buffer_def memcpy_def mem_read_def mem_write_def blk_end_request_cur_def
  set_dev_data_def cipher_loop.simps crypto_cipher_encrypt_one_def cipher_one_def crypto_cipher_blocksize_def
  AES_BLOCK_SIZE_def crypto_cipher_setkey_def crypto_cipher_clear_flags_def add_cipher_def pad_key_def

section \<open>Properties of the request loop\<close>

text \<open>
  C16: A request that is not a filesystem request is never got rid of: the loop ends it
  with \<open>-EIO\<close> and then \<open>continue\<close>s with the same request pointer, so
  \<open>sbd_request\<close> does not return (the request function spins with the queue lock held).
\<close>

theorem sbd_request_hangs_on_non_fs:
  assumes "queue st = r # rs" and "cmd_type r \<noteq> REQ_TYPE_FS"
  shows "sbd_request c p st = None"
proof (rule ccontr)
  assume "sbd_request c p st \<noteq> None"
  then obtain y where "sbd_request_loop c p (Some r) (st\<lparr>queue := rs\<rparr>) = Some y"
    using assms(1) by (auto simp: sbd_request_def blk_fetch_request_def)
  from sbd_request_loop_returns_only_fs [OF this] assms(2) show False by simp
qed

text \<open>
  C17: On a queue of filesystem requests the request function returns: every pass
  of the loop either finishes a segment or fetches the next request.
\<close>

theorem sbd_request_returns_on_fs_queue:
  assumes "list_all (\<lambda>r. cmd_type r = REQ_TYPE_FS) (queue st)"
  shows "\<exists>y. sbd_request c p st = Some y"
  using sbd_request_fs_not_None [OF assms, of c p] by simp

text \<open>
  C18: When the request function returns without a fault, every queued request was a
  filesystem request, the queue is empty, and the requests were completed once each,
  in queue order, all with status 0.
\<close>

theorem sbd_request_completes_queue_in_order:
  assumes "sbd_request c p st = Some (Inr st')"
  shows "list_all (\<lambda>r. cmd_type r = REQ_TYPE_FS) (queue st) \<and> queue st' = [] \<and>
         (\<exists>new. completed st' = completed st @ new \<and> map completion_id new = map rq_id (queue st) \<and>
                (\<forall>x\<in>set new. completion_err x = None))"
proof -
  obtain req st1 where f: "blk_fetch_request st = (req, st1)" by fastforce
  note ff = blk_fetch_request_queue [OF f]
  from assms f have "sbd_request_loop c p req st1 = Some (Inr st')" by (simp add: sbd_request_def)
  from sbd_request_loop_Inr [OF this, rule_format, OF refl ff(1)]
  show ?thesis using ff(2) [of rq_id] ff(3) [of "\<lambda>r. cmd_type r = REQ_TYPE_FS"] ff(4) by simp
qed

text \<open>
  C19: A request beyond the end of the device is not failed: \<open>sbd_transfer\<close> only
  logs it, and the request is completed with status 0 while the device is unchanged
  and the caller's segment keeps whatever it held.
\<close>

theorem sbd_request_beyond_end_reports_success:
  assumes q: "queue st = [r]" and fs: "cmd_type r = REQ_TYPE_FS" and seg: "rq_segs r = [s]"
    and oob: "dev_size (Device st) < rq_pos r * scast (logical_block_size p) +
                 of_nat (length s div KERNEL_SECTOR_SIZE) * scast (logical_block_size p)"
  shows "\<exists>st'. sbd_request c p st = Some (Inr st') \<and> queue st' = [] \<and>
           completed st' = completed st @ [Completion (rq_id r) None (rq_done r @ [s])] \<and>
           Device st' = Device st"
  using assms
  by (simp add: sbd_request_def blk_fetch_request_def sbd_request_loop.simps [of c p "Some r"]
      sbd_request_loop.simps [of c p None] blk_rq_cur_sectors_def rq_buffer_def
      sbd_transfer_def Let_def printk_def blk_end_request_cur_def)

section \<open>Witnesses\<close>

lemma sbd_request_hangs_on_non_fs_witness:
  "sbd_request add_cipher ex_params16 (ex_blk_state 16 [ex_request 1 REQ_TYPE_SENSE 0]) = None"
  by (rule sbd_request_hangs_on_non_fs [where r = "ex_request 1 REQ_TYPE_SENSE 0" and rs = "[]"])
     (simp_all add: ex_blk_state_def ex_request_def)

lemma sbd_request_returns_on_fs_queue_witness:
  "\<exists>y. sbd_request add_cipher ex_params16
         (ex_blk_state 16 [ex_request 1 REQ_TYPE_FS 0, ex_request 2 REQ_TYPE_FS 3]) = Some y"
  by (rule sbd_request_returns_on_fs_queue) (simp add: ex_blk_state_def ex_request_def)

lemma sbd_request_completes_queue_in_order_witness:
  "\<exists>st'. sbd_request add_cipher ex_params16
           (ex_blk_state 16 [ex_request 1 REQ_TYPE_FS 0, ex_request 2 REQ_TYPE_FS 3]) = Some (Inr st') \<and>
         queue st' = [] \<and> map completion_id (completed st') = [1, 2] \<and>
         (\<forall>x\<in>set (completed st'). completion_err x = None)"
proof -
  obtain st' where r: "sbd_request add_cipher ex_params16
           (ex_blk_state 16 [ex_request 1 REQ_TYPE_FS 0, ex_request 2 REQ_TYPE_FS 3]) = Some (Inr st')"
    by (simp add: ex_request_eval)
  from sbd_request_completes_queue_in_order [OF r] r show ?thesis
    by (simp add: ex_blk_state_def ex_request_def)
qed

lemma sbd_request_beyond_end_reports_success_witness:
  "\<exists>st'. sbd_request add_cipher ex_params16 (ex_blk_state 16 [ex_request 1 REQ_TYPE_FS 100]) = Some (Inr st') \<and>
         queue st' = [] \<and> completed st' = [Completion 1 None [replicate 512 5]] \<and>
         Device st' = Device (ex_blk_state 16 [])"
  using sbd_request_beyond_end_reports_success [where st = "ex_blk_state 16 [ex_request 1 REQ_TYPE_FS 100]"
      and r = "ex_request 1 REQ_TYPE_FS 100" and s = "replicate 512 5" and p = ex_params16 and c = add_cipher]
  by (simp add: ex_blk_state_def ex_request_def ex_params16_def KERNEL_SECTOR_SIZE_def)

end
