(* ===== verification/Init.thy ===== *)
theory Init
  imports Dispatcher "HOL-Library.Signed_Division"
begin

text \<open>
  Module start-up and tear-down (\<open>sbd_init\<close>, lines 205-279, and \<open>sbd_exit\<close>, lines
  281-293) and the geometry query \<open>sbd_getgeo\<close> (lines 185-195).  Start-up acquires
  kernel resources one after the other and, on a failure, jumps to the labels
  \<open>out_unregister\<close> and \<open>out\<close>, which release some of them.  The model tracks the set
  of live resources: the cipher handle, each \<open>vmalloc\<close> area (numbered by the call
  that allocated it), the request queue, the block-device major, the gendisk, the sysfs
  root device and its key attribute.  The outcome of each kernel call is an input, a
  record \<open>init_env\<close>, so that every failure path of the code is a branch of the model.
\<close>

section \<open>Resources and the environment\<close>

datatype resource =
    R_cipher
  | R_area nat
  | R_queue
  | R_blkdev
  | R_disk
  | R_root_dev
  | R_key_attr

text \<open>
  What the kernel answers: \<open>crypto_alloc_cipher\<close> fails with an error pointer
  (\<open>Some e\<close>) or succeeds; the \<open>n\<close>-th call of \<open>vmalloc\<close> succeeds or returns
  \<open>NULL\<close>; \<open>register_blkdev\<close>, \<open>device_register\<close> and \<open>device_create_file\<close>
  return an \<open>int\<close>.
\<close>

record init_env =
  alloc_cipher_err :: "c_int option"
  vmalloc_ok :: "nat \<Rightarrow> bool"
  blk_init_queue_ok :: bool
  register_blkdev_ret :: c_int
  alloc_disk_ok :: bool
  device_register_ret :: c_int
  device_create_file_ret :: c_int

text \<open>
  The module's globals that start-up sets: \<open>Device.size\<close>, \<open>Device.data\<close> (the
  area it points to), \<open>major_num\<close>, the queue's logical block size, the capacity
  and registration of the gendisk.
\<close>

record module_state = klog_state +
  live :: "resource set"
  next_area :: nat
  data_area :: "nat option"
  m_dev_size :: u64
  m_major :: c_int
  queue_lbs :: c_int
  disk_capacity :: u64
  disk_added :: bool

definition errno_code :: "errno \<Rightarrow> c_int" where
  "errno_code e = (case e of EINVAL \<Rightarrow> 22 | ENOMEM \<Rightarrow> 12 | EIO \<Rightarrow> 5)"

definition init_module_state :: module_state where
  "init_module_state =
     \<lparr>klog = [], live = {}, next_area = 0, data_area = None, m_dev_size = 0, m_major = 0,
      queue_lbs = 0, disk_capacity = 0, disk_added = False\<rparr>"

section \<open>Kernel calls\<close>

definition acquire :: "resource \<Rightarrow> 'a module_state_scheme \<Rightarrow> 'a module_state_scheme" where
  "acquire r st = st\<lparr>live := insert r (live st)\<rparr>"

definition release :: "resource \<Rightarrow> 'a module_state_scheme \<Rightarrow> 'a module_state_scheme" where
  "release r st = st\<lparr>live := live st - {r}\<rparr>"

text \<open>\<open>vmalloc(size)\<close>: a fresh area, or \<open>NULL\<close>; \<open>vfree(NULL)\<close> does nothing.\<close>

definition vmalloc :: "init_env \<Rightarrow> 'a module_state_scheme \<Rightarrow> nat option \<times> 'a module_state_scheme" where
  "vmalloc env st =
     (let a = next_area st; st1 = st\<lparr>next_area := Suc a\<rparr> in
      if vmalloc_ok env a then (Some a, acquire (R_area a) st1) else (None, st1))"

definition vfree :: "nat option \<Rightarrow> 'a module_state_scheme \<Rightarrow> 'a module_state_scheme" where
  "vfree a st = (case a of None \<Rightarrow> st | Some n \<Rightarrow> release (R_area n) st)"

text \<open>
  \<open>Device.size = nsectors * logical_block_size\<close>: a product of two \<open>int\<close>s,
  computed in 32 bits and sign-extended into the \<open>unsigned long\<close> field.  (A product
  beyond \<open>INT_MAX\<close> is undefined behaviour in C; the model takes the wrapped value
  the compiler produces.)
\<close>

definition device_size :: "sbd_params \<Rightarrow> u64" where
  "device_size p = scast (nsectors p * logical_block_size p)"

section \<open>Start-up and tear-down\<close>

text \<open>The failure labels of \<open>sbd_init\<close> (lines 273-278).\<close>

definition sbd_init_out :: "'a module_state_scheme \<Rightarrow> c_int \<times> 'a module_state_scheme" where
  "sbd_init_out st = (- errno_code ENOMEM, release R_cipher (vfree (data_area st) st))"

definition sbd_init_out_unregister :: "'a module_state_scheme \<Rightarrow> c_int \<times> 'a module_state_scheme" where
  "sbd_init_out_unregister st = sbd_init_out (release R_blkdev st)"

text \<open>
  From \<open>register_blkdev\<close> on (lines 240-271): the major, the gendisk with capacity
  \<open>nsectors\<close> (512-byte sectors, as \<open>set_capacity\<close> counts them), the sysfs device and
  its key attribute.
\<close>

definition sbd_init_register ::
  "sbd_params \<Rightarrow> init_env \<Rightarrow> 'a module_state_scheme \<Rightarrow> c_int \<times> 'a module_state_scheme" where
  "sbd_init_register p env st =
     (let m = register_blkdev_ret env; st1 = st\<lparr>m_major := m\<rparr> in
      if sint m < 0 then sbd_init_out (printk st1 Msg_no_major)
      else
        let st2 = acquire R_blkdev st1 in
        if \<not> alloc_disk_ok env then sbd_init_out_unregister st2
        else
          let st3 = (acquire R_disk st2)\<lparr>disk_capacity := scast (nsectors p), disk_added := True\<rparr> in
          if sint (device_register_ret env) < 0 then sbd_init_out_unregister st3
          else
            let st4 = acquire R_root_dev st3 in
            if sint (device_create_file_ret env) < 0 then sbd_init_out_unregister (release R_root_dev st4)
            else (0, acquire R_key_attr st4))"

text \<open>
  \<open>sbd_init\<close>: the cipher, then \<open>Device.data = vmalloc(Device.size)\<close> twice over
  (lines 215-220 and 225-229, the second overwriting the first pointer), the request
  queue with its logical block size, then registration.
\<close>

definition sbd_init :: "sbd_params \<Rightarrow> init_env \<Rightarrow> 'a module_state_scheme \<Rightarrow> c_int \<times> 'a module_state_scheme" where
  "sbd_init p env st =
     (case alloc_cipher_err env of
        Some e \<Rightarrow> (e, printk st Msg_cipher_failed)
      | None \<Rightarrow>
          let st1 = (acquire R_cipher st)\<lparr>m_dev_size := device_size p\<rparr>;
              (a1, st2) = vmalloc env st1;
              st2 = st2\<lparr>data_area := a1\<rparr>
          in if a1 = None then (- errno_code ENOMEM, st2)
          else
            let st3 = st2\<lparr>m_dev_size := device_size p\<rparr>;
                (a2, st4) = vmalloc env st3;
                st4 = st4\<lparr>data_area := a2\<rparr>
            in if a2 = None then (- errno_code ENOMEM, st4)
            else if \<not> blk_init_queue_ok env then sbd_init_out st4
            else sbd_init_register p env ((acquire R_queue st4)\<lparr>queue_lbs := logical_block_size p\<rparr>))"

text \<open>\<open>sbd_exit\<close>: every release of lines 283-292, in the order of the code.\<close>

definition sbd_exit :: "'a module_state_scheme \<Rightarrow> 'a module_state_scheme" where
  "sbd_exit st =
     vfree (data_area st)
       (release R_root_dev (release R_key_attr (release R_cipher (release R_queue
         (release R_blkdev (release R_disk (st\<lparr>disk_added := False\<rparr>)))))))"

section \<open>Geometry\<close>

record hd_geometry =
  geo_heads :: byte
  geo_sectors :: byte
  geo_cylinders :: "16 word"
  geo_start :: u64

text \<open>
  \<open>sbd_getgeo\<close>: \<open>size\<close> is a \<open>long\<close>, the product of \<open>Device.size\<close> and the
  \<open>int\<close> quotient \<open>logical_block_size / 512\<close> (truncating, sign-extended); the
  cylinders are \<open>(size & ~0x3f) >> 6\<close> stored into an \<open>unsigned short\<close>.
\<close>

definition sbd_getgeo :: "sbd_params \<Rightarrow> 'a sbd_state_scheme \<Rightarrow> c_int \<times> hd_geometry" where
  "sbd_getgeo p st =
     (let size = dev_size (Device st) * word_of_int (sint (logical_block_size p) sdiv int KERNEL_SECTOR_SIZE)
      in (0, \<lparr>geo_heads = 4, geo_sectors = 16,
              geo_cylinders = ucast (signed_drop_bit 6 (size AND NOT 0x3f)), geo_start = 0\<rparr>))"

text \<open>
  A kernel that answers as the kernel does: an error pointer carries a negative
  error number.
\<close>

definition env_wf :: "init_env \<Rightarrow> bool" where
  "env_wf env \<longleftrightarrow> (case alloc_cipher_err env of None \<Rightarrow> True | Some e \<Rightarrow> sint e < 0)"

text \<open>
  Examples: a kernel in which every call succeeds, a larger sector size, and a device
  of the default size (1024 sectors of 512 bytes).
\<close>

definition ex_env :: init_env where
  "ex_env =
     \<lparr>alloc_cipher_err = None, vmalloc_ok = (\<lambda>_. True), blk_init_queue_ok = True,
      register_blkdev_ret = 253, alloc_disk_ok = True, device_register_ret = 0,
      device_create_file_ret = 0\<rparr>"

definition ex_params4096 :: sbd_params where
  "ex_params4096 = \<lparr>logical_block_size = 4096, nsectors = 16\<rparr>"

definition ex_default_device :: sbd_state where
  "ex_default_device = ex_state\<lparr>Device := \<lparr>dev_size = 524288, dev_data = []\<rparr>\<rparr>"

text \<open>
  What \<open>sbd_getgeo\<close> computes, written with arithmetic instead of bit operations:
  the cylinders are the byte size times \<open>logical_block_size / 512\<close>, divided by 64,
  as an \<open>unsigned short\<close>.
\<close>

definition getgeo_ref :: "sbd_params \<Rightarrow> 'a sbd_state_scheme \<Rightarrow> hd_geometry" where
  "getgeo_ref p st =
     \<lparr>geo_heads = 4, geo_sectors = 16,
      geo_cylinders = of_nat (unat (dev_size (Device st)) * nat (sint (logical_block_size p) div int KERNEL_SECTOR_SIZE) div 64),
      geo_start = 0\<rparr>"

section \<open>Lemmas\<close>

lemma cylinders_of:
  assumes "unat (x :: 64 word) < 2 ^ 63"
  shows "unat (ucast (signed_drop_bit 6 (x AND NOT 0x3f)) :: 16 word) = unat x div 64 mod 2 ^ 16"
proof -
  have nb: "\<not> bit (x AND NOT (mask 6)) 63" using not_bit_small [OF assms] by (simp add: bit_and_iff)
  have "signed_drop_bit 6 (x AND NOT 0x3f) = drop_bit 6 (x AND NOT (mask 6))"
    using signed_drop_bit_pos [OF nb] by (simp only: mask6)
  also have "\<dots> = drop_bit 6 x" by (rule drop_bit_and_not_mask)
  finally have "signed_drop_bit 6 (x AND NOT 0x3f) = drop_bit 6 x" .
  then show ?thesis by (simp add: unsigned_ucast_eq unat_drop_bit_eq drop_bit_eq_div take_bit_eq_mod unat_div)
qed

lemma sbd_init_success_fields:
  assumes "sbd_init p env st = (0, st')" and "env_wf env"
  shows "disk_capacity st' = scast (nsectors p) \<and> m_dev_size st' = device_size p"
  using assms
  by (auto simp: sbd_init_def sbd_init_register_def sbd_init_out_def sbd_init_out_unregister_def
      vmalloc_def vfree_def acquire_def release_def printk_def Let_def env_wf_def errno_code_def
      split: option.splits if_splits prod.splits)

lemmas sbd_init_unfold =
  sbd_init_def sbd_init_register_def sbd_init_out_def sbd_init_out_unregister_def
  vmalloc_def vfree_def acquire_def release_def printk_def Let_def errno_code_def

section \<open>Properties of start-up, tear-down and geometry\<close>

text \<open>
  C20: Start-up allocates the device buffer twice and keeps only the second pointer, and
  tear-down frees only \<open>Device.data\<close>: after a successful \<open>sbd_init\<close> and \<open>sbd_exit\<close>
  every resource is released except the first buffer, which is leaked.
\<close>

theorem sbd_init_exit_leaks_first_area:
  assumes "sbd_init p env st = (0, st')" and "env_wf env" and "live st = {}"
  shows "live (sbd_exit st') = {R_area (next_area st)}"
  using assms
  by (auto simp: sbd_init_def sbd_init_register_def sbd_init_out_def sbd_init_out_unregister_def sbd_exit_def
      vmalloc_def vfree_def acquire_def release_def printk_def Let_def env_wf_def errno_code_def
      split: option.splits if_splits prod.splits)

text \<open>
  C21: A failed start-up releases everything it acquired only when the very first call,
  the cipher allocation, failed; on every later failure something stays acquired (the
  cipher handle, the first buffer, the queue, the gendisk or the sysfs device), and the
  error returned is \<open>-ENOMEM\<close> whatever the call that failed.
\<close>

theorem sbd_init_failure_leaks:
  assumes "sbd_init p env st = (r, st')" and "env_wf env" and "live st = {}" and "r \<noteq> 0"
  shows "(live st' = {} \<longleftrightarrow> alloc_cipher_err env \<noteq> None) \<and>
         (alloc_cipher_err env = None \<longrightarrow> r = - errno_code ENOMEM)"
  using assms
  by (auto simp: sbd_init_def sbd_init_register_def sbd_init_out_def sbd_init_out_unregister_def
      vmalloc_def vfree_def acquire_def release_def printk_def Let_def env_wf_def errno_code_def
      split: option.splits if_splits prod.splits)

text \<open>
  C22: The gendisk's capacity is set to \<open>nsectors\<close> 512-byte sectors, while the device
  holds \<open>nsectors * logical_block_size\<close> bytes: the two agree exactly when the logical
  block size is 512.
\<close>

theorem sbd_init_capacity_mismatch:
  assumes ok: "sbd_init p env st = (0, st')" and env: "env_wf env"
    and pos: "0 < sint (nsectors p)" "0 < sint (logical_block_size p)"
    and fits: "sint (nsectors p) * sint (logical_block_size p) < 2 ^ 31"
  shows "unat (disk_capacity st') * KERNEL_SECTOR_SIZE = unat (m_dev_size st') \<longleftrightarrow>
         logical_block_size p = 512"
proof -
  let ?n = "sint (nsectors p)" and ?b = "sint (logical_block_size p)"
  have "0 < ?n * ?b" using pos by (simp add: mult_pos_pos)
  then have prod: "sint (nsectors p * logical_block_size p) = ?n * ?b"
    using fits by (intro sint_mult_in_range) simp_all
  have "unat (disk_capacity st') = nat ?n"
    using sbd_init_success_fields [OF ok env] pos by (simp add: unat_scast_nonneg)
  moreover have "unat (m_dev_size st') = nat (?n * ?b)"
    using sbd_init_success_fields [OF ok env] pos prod by (simp add: device_size_def unat_scast_nonneg)
  moreover have "nat ?n * 512 = nat (?n * ?b) \<longleftrightarrow> ?b = 512"
  proof -
    have "nat ?n * 512 = nat (?n * 512)" using pos by (simp add: nat_mult_distrib)
    moreover have "nat (?n * 512) = nat (?n * ?b) \<longleftrightarrow> ?n * 512 = ?n * ?b"
      using pos by (intro eq_nat_nat_iff) simp_all
    moreover have "?n * 512 = ?n * ?b \<longleftrightarrow> ?b = 512" using pos by auto
    ultimately show ?thesis by simp
  qed
  moreover have "?b = 512 \<longleftrightarrow> logical_block_size p = 512"
  proof
    assume "?b = 512"
    then have "(word_of_int ?b :: c_int) = word_of_int 512" by simp
    then show "logical_block_size p = 512" by simp
  qed simp
  ultimately show ?thesis by (simp add: KERNEL_SECTOR_SIZE_def)
qed

text \<open>
  C23: With 512-byte sectors the geometry reports \<open>heads * sectors * cylinders\<close> equal to
  the device's size in bytes (rounded down to a cylinder), a sector count 512 times the
  device's capacity.
\<close>

theorem sbd_getgeo_counts_bytes_as_sectors:
  assumes "logical_block_size p = 512" and "unat (dev_size (Device st)) < 2 ^ 22"
  shows "unat (geo_heads (snd (sbd_getgeo p st))) * unat (geo_sectors (snd (sbd_getgeo p st))) *
           unat (geo_cylinders (snd (sbd_getgeo p st))) = unat (dev_size (Device st)) div 64 * 64"
proof -
  have "unat (dev_size (Device st)) < 2 ^ 63" using assms(2) by simp
  from cylinders_of [OF this] assms show ?thesis
    by (simp add: sbd_getgeo_def Let_def KERNEL_SECTOR_SIZE_def signed_divide_int_def)
qed

text \<open>
  C26: Whenever the logical block size is not negative and the product does not reach
  the sign bit of \<open>long\<close>, the bit operations of \<open>sbd_getgeo\<close> compute the arithmetic
  reference \<open>getgeo_ref\<close>: \<open>(size & ~0x3f) >> 6\<close> is \<open>size div 64\<close>, truncated to 16 bits.
\<close>

theorem sbd_getgeo_equiv_ref:
  assumes lbs: "0 \<le> sint (logical_block_size p)"
    and fits: "unat (dev_size (Device st)) * nat (sint (logical_block_size p) div int KERNEL_SECTOR_SIZE) < 2 ^ 63"
  shows "sbd_getgeo p st = (0, getgeo_ref p st)"
proof -
  let ?q = "nat (sint (logical_block_size p) div int KERNEL_SECTOR_SIZE)"
  let ?size = "dev_size (Device st) * word_of_int (sint (logical_block_size p) sdiv int KERNEL_SECTOR_SIZE)"
  have "sint (logical_block_size p) sdiv int KERNEL_SECTOR_SIZE = int ?q"
    using lbs by (auto simp: signed_divide_int_def KERNEL_SECTOR_SIZE_def sgn_if)
  then have q: "?size = dev_size (Device st) * of_nat ?q" by simp
  have qsmall: "?q < 2 ^ 31"
  proof -
    have "sint (logical_block_size p) < 2 ^ 31" using sint_less [of "logical_block_size p"] by simp
    then show ?thesis using lbs by (simp add: KERNEL_SECTOR_SIZE_def nat_less_iff)
  qed
  have uq: "unat (of_nat ?q :: u64) = ?q" using qsmall by (simp add: unat_of_nat_u64)
  have us: "unat ?size = unat (dev_size (Device st)) * ?q"
    using fits uq q by (simp add: unat_mult_lem [THEN iffD1])
  have "unat (ucast (signed_drop_bit 6 (?size AND NOT 0x3f)) :: 16 word) =
        unat (of_nat (unat (dev_size (Device st)) * ?q div 64) :: 16 word)"
    using cylinders_of [of ?size] us fits by (simp add: unat_of_nat)
  then show ?thesis
    by (simp add: sbd_getgeo_def getgeo_ref_def Let_def word_unat_eq_iff)
qed

text \<open>
  C36: \<open>Device.size = nsectors * logical_block_size\<close> is the size the parameters
  describe exactly when their \<open>int\<close> product lies in \<open>[0, 2^31)\<close>.  The module
  parameters are not validated: a negative product is sign-extended to a size near
  \<open>2^64\<close>, and a product of \<open>2^31\<close> or more wraps in 32 bits first.
\<close>

theorem device_size_exact_iff:
  "uint (device_size p) = sint (nsectors p) * sint (logical_block_size p) \<longleftrightarrow>
   0 \<le> sint (nsectors p) * sint (logical_block_size p) \<and> sint (nsectors p) * sint (logical_block_size p) < 2 ^ 31"
proof -
  let ?w = "nsectors p * logical_block_size p" and ?P = "sint (nsectors p) * sint (logical_block_size p)"
  have u: "uint (device_size p) = sint ?w mod 2 ^ 64" by (simp add: device_size_def uint_scast_sint)
  have w: "- (2 ^ 31) \<le> sint ?w" "sint ?w < 2 ^ 31" using sint_ge [of ?w] sint_less [of ?w] by simp_all
  have P: "?P \<le> 2 ^ 62" using sint_prod_bound [of "nsectors p" "logical_block_size p"] by simp
  show ?thesis
  proof
    assume eq: "uint (device_size p) = ?P"
    show "0 \<le> ?P \<and> ?P < 2 ^ 31"
    proof (cases "0 \<le> sint ?w")
      case True
      with w u eq show ?thesis by simp
    next
      case False
      have "sint ?w mod 2 ^ 64 = (sint ?w + 2 ^ 64) mod 2 ^ 64" by simp
      also have "\<dots> = sint ?w + 2 ^ 64" using False w by (intro mod_pos_pos_trivial) simp_all
      finally have "uint (device_size p) = sint ?w + 2 ^ 64" using u by simp
      with eq w P show ?thesis by simp
    qed
  next
    assume "0 \<le> ?P \<and> ?P < 2 ^ 31"
    then have "sint ?w = ?P" using sint_mult_in_range [of "nsectors p" "logical_block_size p"] by simp
    with \<open>0 \<le> ?P \<and> ?P < 2 ^ 31\<close> u show "uint (device_size p) = ?P" by simp
  qed
qed

section \<open>Witnesses\<close>

lemma sbd_init_exit_leaks_first_area_witness:
  "fst (sbd_init sbd_default_params ex_env init_module_state) = 0 \<and>
   live (sbd_exit (snd (sbd_init sbd_default_params ex_env init_module_state))) = {R_area 0}"
proof -
  have ok: "sbd_init sbd_default_params ex_env init_module_state =
              (0, snd (sbd_init sbd_default_params ex_env init_module_state))"
    by (simp add: sbd_init_unfold ex_env_def)
  have "env_wf ex_env" "live init_module_state = {}" "next_area init_module_state = 0"
    by (simp_all add: env_wf_def ex_env_def init_module_state_def)
  moreover have "fst (sbd_init sbd_default_params ex_env init_module_state) = 0"
    using ok by (metis fst_conv)
  ultimately show ?thesis using sbd_init_exit_leaks_first_area [OF ok] by simp
qed

lemma sbd_init_failure_leaks_witness:
  "fst (sbd_init sbd_default_params (ex_env\<lparr>alloc_disk_ok := False\<rparr>) init_module_state) = - 12 \<and>
   live (snd (sbd_init sbd_default_params (ex_env\<lparr>alloc_disk_ok := False\<rparr>) init_module_state)) \<noteq> {}"
proof -
  let ?e = "ex_env\<lparr>alloc_disk_ok := False\<rparr>"
  have r: "sbd_init sbd_default_params ?e init_module_state =
             (- 12, snd (sbd_init sbd_default_params ?e init_module_state))"
    by (simp add: sbd_init_unfold ex_env_def)
  have "env_wf ?e" "live init_module_state = {}" "alloc_cipher_err ?e = None"
    by (simp_all add: env_wf_def ex_env_def init_module_state_def)
  moreover have "fst (sbd_init sbd_default_params ?e init_module_state) = - 12"
    using r by (metis fst_conv)
  ultimately show ?thesis using sbd_init_failure_leaks [OF r] by simp
qed

lemma sbd_init_capacity_mismatch_witness:
  "fst (sbd_init ex_params4096 ex_env init_module_state) = 0 \<and>
   unat (disk_capacity (snd (sbd_init ex_params4096 ex_env init_module_state))) * KERNEL_SECTOR_SIZE \<noteq>
   unat (m_dev_size (snd (sbd_init ex_params4096 ex_env init_module_state)))"
proof -
  have ok: "sbd_init ex_params4096 ex_env init_module_state =
              (0, snd (sbd_init ex_params4096 ex_env init_module_state))"
    by (simp add: sbd_init_unfold ex_env_def)
  have "env_wf ex_env" "0 < sint (nsectors ex_params4096)" "0 < sint (logical_block_size ex_params4096)"
    "sint (nsectors ex_params4096) * sint (logical_block_size ex_params4096) < 2 ^ 31"
    "logical_block_size ex_params4096 \<noteq> 512"
    by (simp_all add: env_wf_def ex_env_def ex_params4096_def)
  moreover have "fst (sbd_init ex_params4096 ex_env init_module_state) = 0"
    using ok by (metis fst_conv)
  ultimately show ?thesis using sbd_init_capacity_mismatch [OF ok] by simp
qed

lemma sbd_getgeo_counts_bytes_as_sectors_witness:
  "unat (geo_heads (snd (sbd_getgeo sbd_default_params ex_default_device))) *
   unat (geo_sectors (snd (sbd_getgeo sbd_default_params ex_default_device))) *
   unat (geo_cylinders (snd (sbd_getgeo sbd_default_params ex_default_device))) = 524288"
  using sbd_getgeo_counts_bytes_as_sectors [of sbd_default_params ex_default_device]
  by (simp add: sbd_default_params_def ex_default_device_def)

lemma sbd_getgeo_equiv_ref_witness:
  "sbd_getgeo ex_params4096 ex_default_device = (0, getgeo_ref ex_params4096 ex_default_device) \<and>
   geo_cylinders (snd (sbd_getgeo ex_params4096 ex_default_device)) = 0"
proof -
  have "0 \<le> sint (logical_block_size ex_params4096)"
    "unat (dev_size (Device ex_default_device)) * nat (sint (logical_block_size ex_params4096) div int KERNEL_SECTOR_SIZE) < 2 ^ 63"
    by (simp_all add: ex_params4096_def ex_default_device_def KERNEL_SECTOR_SIZE_def)
  from sbd_getgeo_equiv_ref [OF this] show ?thesis
    by (simp add: getgeo_ref_def ex_params4096_def ex_default_device_def KERNEL_SECTOR_SIZE_def)
qed

lemma device_size_exact_iff_witness:
  "uint (device_size \<lparr>logical_block_size = 512, nsectors = 4194304\<rparr>) \<noteq> 2147483648"
  using device_size_exact_iff [of "\<lparr>logical_block_size = 512, nsectors = 4194304\<rparr>"] by simp

end
