(* ===== verification/Driver.thy ===== *)
theory Driver
  imports Init
begin

text \<open>
  The driver as the kernel drives it: the entry points the module registers and a
  machine whose steps are calls of them.  \<open>DEVICE_ATTR(key, 0600, key_display,
  key_store)\<close> (line 91) makes a write of the sysfs file \<open>key\<close> call \<open>key_store\<close> and a
  read call \<open>key_display\<close>; \<open>blk_init_queue(sbd_request, ...)\<close> (line 233) makes the
  block layer call \<open>sbd_request\<close> when it unplugs the queue, after it has queued
  requests; \<open>sbd_ops\<close> (lines 200-203) routes the geometry ioctl to \<open>sbd_getgeo\<close>.
  Each call runs under its lock, so each is one step.  \<open>sbd_dispatch\<close> is one step,
  \<open>sbd_run\<close> a sequence of them (stopping at a fault, and \<open>None\<close> when a call does not
  return), and \<open>reachable\<close> the states a loaded module can get to.  A loaded module
  starts from \<open>sbd_boot\<close>: the zero-initialised globals, no key, and the device buffer
  \<open>sbd_init\<close> allocated, whose contents \<open>vmalloc\<close> leaves arbitrary.
\<close>

section \<open>Events and steps\<close>

datatype event =
    Key_write bytes
  | Key_read
  | Submit request
  | Unplug
  | Getgeo

datatype reply =
    No_reply
  | Store_reply "errno + nat"
  | Show_reply bytes
  | Geo_reply hd_geometry

definition sbd_boot :: "sbd_params \<Rightarrow> bytes \<Rightarrow> blk_state" where
  "sbd_boot p data =
     \<lparr>klog = [], crypto_key = replicate KEY_SIZE 0, key_size = 0,
      Device = \<lparr>dev_size = device_size p, dev_data = data\<rparr>,
      tfm = \<lparr>crt_flags = 0, crt_key = []\<rparr>, queue = [], completed = []\<rparr>"

text \<open>One call of an entry point, with what it returns to its caller.\<close>

definition sbd_dispatch ::
  "cipher \<Rightarrow> sbd_params \<Rightarrow> 'a blk_state_scheme \<Rightarrow> event \<Rightarrow> (fault + reply \<times> 'a blk_state_scheme) option" where
  "sbd_dispatch c p st ev =
     (case ev of
        Key_write buf \<Rightarrow> (case key_store st buf of (r, st') \<Rightarrow> Some (Inr (Store_reply r, st')))
      | Key_read \<Rightarrow>
          (case key_display st of (Inl e, _) \<Rightarrow> Some (Inl e) | (Inr out, st') \<Rightarrow> Some (Inr (Show_reply out, st')))
      | Submit r \<Rightarrow> Some (Inr (No_reply, st\<lparr>queue := queue st @ [r]\<rparr>))
      | Unplug \<Rightarrow> map_option (map_sum id (\<lambda>st'. (No_reply, st'))) (sbd_request c p st)
      | Getgeo \<Rightarrow> Some (Inr (Geo_reply (snd (sbd_getgeo p st)), st)))"

fun sbd_run ::
  "cipher \<Rightarrow> sbd_params \<Rightarrow> 'a blk_state_scheme \<Rightarrow> event list \<Rightarrow> (fault + reply list \<times> 'a blk_state_scheme) option" where
  "sbd_run c p st [] = Some (Inr ([], st))"
| "sbd_run c p st (ev # evs) =
     (case sbd_dispatch c p st ev of
        None \<Rightarrow> None
      | Some (Inl e) \<Rightarrow> Some (Inl e)
      | Some (Inr (out, st1)) \<Rightarrow>
          (case sbd_run c p st1 evs of
             None \<Rightarrow> None
           | Some (Inl e) \<Rightarrow> Some (Inl e)
           | Some (Inr (outs, st2)) \<Rightarrow> Some (Inr (out # outs, st2))))"

text \<open>The requests a sequence of events submits, in order.\<close>

fun submitted :: "event list \<Rightarrow> request list" where
  "submitted [] = []"
| "submitted (Submit r # evs) = r # submitted evs"
| "submitted (_ # evs) = submitted evs"

text \<open>The states a loaded module reaches: the boot state, then any successful step.\<close>

inductive reachable :: "cipher \<Rightarrow> sbd_params \<Rightarrow> blk_state \<Rightarrow> bool" where
  boot: "length data = unat (device_size p) \<Longrightarrow> reachable c p (sbd_boot p data)"
| step: "reachable c p st \<Longrightarrow> sbd_dispatch c p st ev = Some (Inr (out, st')) \<Longrightarrow> reachable c p st'"

text \<open>
  The conformance of a driver state: the key store's invariant, and a device buffer of
  the size \<open>sbd_init\<close> gave it.  \<open>rq_ids\<close> lists the requests the driver has seen: the
  completed ones, then the queued ones.
\<close>

definition driver_conf :: "sbd_params \<Rightarrow> 'a blk_state_scheme \<Rightarrow> bool" where
  "driver_conf p st \<longleftrightarrow> sbd_wf st \<and> dev_size (Device st) = device_size p"

definition rq_ids :: "'a blk_state_scheme \<Rightarrow> nat list" where
  "rq_ids st = map completion_id (completed st) @ map rq_id (queue st)"

text \<open>
  An example: the module loaded with 16-byte sectors (a 400-byte device) after a
  16-byte key was written.
\<close>

definition ex_keyed_driver :: blk_state where
  "ex_keyed_driver = snd (key_store (sbd_boot ex_params16 (replicate 400 0)) (replicate 16 7))"

section \<open>Lemmas\<close>

lemma key_store_blk_fields [simp]:
  "Device (snd (key_store st k)) = Device st" "queue (snd (key_store st k)) = queue st"
  "completed (snd (key_store st k)) = completed st"
  by (simp_all add: key_store_def Let_def printk_def)

lemma key_display_blk_fields [simp]:
  "Device (snd (key_display st)) = Device st" "queue (snd (key_display st)) = queue st"
  "completed (snd (key_display st)) = completed st"
  by (simp_all add: key_display_def Let_def printk_def)

lemma sbd_dispatch_Inr_cases:
  assumes "sbd_dispatch c p st ev = Some (Inr (out, st'))"
  obtains (Store) buf where "ev = Key_write buf" "st' = snd (key_store st buf)"
  | (Show) "ev = Key_read" "st' = snd (key_display st)"
  | (Submit) r where "ev = Submit r" "st' = st\<lparr>queue := queue st @ [r]\<rparr>"
  | (Unplug) "ev = Unplug" "sbd_request c p st = Some (Inr st')"
  | (Geo) "ev = Getgeo" "st' = st"
  using assms
  by (cases ev) (auto simp: sbd_dispatch_def split: prod.splits sum.splits)

lemma sbd_dispatch_conf:
  assumes "sbd_dispatch c p st ev = Some (Inr (out, st'))" and "driver_conf p st"
  shows "driver_conf p st'"
  using assms(1)
proof (cases rule: sbd_dispatch_Inr_cases)
  case (Store buf)
  with assms(2) key_store_inv [of st buf] show ?thesis by (simp add: driver_conf_def sbd_wf_def)
next
  case Show
  with assms(2) show ?thesis by (simp add: driver_conf_def sbd_wf_def key_inv_def)
next
  case (Unplug)
  with assms(2) sbd_request_frame [of c p st st'] show ?thesis
    by (simp add: driver_conf_def sbd_wf_def key_inv_def blk_frame_def)
qed (use assms(2) in \<open>simp_all add: driver_conf_def sbd_wf_def key_inv_def\<close>)

lemma sbd_dispatch_ids:
  assumes "sbd_dispatch c p st ev = Some (Inr (out, st'))"
  shows "rq_ids st' = rq_ids st @ map rq_id (submitted [ev]) \<and>
         (\<exists>new. completed st' = completed st @ new \<and> (\<forall>x\<in>set new. completion_err x = None))"
  using assms
proof (cases rule: sbd_dispatch_Inr_cases)
  case Unplug
  then show ?thesis using sbd_request_Inr_ids [OF Unplug(2)] by (auto simp: rq_ids_def)
qed (auto simp: rq_ids_def)

lemma reachable_driver_conf:
  "reachable c p st \<Longrightarrow> driver_conf p st"
proof (induction rule: reachable.induct)
  case (boot data p c)
  then show ?case
    by (simp add: driver_conf_def sbd_wf_def key_inv_def sbd_boot_def KEY_SIZE_def)
next
  case (step c p st ev out st')
  then show ?case by (blast intro: sbd_dispatch_conf)
qed

lemma sbd_dispatch_queue:
  assumes "sbd_dispatch c p st ev = Some (Inr (out, st'))"
  shows "queue st' = (case ev of Submit r \<Rightarrow> queue st @ [r] | Unplug \<Rightarrow> [] | _ \<Rightarrow> queue st)"
  using assms
proof (cases rule: sbd_dispatch_Inr_cases)
  case Unplug
  then show ?thesis using sbd_request_Inr_ids [OF Unplug(2)] by simp
qed simp_all

lemma ex_keyed_driver_reachable: "reachable add_cipher ex_params16 ex_keyed_driver"
proof -
  have "reachable add_cipher ex_params16 (sbd_boot ex_params16 (replicate 400 0))"
    by (rule reachable.boot) (simp add: device_size_def ex_params16_def)
  then show ?thesis
    by (rule reachable.step [where ev = "Key_write (replicate 16 7)" and out = "Store_reply (Inr 16)"])
       (simp add: sbd_dispatch_def ex_keyed_driver_def key_store_def Let_def)
qed

text \<open>The rewrite rules that evaluate runs from the boot state.\<close>

lemmas driver_eval = ex_request_eval sbd_boot_def device_size_def sbd_dispatch_def key_store_def
  snprintf_key_def KEY_SIZE_def key_display_def PAGE_SIZE_def

section \<open>Properties of the driver\<close>

text \<open>
  C27: Every state a loaded module reaches conforms: the key array keeps its 32 bytes
  and a NUL byte, the key length is 0, 16, 24 or 32, and the device buffer keeps the
  size \<open>sbd_init\<close> gave it, whatever sequence of key writes, key reads, requests and
  geometry queries led there.
\<close>

theorem reachable_state_conforms:
  assumes "reachable c p st"
  shows "length (crypto_key st) = KEY_SIZE \<and> 0 \<in> set (crypto_key st) \<and> key_size st \<in> {0, 16, 24, 32} \<and>
         dev_size (Device st) = device_size p \<and> length (dev_data (Device st)) = unat (device_size p)"
  using reachable_driver_conf [OF assms] by (simp add: driver_conf_def sbd_wf_def key_inv_def)

text \<open>
  C28: In every reachable state a read of the sysfs key file succeeds (it never reads
  past the key array) and returns the key up to its first NUL byte and a newline.
\<close>

theorem reachable_key_read_total:
  assumes "reachable c p st"
  shows "\<exists>out st'. sbd_dispatch c p st Key_read = Some (Inr (Show_reply out, st')) \<and>
           out = takeWhile (\<lambda>b. b \<noteq> 0) (crypto_key st) @ [10]"
proof -
  from reachable_driver_conf [OF assms] have "key_inv st" by (simp add: driver_conf_def sbd_wf_def)
  then have "0 \<in> set (crypto_key st)" and "length (crypto_key st) = KEY_SIZE" by (simp_all add: key_inv_def)
  moreover have "length (takeWhile (\<lambda>b. b \<noteq> 0) (crypto_key st)) \<le> length (crypto_key st)"
    by (rule length_takeWhile_le)
  ultimately show ?thesis
    by (simp add: sbd_dispatch_def key_display_def Let_def printk_def PAGE_SIZE_def KEY_SIZE_def)
qed

text \<open>
  C29: Over any sequence of events that neither faults nor hangs, the driver completes
  requests in the order they were submitted: the completed requests followed by the
  queued ones are always the earlier ones followed by the newly submitted ones, and
  every completion the sequence adds has status 0.
\<close>

theorem sbd_run_fifo:
  "sbd_run c p st evs = Some (Inr (outs, st')) \<Longrightarrow>
   rq_ids st' = rq_ids st @ map rq_id (submitted evs) \<and>
   (\<exists>new. completed st' = completed st @ new \<and> (\<forall>x\<in>set new. completion_err x = None))"
proof (induction evs arbitrary: st outs)
  case Nil
  then show ?case by simp
next
  case (Cons ev evs)
  then obtain out st1 outs1 where d: "sbd_dispatch c p st ev = Some (Inr (out, st1))"
    and r: "sbd_run c p st1 evs = Some (Inr (outs1, st'))"
    by (auto split: option.splits sum.splits prod.splits)
  have "submitted (ev # evs) = submitted [ev] @ submitted evs" by (cases ev) simp_all
  with sbd_dispatch_ids [OF d] Cons.IH [OF r] show ?case by fastforce
qed

text \<open>
  C30: A driver that is only ever given filesystem requests never hangs: every sequence
  of events returns (possibly with a fault).
\<close>

theorem sbd_run_fs_returns:
  "list_all (\<lambda>r. cmd_type r = REQ_TYPE_FS) (queue st) \<Longrightarrow>
   list_all (\<lambda>r. cmd_type r = REQ_TYPE_FS) (submitted evs) \<Longrightarrow> sbd_run c p st evs \<noteq> None"
proof (induction evs arbitrary: st)
  case Nil
  then show ?case by simp
next
  case (Cons ev evs)
  have sub: "list_all (\<lambda>r. cmd_type r = REQ_TYPE_FS) (submitted [ev])"
    and subs: "list_all (\<lambda>r. cmd_type r = REQ_TYPE_FS) (submitted evs)"
    using Cons.prems(2) by (cases ev; simp)+
  have d: "sbd_dispatch c p st ev \<noteq> None"
    using sbd_request_fs_not_None [OF Cons.prems(1), of c p]
    by (cases ev) (auto simp: sbd_dispatch_def split: prod.splits sum.splits)
  show ?case
  proof (cases "sbd_dispatch c p st ev")
    case (Some res)
    show ?thesis
    proof (cases res)
      case (Inr x)
      obtain out st1 where x: "x = (out, st1)" by fastforce
      with Some Inr have "list_all (\<lambda>r. cmd_type r = REQ_TYPE_FS) (queue st1)"
        using sbd_dispatch_queue [of c p st ev out st1] Cons.prems(1) sub
        by (cases ev) simp_all
      from Cons.IH [OF this subs] Some Inr x show ?thesis
        by (auto split: option.splits sum.splits)
    qed (use Some in simp)
  qed (use d in simp)
qed

section \<open>Witnesses\<close>

lemma reachable_state_conforms_witness:
  "key_size ex_keyed_driver = 16 \<and> length (crypto_key ex_keyed_driver) = KEY_SIZE \<and>
   dev_size (Device ex_keyed_driver) = device_size ex_params16"
  using reachable_state_conforms [OF ex_keyed_driver_reachable]
  by (simp add: ex_keyed_driver_def key_store_def Let_def printk_def)

lemma reachable_key_read_total_witness:
  "\<exists>out st'. sbd_dispatch add_cipher ex_params16 ex_keyed_driver Key_read = Some (Inr (Show_reply out, st')) \<and>
     out = replicate 16 7 @ [10]"
  using reachable_key_read_total [OF ex_keyed_driver_reachable]
  by (simp add: ex_keyed_driver_def driver_eval)

lemma sbd_run_fifo_witness:
  "\<exists>outs st'. sbd_run add_cipher ex_params16 (sbd_boot ex_params16 (replicate 400 0))
     [Submit (ex_request 1 REQ_TYPE_FS 0), Key_write (replicate 16 7), Submit (ex_request 2 REQ_TYPE_FS 3), Unplug]
     = Some (Inr (outs, st')) \<and> map completion_id (completed st') = [1, 2] \<and> queue st' = []"
proof -
  have "\<exists>outs st'. sbd_run add_cipher ex_params16 (sbd_boot ex_params16 (replicate 400 0))
     [Submit (ex_request 1 REQ_TYPE_FS 0), Key_write (replicate 16 7), Submit (ex_request 2 REQ_TYPE_FS 3), Unplug]
     = Some (Inr (outs, st'))"
    by (simp add: driver_eval)
  then obtain outs st' where r: "sbd_run add_cipher ex_params16 (sbd_boot ex_params16 (replicate 400 0))
     [Submit (ex_request 1 REQ_TYPE_FS 0), Key_write (replicate 16 7), Submit (ex_request 2 REQ_TYPE_FS 3), Unplug]
     = Some (Inr (outs, st'))" by blast
  from sbd_run_fifo [OF r] have "rq_ids st' = [1, 2]"
    by (simp add: rq_ids_def sbd_boot_def ex_request_def)
  moreover have "queue st' = []"
    using r by (auto simp: driver_eval)
  ultimately show ?thesis using r by (simp add: rq_ids_def)
qed

lemma sbd_run_fs_returns_witness:
  "sbd_run add_cipher ex_params16 (sbd_boot ex_params16 (replicate 400 0))
     [Submit (ex_request 1 REQ_TYPE_FS 0), Unplug, Submit (ex_request 2 REQ_TYPE_FS 3), Key_read, Unplug] \<noteq> None"
  by (rule sbd_run_fs_returns) (simp_all add: sbd_boot_def ex_request_def)

end
