(* ===== verification/Lifecycle.thy ===== *)
theory Lifecycle
  imports Driver
begin

text \<open>
  The module's life in the kernel: \<open>module_init(sbd_init)\<close> and
  \<open>module_exit(sbd_exit)\<close> (lines 295-296) make \<open>insmod\<close> run \<open>sbd_init\<close> and, when it
  returns 0, make the driver's entry points callable until \<open>rmmod\<close> runs \<open>sbd_exit\<close>.
  The system state pairs the kernel-side state of the module (\<open>module_state\<close>, from
  \<open>Init\<close>: live resources, the buffer \<open>Device.data\<close> points to, registration) with the
  driver's state while it is loaded (a \<open>blk_state\<close>, from \<open>Driver\<close>, and the module
  parameters it was loaded with).  A load starts the driver from \<open>sbd_boot\<close>, with the
  zero-initialised globals of a fresh module image and the \<open>Device.size\<close> bytes of the
  buffer \<open>vmalloc\<close> returned, whose contents are the input \<open>fill\<close>.  A call reaches
  the driver only while it is loaded.
\<close>

section \<open>The system\<close>

record lsys =
  sys_mod :: module_state
  sys_drv :: "(sbd_params \<times> blk_state) option"

datatype sys_event =
    Insmod sbd_params init_env "nat \<Rightarrow> byte"
  | Rmmod
  | Call event

definition init_lsys :: lsys where
  "init_lsys = \<lparr>sys_mod = init_module_state, sys_drv = None\<rparr>"

text \<open>\<open>insmod\<close>: a module that is already loaded is not loaded again.\<close>

definition module_load :: "sbd_params \<Rightarrow> init_env \<Rightarrow> (nat \<Rightarrow> byte) \<Rightarrow> lsys \<Rightarrow> lsys" where
  "module_load p env fill s =
     (case sys_drv s of
        Some _ \<Rightarrow> s
      | None \<Rightarrow>
          (case sbd_init p env (sys_mod s) of
             (r, m) \<Rightarrow>
               \<lparr>sys_mod = m,
                sys_drv = (if r = 0 then Some (p, sbd_boot p (map fill [0..<unat (m_dev_size m)])) else None)\<rparr>))"

text \<open>\<open>rmmod\<close>: \<open>sbd_exit\<close> runs only for a loaded module; the driver's state is gone.\<close>

definition module_unload :: "lsys \<Rightarrow> lsys" where
  "module_unload s =
     (case sys_drv s of
        None \<Rightarrow> s
      | Some _ \<Rightarrow> \<lparr>sys_mod = sbd_exit (sys_mod s), sys_drv = None\<rparr>)"

definition sys_step :: "cipher \<Rightarrow> lsys \<Rightarrow> sys_event \<Rightarrow> (fault + lsys) option" where
  "sys_step c s ev =
     (case ev of
        Insmod p env fill \<Rightarrow> Some (Inr (module_load p env fill s))
      | Rmmod \<Rightarrow> Some (Inr (module_unload s))
      | Call e \<Rightarrow>
          (case sys_drv s of
             None \<Rightarrow> Some (Inr s)
           | Some (p, d) \<Rightarrow> map_option (map_sum id (\<lambda>(out, d'). s\<lparr>sys_drv := Some (p, d')\<rparr>)) (sbd_dispatch c p d e)))"

fun sys_run :: "cipher \<Rightarrow> lsys \<Rightarrow> sys_event list \<Rightarrow> (fault + lsys) option" where
  "sys_run c s [] = Some (Inr s)"
| "sys_run c s (ev # evs) =
     (case sys_step c s ev of
        None \<Rightarrow> None
      | Some (Inl e) \<Rightarrow> Some (Inl e)
      | Some (Inr s') \<Rightarrow> sys_run c s' evs)"

text \<open>The kernel answers \<open>insmod\<close> as it does (\<open>env_wf\<close>); the reachable systems.\<close>

definition sys_event_wf :: "sys_event \<Rightarrow> bool" where
  "sys_event_wf ev = (case ev of Insmod p env fill \<Rightarrow> env_wf env | _ \<Rightarrow> True)"

inductive sys_reachable :: "cipher \<Rightarrow> lsys \<Rightarrow> bool" where
  init: "sys_reachable c init_lsys"
| step: "sys_reachable c s \<Longrightarrow> sys_event_wf ev \<Longrightarrow> sys_step c s ev = Some (Inr s') \<Longrightarrow> sys_reachable c s'"

text \<open>
  What holds while the module is loaded: the driver is in a state the driver machine
  reaches, its device has the size \<open>sbd_init\<close> stored, every resource \<open>sbd_init\<close>
  acquired is held, the gendisk is added with \<open>nsectors\<close> sectors, and
  \<open>Device.data\<close> points to a live buffer.
\<close>

definition loaded_resources :: "resource set" where
  "loaded_resources = {R_cipher, R_queue, R_blkdev, R_disk, R_root_dev, R_key_attr}"

definition loaded_conf :: "cipher \<Rightarrow> lsys \<Rightarrow> bool" where
  "loaded_conf c s \<longleftrightarrow>
     (case sys_drv s of
        None \<Rightarrow> True
      | Some (p, d) \<Rightarrow>
          reachable c p d \<and> m_dev_size (sys_mod s) = device_size p \<and>
          dev_size (Device d) = m_dev_size (sys_mod s) \<and>
          loaded_resources \<subseteq> live (sys_mod s) \<and>
          disk_added (sys_mod s) \<and> disk_capacity (sys_mod s) = scast (nsectors p) \<and>
          (case data_area (sys_mod s) of None \<Rightarrow> False | Some a \<Rightarrow> R_area a \<in> live (sys_mod s)))"

text \<open>A kernel in which every call \<open>sbd_init\<close> makes succeeds.\<close>

definition env_ok :: "init_env \<Rightarrow> bool" where
  "env_ok env \<longleftrightarrow>
     alloc_cipher_err env = None \<and> (\<forall>n. vmalloc_ok env n) \<and> blk_init_queue_ok env \<and>
     0 \<le> sint (register_blkdev_ret env) \<and> alloc_disk_ok env \<and>
     0 \<le> sint (device_register_ret env) \<and> 0 \<le> sint (device_create_file_ret env)"

text \<open>\<open>k\<close> load and unload cycles with the buffer contents \<open>fills\<close>.\<close>

definition reload_cycles :: "sbd_params \<Rightarrow> init_env \<Rightarrow> (nat \<Rightarrow> byte) list \<Rightarrow> sys_event list" where
  "reload_cycles p env fills = concat (map (\<lambda>f. [Insmod p env f, Rmmod]) fills)"

section \<open>Lemmas\<close>

lemma sbd_init_success_state:
  assumes "sbd_init p env st = (0, st')" and "env_wf env"
  shows "loaded_resources \<subseteq> live st'" and "disk_added st'" and "disk_capacity st' = scast (nsectors p)"
    and "m_dev_size st' = device_size p"
    and "case data_area st' of None \<Rightarrow> False | Some a \<Rightarrow> R_area a \<in> live st'"
  using assms
  by (auto simp: sbd_init_unfold loaded_resources_def env_wf_def split: option.splits if_splits prod.splits)

lemma sbd_init_exit_cycle:
  assumes "env_ok env"
  shows "fst (sbd_init p env st) = 0"
    and "live (sbd_exit (snd (sbd_init p env st))) =
           insert (R_area (next_area st)) (live st - insert (R_area (Suc (next_area st))) loaded_resources)"
    and "next_area (sbd_exit (snd (sbd_init p env st))) = Suc (Suc (next_area st))"
proof -
  from assms have e: "alloc_cipher_err env = None" "\<And>n. vmalloc_ok env n" "blk_init_queue_ok env"
    "\<not> sint (register_blkdev_ret env) < 0" "alloc_disk_ok env" "\<not> sint (device_register_ret env) < 0"
    "\<not> sint (device_create_file_ret env) < 0"
    by (auto simp: env_ok_def)
  then show "fst (sbd_init p env st) = 0"
    and "next_area (sbd_exit (snd (sbd_init p env st))) = Suc (Suc (next_area st))"
    by (simp_all add: sbd_init_unfold sbd_exit_def)
  from e show "live (sbd_exit (snd (sbd_init p env st))) =
           insert (R_area (next_area st)) (live st - insert (R_area (Suc (next_area st))) loaded_resources)"
    by (simp add: sbd_init_unfold sbd_exit_def loaded_resources_def) (rule set_eqI, auto)
qed

lemma module_load_unload_cycle:
  assumes "env_ok env" and "sys_drv s = None"
  shows "sys_drv (module_unload (module_load p env fill s)) = None"
    and "live (sys_mod (module_unload (module_load p env fill s))) =
           insert (R_area (next_area (sys_mod s)))
             (live (sys_mod s) - insert (R_area (Suc (next_area (sys_mod s)))) loaded_resources)"
    and "next_area (sys_mod (module_unload (module_load p env fill s))) = Suc (Suc (next_area (sys_mod s)))"
proof -
  obtain r m where i: "sbd_init p env (sys_mod s) = (r, m)" by fastforce
  note cyc = sbd_init_exit_cycle [OF assms(1), of p "sys_mod s", unfolded i, simplified]
  have "module_unload (module_load p env fill s) = \<lparr>sys_mod = sbd_exit m, sys_drv = None\<rparr>"
    using assms(2) i cyc(1) by (simp add: module_load_def module_unload_def)
  with cyc show "sys_drv (module_unload (module_load p env fill s)) = None"
    and "live (sys_mod (module_unload (module_load p env fill s))) =
           insert (R_area (next_area (sys_mod s)))
             (live (sys_mod s) - insert (R_area (Suc (next_area (sys_mod s)))) loaded_resources)"
    and "next_area (sys_mod (module_unload (module_load p env fill s))) = Suc (Suc (next_area (sys_mod s)))"
    by simp_all
qed

lemma reload_cycles_run:
  assumes ok: "env_ok env" and "sys_drv s = None"
    and "live (sys_mod s) = (\<lambda>i. R_area (2 * i)) ` {..<k}" and "next_area (sys_mod s) = 2 * k"
  shows "\<exists>s'. sys_run c s (reload_cycles p env fills) = Some (Inr s') \<and> sys_drv s' = None \<and>
           live (sys_mod s') = (\<lambda>i. R_area (2 * i)) ` {..<k + length fills} \<and>
           next_area (sys_mod s') = 2 * (k + length fills)"
  using assms(2-4)
proof (induction fills arbitrary: s k)
  case Nil
  then show ?case by (simp add: reload_cycles_def)
next
  case (Cons f fills)
  let ?s1 = "module_unload (module_load p env f s)"
  note cyc = module_load_unload_cycle [OF ok Cons.prems(1), of p f]
  have "(\<lambda>i. R_area (2 * i)) ` {..<k} - insert (R_area (Suc (2 * k))) loaded_resources = (\<lambda>i. R_area (2 * i)) ` {..<k}"
    by (auto simp: loaded_resources_def)
  then have "live (sys_mod ?s1) = (\<lambda>i. R_area (2 * i)) ` {..<Suc k}"
    using cyc(2) Cons.prems by (simp add: lessThan_Suc)
  moreover have "next_area (sys_mod ?s1) = 2 * Suc k" using cyc(3) Cons.prems(3) by simp
  ultimately obtain s' where "sys_run c ?s1 (reload_cycles p env fills) = Some (Inr s')" "sys_drv s' = None"
    "live (sys_mod s') = (\<lambda>i. R_area (2 * i)) ` {..<Suc k + length fills}"
    "next_area (sys_mod s') = 2 * (Suc k + length fills)"
    using Cons.IH [OF cyc(1)] by blast
  then show ?case by (simp add: reload_cycles_def sys_step_def)
qed

text \<open>The three kinds of step keep a loaded module conforming.\<close>

lemma module_load_conf:
  assumes "loaded_conf c s" and "env_wf env"
  shows "loaded_conf c (module_load p env fill s)"
proof (cases "sys_drv s")
  case None
  obtain r m where i: "sbd_init p env (sys_mod s) = (r, m)" by fastforce
  show ?thesis
  proof (cases "r = 0")
    case True
    note ok = sbd_init_success_state [OF i [unfolded True] assms(2)]
    have "reachable c p (sbd_boot p (map fill [0..<unat (m_dev_size m)]))"
      by (rule reachable.boot) (simp add: ok(4))
    with ok None i True show ?thesis
      by (simp add: module_load_def loaded_conf_def sbd_boot_def split: option.splits)
  next
    case False
    with None i show ?thesis by (simp add: module_load_def loaded_conf_def)
  qed
next
  case (Some x)
  with assms(1) show ?thesis by (simp add: module_load_def)
qed

lemma module_unload_conf: "loaded_conf c (module_unload s)"
  by (simp add: module_unload_def loaded_conf_def split: option.splits)

lemma sys_step_call_conf:
  assumes "loaded_conf c s" and "sys_step c s (Call e) = Some (Inr s')"
  shows "loaded_conf c s'"
proof (cases "sys_drv s")
  case None
  with assms show ?thesis by (simp add: sys_step_def)
next
  case (Some x)
  obtain p d where x: "x = (p, d)" by fastforce
  from Some x assms(2) obtain out d' where
    disp: "sbd_dispatch c p d e = Some (Inr (out, d'))" and s': "s' = s\<lparr>sys_drv := Some (p, d')\<rparr>"
    by (auto simp: sys_step_def split: sum.splits)
  from assms(1) Some x have r: "reachable c p d" by (simp add: loaded_conf_def)
  have r': "reachable c p d'" by (rule reachable.step [OF r disp])
  from reachable_driver_conf [OF r'] have "dev_size (Device d') = device_size p"
    by (simp add: driver_conf_def)
  with r' assms(1) Some x s' show ?thesis by (simp add: loaded_conf_def split: option.splits)
qed

section \<open>Properties of the module's life\<close>

text \<open>
  C33: In every system the kernel can reach by loading, unloading and calling the
  module, a loaded module conforms: its driver state is one the driver machine reaches
  (so every property of \<open>reachable\<close> states holds of it), its device has the size
  \<open>sbd_init\<close> computed, all the resources \<open>sbd_init\<close> acquired are held, the gendisk is
  added with \<open>nsectors\<close> sectors, and \<open>Device.data\<close> points to a live buffer.
\<close>

theorem sys_reachable_loaded_conf:
  "sys_reachable c s \<Longrightarrow> loaded_conf c s"
proof (induction rule: sys_reachable.induct)
  case (init c)
  then show ?case by (simp add: init_lsys_def loaded_conf_def)
next
  case (step c s ev s')
  then show ?case
    by (cases ev) (auto simp: sys_step_def sys_event_wf_def module_unload_conf
        intro: module_load_conf sys_step_call_conf)
qed

text \<open>
  C34: Loading and unloading the module leaks one device buffer per cycle, for ever: in
  a kernel where every call succeeds, after \<open>k\<close> load and unload cycles from a fresh
  kernel the module holds nothing but the \<open>k\<close> first buffers of the \<open>k\<close> loads (the first
  of each pair \<open>vmalloc\<close> returned), each \<open>Device.size\<close> bytes.
\<close>

theorem reload_cycles_leak:
  assumes "env_ok env"
  shows "\<exists>s. sys_run c init_lsys (reload_cycles p env fills) = Some (Inr s) \<and> sys_drv s = None \<and>
           live (sys_mod s) = (\<lambda>i. R_area (2 * i)) ` {..<length fills}"
  using reload_cycles_run [OF assms, of init_lsys 0 c p fills] by (auto simp: init_lsys_def init_module_state_def)

section \<open>Witnesses\<close>

lemma sys_reachable_loaded_conf_witness:
  "sys_reachable add_cipher (module_load ex_params16 ex_env (\<lambda>_. 0) init_lsys) \<and>
   loaded_conf add_cipher (module_load ex_params16 ex_env (\<lambda>_. 0) init_lsys)"
proof -
  have "sys_reachable add_cipher (module_load ex_params16 ex_env (\<lambda>_. 0) init_lsys)"
    by (rule sys_reachable.step [OF sys_reachable.init, where ev = "Insmod ex_params16 ex_env (\<lambda>_. 0)"])
       (simp_all add: sys_event_wf_def env_wf_def ex_env_def sys_step_def)
  with sys_reachable_loaded_conf [OF this] show ?thesis by simp
qed

lemma reload_cycles_leak_witness:
  "\<exists>s. sys_run add_cipher init_lsys (reload_cycles ex_params16 ex_env [\<lambda>_. 0, \<lambda>_. 1, \<lambda>_. 2]) = Some (Inr s) \<and>
     sys_drv s = None \<and> live (sys_mod s) = {R_area 0, R_area 2, R_area 4}"
proof -
  have "env_ok ex_env" by (simp add: env_ok_def ex_env_def)
  then show ?thesis
    using reload_cycles_leak [of ex_env add_cipher ex_params16 "[\<lambda>_. 0, \<lambda>_. 1, \<lambda>_. 2]"]
    by (simp add: lessThan_Suc eval_nat_numeral insert_commute)
qed

end
