(* ===== verification/RequestLoop.thy ===== *)
theory RequestLoop
  imports Dispatcher
begin

text \<open>
  The request loop of \<open>sbd_request\<close> (lines 162-177) pass by pass.  One pass of the
  \<open>while\<close> body, \<open>sbd_request_pass\<close>, takes the current request pointer and returns
  the pointer the next pass starts from: the same request after \<open>continue\<close>, the same
  request advanced by one segment, or the next fetched one (\<open>None\<close> for \<open>NULL\<close>).
  \<open>sbd_request_steps n\<close> runs at most \<open>n\<close> passes and returns where the loop stands.
  A stop it reaches is the result of the fixpoint \<open>sbd_request_loop\<close>, and every
  result of the fixpoint is reached after finitely many passes
  (\<open>sbd_request_steps_sound\<close>, \<open>sbd_request_steps_complete\<close>).  So a bound on the
  passes is a bound on the request function's running time.
\<close>

section \<open>One pass and n passes\<close>

definition sbd_request_pass ::
  "cipher \<Rightarrow> sbd_params \<Rightarrow> request \<Rightarrow> 'a blk_state_scheme \<Rightarrow> (fault + request option \<times> 'a blk_state_scheme) option" where
  "sbd_request_pass c p r st =
     (if cmd_type r \<noteq> REQ_TYPE_FS then
        Some (Inr (Some r, blk_end_request_all (printk st Msg_skip_non_cmd) r EIO))
      else
        Option.bind (sbd_transfer c p st (rq_pos r) (blk_rq_cur_sectors r) (rq_buffer r) (rq_write r))
          (\<lambda>res. case res of
             Inl e \<Rightarrow> Some (Inl e)
           | Inr (st1, buf) \<Rightarrow>
               (case blk_end_request_cur st1 r buf of
                  (pending, r', st2) \<Rightarrow>
                    if pending then Some (Inr (Some r', st2)) else Some (Inr (blk_fetch_request st2)))))"

fun sbd_request_steps ::
  "nat \<Rightarrow> cipher \<Rightarrow> sbd_params \<Rightarrow> request option \<Rightarrow> 'a blk_state_scheme \<Rightarrow> (fault + request option \<times> 'a blk_state_scheme) option" where
  "sbd_request_steps 0 c p req st = Some (Inr (req, st))"
| "sbd_request_steps (Suc n) c p None st = Some (Inr (None, st))"
| "sbd_request_steps (Suc n) c p (Some r) st =
     (case sbd_request_pass c p r st of
        None \<Rightarrow> None
      | Some (Inl e) \<Rightarrow> Some (Inl e)
      | Some (Inr (req', st')) \<Rightarrow> sbd_request_steps n c p req' st')"

text \<open>A result of the iteration at which the loop has stopped: a fault, or \<open>req == NULL\<close>.\<close>

fun loop_stopped :: "fault + request option \<times> 'a blk_state_scheme \<Rightarrow> bool" where
  "loop_stopped (Inl _) = True"
| "loop_stopped (Inr (req, _)) = (req = None)"

section \<open>Lemmas\<close>

lemma sbd_request_loop_pass:
  "sbd_request_loop c p (Some r) st =
     (case sbd_request_pass c p r st of
        None \<Rightarrow> None
      | Some (Inl e) \<Rightarrow> Some (Inl e)
      | Some (Inr (req', st')) \<Rightarrow> sbd_request_loop c p req' st')"
  by (cases "sbd_transfer c p st (rq_pos r) (blk_rq_cur_sectors r) (rq_buffer r) (rq_write r)")
     (auto simp: sbd_request_loop.simps [of c p "Some r" st] sbd_request_pass_def split: sum.splits prod.splits)

lemma sbd_request_steps_sound:
  "sbd_request_steps n c p req st = Some y \<Longrightarrow> loop_stopped y \<Longrightarrow>
   sbd_request_loop c p req st = Some (map_sum id snd y)"
proof (induction n c p req st rule: sbd_request_steps.induct)
  case (1 c p req st)
  then show ?case by (auto simp: sbd_request_loop.simps [of c p None])
next
  case (2 n c p st)
  then show ?case by (auto simp: sbd_request_loop.simps [of c p None])
next
  case (3 n c p r st)
  show ?case
  proof (cases "sbd_request_pass c p r st")
    case None
    with "3.prems" show ?thesis by simp
  next
    case (Some z)
    show ?thesis
    proof (cases z)
      case (Inl e)
      with Some "3.prems" have "y = Inl e" by simp
      with Some Inl show ?thesis by (simp add: sbd_request_loop_pass [of c p r st])
    next
      case (Inr x)
      obtain req' st' where x: "x = (req', st')" by fastforce
      with Some Inr "3.prems" have "sbd_request_steps n c p req' st' = Some y" by simp
      from "3.IH" [OF Some Inr x [symmetric] this "3.prems"(2)] Some Inr x show ?thesis
        by (simp add: sbd_request_loop_pass [of c p r st])
    qed
  qed
qed

lemma sbd_request_steps_complete:
  assumes "sbd_request_loop c p req st = Some y"
  shows "\<exists>n z. sbd_request_steps n c p req st = Some z \<and> loop_stopped z \<and> map_sum id snd z = y"
  apply (rule sbd_request_loop.raw_induct [OF _ assms])
  apply (erule sbd_request_body_Some)
  subgoal for f c p req st y
    by (rule exI [of _ 0]) simp
  subgoal premises prems for f c p req st y r
  proof -
    obtain n z where "sbd_request_steps n c p (Some r) (blk_end_request_all (printk st Msg_skip_non_cmd) r EIO) = Some z"
      "loop_stopped z" "map_sum id snd z = y"
      using prems(1) [OF prems(4)] by blast
    with prems(2,3) show ?thesis
      by (intro exI [of _ "Suc n"]) (simp add: sbd_request_pass_def id_def)
  qed
  subgoal for f c p req st y r e
    by (rule exI [of _ 1]) (simp add: sbd_request_pass_def)
  subgoal premises prems for f c p req st y r st1 buf r' st2
  proof -
    obtain n z where "sbd_request_steps n c p (Some r') st2 = Some z" "loop_stopped z" "map_sum id snd z = y"
      using prems(1) [OF prems(6)] by blast
    with prems(2-5) show ?thesis
      by (intro exI [of _ "Suc n"]) (simp add: sbd_request_pass_def id_def)
  qed
  subgoal premises prems for f c p req st y r st1 buf r' st2 req' st3
  proof -
    obtain n z where "sbd_request_steps n c p req' st3 = Some z" "loop_stopped z" "map_sum id snd z = y"
      using prems(1) [OF prems(7)] by blast
    with prems(2-6) show ?thesis
      by (intro exI [of _ "Suc n"]) (simp add: sbd_request_pass_def id_def)
  qed
  done

lemma sbd_request_steps_stopped_mono:
  "sbd_request_steps n c p req st = Some z \<Longrightarrow> loop_stopped z \<Longrightarrow> sbd_request_steps (n + m) c p req st = Some z"
proof (induction n c p req st rule: sbd_request_steps.induct)
  case (1 c p req st)
  then show ?case by (cases m) auto
qed (auto split: option.splits sum.splits prod.splits)

text \<open>A pass on a filesystem request finishes a segment or fetches: the work left drops.\<close>

lemma sbd_request_pass_fs:
  assumes fs: "cmd_type r = REQ_TYPE_FS" and q: "list_all (\<lambda>r. cmd_type r = REQ_TYPE_FS) (queue st)"
  shows "\<exists>z. sbd_request_pass c p r st = Some z \<and>
           (\<forall>req' st'. z = Inr (req', st') \<longrightarrow> pending_work req' st' < pending_work (Some r) st \<and>
              pred_option (\<lambda>r. cmd_type r = REQ_TYPE_FS) req' \<and> list_all (\<lambda>r. cmd_type r = REQ_TYPE_FS) (queue st'))"
proof -
  obtain res where tr: "sbd_transfer c p st (rq_pos r) (blk_rq_cur_sectors r) (rq_buffer r) (rq_write r) = Some res"
    using sbd_transfer_not_None by blast
  show ?thesis
  proof (cases res)
    case (Inl e)
    with fs tr show ?thesis by (simp add: sbd_request_pass_def)
  next
    case (Inr x)
    obtain st1 buf where x: "x = (st1, buf)" by fastforce
    with tr Inr have q1: "queue st1 = queue st" by (simp add: sbd_transfer_blk_fields)
    obtain pending r' st2 where e: "blk_end_request_cur st1 r buf = (pending, r', st2)"
      by (metis prod_cases3)
    note ef = blk_end_request_cur_facts [OF e]
    obtain req' st3 where f: "blk_fetch_request st2 = (req', st3)" by fastforce
    note ff = blk_fetch_request_queue [OF f]
    show ?thesis
    proof (cases pending)
      case True
      have "sbd_request_pass c p r st = Some (Inr (Some r', st2))"
        using fs tr Inr x e True by (simp add: sbd_request_pass_def)
      moreover have "pending_work (Some r') st2 < pending_work (Some r) st"
        using ef(1,4) True q1 by (simp add: pending_work_def)
      moreover have "list_all (\<lambda>r. cmd_type r = REQ_TYPE_FS) (queue st2)"
        using ef(1) q1 q by simp
      ultimately show ?thesis using ef(2) fs by simp
    next
      case False
      have "pending_work req' st3 < pending_work (Some r) st"
        using blk_fetch_request_pending_work [OF f] ef(1) q1 by (simp add: pending_work_def)
      moreover have "pred_option (\<lambda>r. cmd_type r = REQ_TYPE_FS) req'"
        and "list_all (\<lambda>r. cmd_type r = REQ_TYPE_FS) (queue st3)"
        using ff(3) [of "\<lambda>r. cmd_type r = REQ_TYPE_FS"] ef(1) q1 q by simp_all
      moreover have "sbd_request_pass c p r st = Some (Inr (req', st3))"
        using fs tr Inr x e False f by (simp add: sbd_request_pass_def)
      ultimately show ?thesis by simp
    qed
  qed
qed

section \<open>Properties of the iterated loop\<close>

text \<open>
  C32: On a queue of filesystem requests the loop stops within \<open>pending_work\<close> passes,
  one per segment of each request and one per fetch: the request function's running
  time is linear in the number of segments queued.
\<close>

theorem sbd_request_passes_bound:
  assumes "pred_option (\<lambda>r. cmd_type r = REQ_TYPE_FS) req" and "list_all (\<lambda>r. cmd_type r = REQ_TYPE_FS) (queue st)"
  shows "\<exists>z. sbd_request_steps (pending_work req st) c p req st = Some z \<and> loop_stopped z"
  using assms
proof (induction "pending_work req st" arbitrary: req st rule: less_induct)
  case less
  show ?case
  proof (cases req)
    case None
    have "sbd_request_steps n c p None st = Some (Inr (None, st))" for n by (cases n) simp_all
    with None show ?thesis by simp
  next
    case (Some r)
    then obtain k where k: "pending_work req st = Suc k" by (simp add: pending_work_def)
    from Some less.prems(1) have fs: "cmd_type r = REQ_TYPE_FS" by simp
    obtain z where pz: "sbd_request_pass c p r st = Some z"
      and dec: "\<forall>req' st'. z = Inr (req', st') \<longrightarrow> pending_work req' st' < pending_work (Some r) st \<and>
              pred_option (\<lambda>r. cmd_type r = REQ_TYPE_FS) req' \<and> list_all (\<lambda>r. cmd_type r = REQ_TYPE_FS) (queue st')"
      using sbd_request_pass_fs [OF fs less.prems(2)] by blast
    show ?thesis
    proof (cases z)
      case (Inl e)
      with pz Some k show ?thesis by simp
    next
      case (Inr x)
      obtain req' st' where x: "x = (req', st')" by fastforce
      with dec Inr Some have lt: "pending_work req' st' < pending_work req st"
        and fs': "pred_option (\<lambda>r. cmd_type r = REQ_TYPE_FS) req'" "list_all (\<lambda>r. cmd_type r = REQ_TYPE_FS) (queue st')"
        by auto
      from less.hyps [OF lt fs'] obtain z' where
        z': "sbd_request_steps (pending_work req' st') c p req' st' = Some z'" "loop_stopped z'" by blast
      from lt k have "pending_work req' st' + (k - pending_work req' st') = k" by simp
      with sbd_request_steps_stopped_mono [OF z', of "k - pending_work req' st'"]
      have "sbd_request_steps k c p req' st' = Some z'" by simp
      with pz Inr x Some k z'(2) show ?thesis by simp
    qed
  qed
qed

section \<open>Witnesses\<close>

lemma sbd_request_passes_bound_witness:
  "\<exists>z. sbd_request_steps 4 add_cipher ex_params16 (Some (ex_request 1 REQ_TYPE_FS 0))
         (ex_blk_state 16 [ex_request 2 REQ_TYPE_FS 3]) = Some z \<and> loop_stopped z"
proof -
  have fs: "pred_option (\<lambda>r. cmd_type r = REQ_TYPE_FS) (Some (ex_request 1 REQ_TYPE_FS 0))"
    and q: "list_all (\<lambda>r. cmd_type r = REQ_TYPE_FS) (queue (ex_blk_state 16 [ex_request 2 REQ_TYPE_FS 3]))"
    by (simp_all add: ex_request_def ex_blk_state_def)
  have pw: "pending_work (Some (ex_request 1 REQ_TYPE_FS 0)) (ex_blk_state 16 [ex_request 2 REQ_TYPE_FS 3]) = 4"
    by (simp add: ex_request_def ex_blk_state_def pending_work_def)
  from sbd_request_passes_bound [OF fs q, of add_cipher ex_params16] pw show ?thesis
    by (simp only:)
qed

end
