(* ===== verification/KeyTransfer.thy ===== *)
theory KeyTransfer
  imports TransferEngine
begin

text \<open>
  The key store and the transfer engine together.  \<open>key_store\<close> (lines 78-89) writes
  \<open>crypto_key\<close> and \<open>key_size\<close> without taking \<open>Device.lock\<close>, while \<open>sbd_transfer\<close>
  runs under it from \<open>sbd_request\<close>: on another CPU a key write can fall between the
  two places where a transfer reads the key.  \<open>sbd_transfer\<close> installs the key in
  \<open>tfm\<close> first (lines 113-118); then \<open>sbd_transfer_copy\<close> (lines 120-156) checks the
  range and tests \<open>key_size\<close> again to choose between the cipher and \<open>memcpy\<close>.
  \<open>transfer_key_store\<close> runs a transfer and a key write in each of the three orders
  \<open>key_sched\<close>: the key write before the transfer, between its two phases, or after it.
\<close>

section \<open>The two phases of a transfer\<close>

definition sbd_transfer_copy ::
  "cipher \<Rightarrow> sbd_params \<Rightarrow> 'a sbd_state_scheme \<Rightarrow> u64 \<Rightarrow> u64 \<Rightarrow> bytes \<Rightarrow> bool \<Rightarrow>
   (fault + 'a sbd_state_scheme \<times> bytes) option" where
  "sbd_transfer_copy c p st1 sector nsect buffer write =
     (let offset = sector * scast (logical_block_size p);
          nbytes = nsect * scast (logical_block_size p);
          dev = Device st1
      in if dev_size dev < offset + nbytes
         then Some (Inr (printk st1 (Msg_beyond_end offset nbytes), buffer))
         else if write then
           (if key_size st1 \<noteq> 0 then
              map_option (map_sum id (\<lambda>d. (set_dev_data st1 d, buffer)))
                (cipher_loop (crypto_cipher_encrypt_one c (tfm st1))
                   (crypto_cipher_blocksize (tfm st1)) nbytes 0 (dev_data dev) (unat offset) buffer 0)
            else
              Some (map_sum id (\<lambda>d. (set_dev_data st1 d, buffer))
                (memcpy (dev_data dev) (uint offset) buffer 0 (unat nbytes))))
         else
           (if key_size st1 \<noteq> 0 then
              map_option (map_sum id (\<lambda>b. (st1, b)))
                (cipher_loop (crypto_cipher_decrypt_one c (tfm st1))
                   (crypto_cipher_blocksize (tfm st1)) nbytes 0 buffer 0 (dev_data dev) (unat offset))
            else
              Some (map_sum id (\<lambda>b. (st1, b))
                (memcpy buffer 0 (dev_data dev) (uint offset) (unat nbytes)))))"

section \<open>A transfer and a key write\<close>

datatype key_sched = Store_before | Store_during | Store_after

definition transfer_key_store ::
  "cipher \<Rightarrow> sbd_params \<Rightarrow> 'a sbd_state_scheme \<Rightarrow> u64 \<Rightarrow> u64 \<Rightarrow> bytes \<Rightarrow> bool \<Rightarrow> bytes \<Rightarrow> key_sched \<Rightarrow>
   (fault + 'a sbd_state_scheme \<times> bytes) option" where
  "transfer_key_store c p st sector nsect buffer write k sched =
     (case sched of
        Store_before \<Rightarrow> sbd_transfer c p (snd (key_store st k)) sector nsect buffer write
      | Store_during \<Rightarrow> sbd_transfer_copy c p (snd (key_store (sbd_install_key st) k)) sector nsect buffer write
      | Store_after \<Rightarrow>
          map_option (map_sum id (\<lambda>(st1, b). (snd (key_store st1 k), b))) (sbd_transfer c p st sector nsect buffer write))"

section \<open>Lemmas\<close>

lemma sbd_transfer_phases:
  "sbd_transfer c p st sector nsect buffer write = sbd_transfer_copy c p (sbd_install_key st) sector nsect buffer write"
  by (simp add: sbd_transfer_def sbd_transfer_copy_def Let_def)

lemma key_store_other_fields [simp]:
  "Device (snd (key_store st k)) = Device st" "tfm (snd (key_store st k)) = tfm st"
  by (simp_all add: key_store_def Let_def printk_def)


lemma key_store_sbd_wf:
  assumes "sbd_wf st"
  shows "sbd_wf (snd (key_store st k))" and "Device (snd (key_store st k)) = Device st"
  using assms key_store_inv [of st k]
  by (auto simp: sbd_wf_def key_store_def Let_def printk_def)

text \<open>
  A write and a read right after \<open>key_store\<close> accepted a NUL-free key: the transfer
  installs exactly that key.
\<close>

lemma stored_key_write:
  assumes wf: "sbd_wf st" and c: "cipher_ok c"
    and k: "length k \<in> {16, 24}" "0 \<notin> set k"
    and range: "unat (sector * scast (logical_block_size p)) + unat (nsect * scast (logical_block_size p))
                  \<le> unat (dev_size (Device st))"
    and buf: "unat (nsect * scast (logical_block_size p)) \<le> length buffer"
    and aligned: "AES_BLOCK_SIZE dvd unat (nsect * scast (logical_block_size p))"
      "unat (nsect * scast (logical_block_size p)) < 2 ^ 31"
  shows "sbd_transfer c p (snd (key_store st k)) sector nsect buffer True =
          Some (Inr (set_dev_data (sbd_install_key (snd (key_store st k)))
                       (blit (dev_data (Device st)) (unat (sector * scast (logical_block_size p)))
                          (ecb (cia_encrypt c k) (take (unat (nsect * scast (logical_block_size p))) buffer))),
                     buffer))"
proof -
  have wf1: "sbd_wf (snd (key_store st k))" and dev: "Device (snd (key_store st k)) = Device st"
    using key_store_sbd_wf [OF wf] by simp_all
  have ki: "key_inv st" using wf by (simp add: sbd_wf_def)
  note inst = key_store_nul_free_installed [OF ki k]
  show ?thesis
    using sbd_transfer_in_range_spec [OF wf1 c, of sector p nsect buffer True] range buf aligned dev inst k
    by (auto simp: transfer_spec_def)
qed

lemma stored_key_read:
  assumes wf: "sbd_wf st" and c: "cipher_ok c"
    and k: "length k \<in> {16, 24}" "0 \<notin> set k"
    and range: "unat (sector * scast (logical_block_size p)) + unat (nsect * scast (logical_block_size p))
                  \<le> unat (dev_size (Device st))"
    and buf: "unat (nsect * scast (logical_block_size p)) \<le> length buffer"
    and aligned: "AES_BLOCK_SIZE dvd unat (nsect * scast (logical_block_size p))"
      "unat (nsect * scast (logical_block_size p)) < 2 ^ 31"
  shows "sbd_transfer c p (snd (key_store st k)) sector nsect buffer False =
          Some (Inr (sbd_install_key (snd (key_store st k)),
                     blit buffer 0 (ecb (cia_decrypt c k)
                       (take (unat (nsect * scast (logical_block_size p)))
                          (drop (unat (sector * scast (logical_block_size p))) (dev_data (Device st)))))))"
proof -
  have wf1: "sbd_wf (snd (key_store st k))" and dev: "Device (snd (key_store st k)) = Device st"
    using key_store_sbd_wf [OF wf] by simp_all
  have ki: "key_inv st" using wf by (simp add: sbd_wf_def)
  note inst = key_store_nul_free_installed [OF ki k]
  show ?thesis
    using sbd_transfer_in_range_spec [OF wf1 c, of sector p nsect buffer False] range buf aligned dev inst k
    by (auto simp: transfer_spec_def)
qed

lemma ecb_first_block:
  assumes "AES_BLOCK_SIZE \<le> length bs" and "block_preserving f"
  shows "take AES_BLOCK_SIZE (ecb f bs) = f (take AES_BLOCK_SIZE bs)"
proof -
  from assms have "bs \<noteq> []" by (auto simp: AES_BLOCK_SIZE_def)
  moreover have "length (f (take AES_BLOCK_SIZE bs)) = AES_BLOCK_SIZE"
    using assms by (simp add: block_preserving_def)
  ultimately show ?thesis by (simp add: ecb_unfold)
qed

lemma sbd_transfer_copy_stale_write:
  assumes wf: "sbd_wf st" and c: "cipher_ok c" and ks: "key_size st1 \<noteq> 0"
    and dev: "Device st1 = Device st"
    and range: "unat (sector * scast (logical_block_size p)) + unat (nsect * scast (logical_block_size p))
                  \<le> unat (dev_size (Device st))"
    and buf: "unat (nsect * scast (logical_block_size p)) \<le> length buffer"
    and aligned: "AES_BLOCK_SIZE dvd unat (nsect * scast (logical_block_size p))"
      "unat (nsect * scast (logical_block_size p)) < 2 ^ 31"
  shows "sbd_transfer_copy c p st1 sector nsect buffer True =
           Some (Inr (set_dev_data st1 (blit (dev_data (Device st)) (unat (sector * scast (logical_block_size p)))
                        (ecb (cia_encrypt c (crt_key (tfm st1))) (take (unat (nsect * scast (logical_block_size p))) buffer))),
                      buffer))"
proof -
  have len: "length (dev_data (Device st)) = unat (dev_size (Device st))" using wf by (simp add: sbd_wf_def)
  have f: "block_preserving (cia_encrypt c (crt_key (tfm st1)))"
    using cipher_ok_block_preserving [OF c] by simp
  show ?thesis
    using in_range_no_wrap(1) [OF range] ks dev range buf len
    by (simp add: sbd_transfer_copy_def Let_def crypto_cipher_encrypt_one_def crypto_cipher_blocksize_def
        cipher_loop_ecb_0 [OF f aligned])
qed

section \<open>Properties of a transfer racing a key write\<close>

text \<open>
  C35: \<open>key_store\<close> does not take the device lock, so where it falls in a concurrent
  write decides what the device holds.  Starting with no key, an in-range,
  block-aligned write of the caller's bytes with a NUL-free 16- or 24-byte key \<open>k\<close>
  written alongside stores them encrypted under \<open>k\<close> when the key write comes first,
  as plaintext when it comes last, and, when it falls between the key installation and
  the \<open>key_size\<close> test, encrypted under whatever key the cipher handle \<open>tfm\<close> last
  held, which is neither.  In every order the key \<open>k\<close> is in place afterwards.
\<close>

theorem key_store_race_write:
  assumes wf: "sbd_wf st" and c: "cipher_ok c" and nokey: "key_size st = 0"
    and k: "length k \<in> {16, 24}" "0 \<notin> set k"
    and range: "unat (sector * scast (logical_block_size p)) + unat (nsect * scast (logical_block_size p))
                  \<le> unat (dev_size (Device st))"
    and buf: "unat (nsect * scast (logical_block_size p)) \<le> length buffer"
    and aligned: "AES_BLOCK_SIZE dvd unat (nsect * scast (logical_block_size p))"
      "unat (nsect * scast (logical_block_size p)) < 2 ^ 31"
  shows "\<exists>st'. transfer_key_store c p st sector nsect buffer True k sched = Some (Inr (st', buffer)) \<and>
           key_size st' = of_nat (length k) \<and>
           dev_data (Device st') =
             blit (dev_data (Device st)) (unat (sector * scast (logical_block_size p)))
               (case sched of
                  Store_before \<Rightarrow> ecb (cia_encrypt c k) (take (unat (nsect * scast (logical_block_size p))) buffer)
                | Store_during \<Rightarrow> ecb (cia_encrypt c (crt_key (tfm st))) (take (unat (nsect * scast (logical_block_size p))) buffer)
                | Store_after \<Rightarrow> take (unat (nsect * scast (logical_block_size p))) buffer)"
proof -
  have kv: "length k \<in> {16, 24, 32}" using k(1) by auto
  have ks: "key_size (snd (key_store st1 k)) = of_nat (length k)" for st1 :: "'a sbd_state_scheme"
    using kv by (simp add: key_store_accepted)
  have ks0: "(of_nat (length k) :: c_int) \<noteq> 0" using k(1) by auto
  show ?thesis
  proof (cases sched)
    case Store_before
    with stored_key_write [OF wf c k range buf aligned] ks show ?thesis
      by (simp add: transfer_key_store_def)
  next
    case Store_during
    have "key_size (snd (key_store (sbd_install_key st) k)) \<noteq> 0" using ks ks0 by simp
    moreover have "Device (snd (key_store (sbd_install_key st) k)) = Device st" by simp
    moreover have "tfm (snd (key_store (sbd_install_key st) k)) = tfm st"
      using nokey by (simp add: sbd_install_key_def printk_def)
    ultimately show ?thesis
      using sbd_transfer_copy_stale_write [OF wf c _ _ range buf aligned, of "snd (key_store (sbd_install_key st) k)"]
        Store_during ks by (simp add: transfer_key_store_def)
  next
    case Store_after
    have "installed_key st = []" using wf nokey by (simp add: sbd_wf_def installed_key_Nil_iff)
    with sbd_transfer_in_range_spec [OF wf c range buf, of True] nokey Store_after ks show ?thesis
      by (simp add: transfer_key_store_def transfer_spec_def)
  qed
qed

section \<open>Witnesses\<close>

lemma key_store_race_write_witness:
  "\<exists>st'. transfer_key_store add_cipher ex_params16 (ex_state\<lparr>key_size := 0\<rparr>) 1 1 (replicate 16 3) True
           (replicate 16 9) Store_during = Some (Inr (st', replicate 16 3)) \<and>
         key_size st' = 16 \<and>
         dev_data (Device st') = blit (replicate 400 0) 16 (ecb (cia_encrypt add_cipher []) (replicate 16 3))"
  using key_store_race_write [OF ex_state_wf(2) add_cipher_ok,
      where k = "replicate 16 9" and sector = 1 and p = ex_params16 and nsect = 1 and buffer = "replicate 16 3"
        and sched = Store_during]
  by (simp add: ex_state_def ex_params16_def AES_BLOCK_SIZE_def)

end
