(* ===== verification/PlainDisk.thy ===== *)
theory PlainDisk
  imports Dispatcher
begin

text \<open>
  What the driver promises its users: a block device whose contents, seen through the
  installed key, are plaintext.  \<open>plain_view\<close> is that plaintext, the abstraction of
  the driver state: the device buffer decrypted block by block under the installed
  key, or the buffer itself when no key is set.  \<open>plain_write\<close> and \<open>plain_read\<close> are
  the abstract operations on it.  \<open>plain_queue\<close> is the abstract request layer: each
  queued request writes or reads its segments in order from its start sector, and is
  completed with status 0.  The refinement lemmas show that \<open>sbd_transfer\<close> (lines
  106-157) and \<open>sbd_request\<close> (lines 159-178) implement them, on the inputs where
  the code has no failure path (in range, whole cipher blocks, filesystem requests).
\<close>

section \<open>The plaintext disk\<close>

definition plain_view :: "cipher \<Rightarrow> 'a sbd_state_scheme \<Rightarrow> bytes" where
  "plain_view c st =
     (if installed_key st = [] then dev_data (Device st)
      else ecb (cia_decrypt c (installed_key st)) (dev_data (Device st)))"

definition plain_write :: "bytes \<Rightarrow> nat \<Rightarrow> bytes \<Rightarrow> bytes" where
  "plain_write d off x = blit d off x"

definition plain_read :: "bytes \<Rightarrow> nat \<Rightarrow> nat \<Rightarrow> bytes" where
  "plain_read d off n = take n (drop off d)"


text \<open>
  The request layer on the plaintext disk, with 512-byte logical blocks: the segments of
  a request are transferred one after the other from its start sector on, a write
  stores a segment, a read returns the plaintext under it, and the request is
  completed with status 0 and its segments as the transfers left them.
\<close>

fun plain_segs :: "bool \<Rightarrow> nat \<Rightarrow> bytes list \<Rightarrow> bytes \<Rightarrow> bytes \<times> bytes list" where
  "plain_segs w pos [] d = (d, [])"
| "plain_segs w pos (s # ss) d =
     (let d' = (if w then plain_write d (pos * 512) s else d);
          s' = (if w then s else plain_read d (pos * 512) (length s))
      in case plain_segs w (pos + length s div 512) ss d' of (d'', rest) \<Rightarrow> (d'', s' # rest))"

definition plain_rq :: "request \<Rightarrow> bytes \<Rightarrow> bytes \<times> completion" where
  "plain_rq r d =
     (case plain_segs (rq_write r) (unat (rq_pos r)) (rq_segs r) d of
        (d', segs) \<Rightarrow> (d', Completion (rq_id r) None (rq_done r @ segs)))"

fun plain_queue :: "request list \<Rightarrow> bytes \<Rightarrow> bytes \<times> completion list" where
  "plain_queue [] d = (d, [])"
| "plain_queue (r # rs) d =
     (case plain_rq r d of (d1, c1) \<Rightarrow> case plain_queue rs d1 of (d2, cs) \<Rightarrow> (d2, c1 # cs))"

text \<open>
  The requests this holds for: filesystem requests with at least one segment, each
  segment a whole number of sectors below \<open>2^31\<close> bytes and inside a device of
  \<open>sz\<close> bytes.
\<close>

fun segs_fit :: "nat \<Rightarrow> nat \<Rightarrow> bytes list \<Rightarrow> bool" where
  "segs_fit sz pos [] = True"
| "segs_fit sz pos (s # ss) =
     (512 dvd length s \<and> length s < 2 ^ 31 \<and> pos * 512 + length s \<le> sz \<and> segs_fit sz (pos + length s div 512) ss)"

definition rq_ok :: "nat \<Rightarrow> request \<Rightarrow> bool" where
  "rq_ok sz r \<longleftrightarrow> cmd_type r = REQ_TYPE_FS \<and> rq_segs r \<noteq> [] \<and> segs_fit sz (unat (rq_pos r)) (rq_segs r)"

text \<open>
  Example: a 1024-byte device (two sectors) holding zeros with a 16-byte key set, and a
  queue that writes sector 0 and then reads it back.
\<close>

definition ex_disk_state :: "request list \<Rightarrow> blk_state" where
  "ex_disk_state rs =
     \<lparr>klog = [], crypto_key = replicate 16 7 @ replicate 16 0, key_size = 16,
      Device = \<lparr>dev_size = 1024, dev_data = replicate 1024 0\<rparr>,
      tfm = \<lparr>crt_flags = 0, crt_key = []\<rparr>, queue = rs, completed = []\<rparr>"

definition ex_write_read :: "request list" where
  "ex_write_read = [ex_request 1 REQ_TYPE_FS 0, (ex_request 2 REQ_TYPE_FS 0)\<lparr>rq_write := False\<rparr>]"

section \<open>Lemmas\<close>

lemma installed_key_install [simp]: "installed_key (sbd_install_key st) = installed_key st"
  by (simp add: installed_key_def)

lemma sbd_transfer_plain:
  assumes wf: "sbd_wf st" and c: "cipher_ok c"
    and range: "unat (sector * scast (logical_block_size p)) + unat (nsect * scast (logical_block_size p))
                  \<le> unat (dev_size (Device st))"
    and buf: "unat (nsect * scast (logical_block_size p)) \<le> length buffer"
    and aligned: "key_size st \<noteq> 0 \<Longrightarrow>
                    AES_BLOCK_SIZE dvd unat (sector * scast (logical_block_size p)) \<and>
                    AES_BLOCK_SIZE dvd unat (nsect * scast (logical_block_size p)) \<and>
                    unat (nsect * scast (logical_block_size p)) < 2 ^ 31"
  shows "(\<exists>st'. sbd_transfer c p st sector nsect buffer True = Some (Inr (st', buffer)) \<and>
            plain_view c st' =
              plain_write (plain_view c st) (unat (sector * scast (logical_block_size p)))
                (take (unat (nsect * scast (logical_block_size p))) buffer)) \<and>
         (\<exists>st' b'. sbd_transfer c p st sector nsect buffer False = Some (Inr (st', b')) \<and>
            plain_view c st' = plain_view c st \<and>
            take (unat (nsect * scast (logical_block_size p))) b' =
              plain_read (plain_view c st) (unat (sector * scast (logical_block_size p)))
                (unat (nsect * scast (logical_block_size p))))"
proof -
  let ?off = "unat (sector * scast (logical_block_size p))" and ?n = "unat (nsect * scast (logical_block_size p))"
  let ?d = "dev_data (Device st)"
  have len: "length ?d = unat (dev_size (Device st))" and ki: "key_inv st" using wf by (simp_all add: sbd_wf_def)
  have al: "key_size st \<noteq> 0 \<Longrightarrow> AES_BLOCK_SIZE dvd ?n \<and> ?n < 2 ^ 31" using aligned by simp
  note spec = sbd_transfer_in_range_spec [OF wf c range buf al]
  have tn: "take ?n (blit buffer 0 x) = x" if "length x = ?n" for x
    using that buf by (simp add: blit_def)
  show ?thesis
  proof (cases "key_size st = 0")
    case True
    with ki have "installed_key st = []" by (simp add: installed_key_Nil_iff)
    with spec [of True] spec [of False] range len tn show ?thesis
      by (simp add: plain_view_def plain_write_def plain_read_def transfer_spec_def)
  next
    case False
    with ki have kne: "installed_key st \<noteq> []" by (simp add: installed_key_Nil_iff)
    from aligned [OF False] have a16: "AES_BLOCK_SIZE dvd ?off" "AES_BLOCK_SIZE dvd ?n" "?n < 2 ^ 31" by simp_all
    let ?k = "installed_key st"
    have bp: "block_preserving (cia_encrypt c ?k)" "block_preserving (cia_decrypt c ?k)"
      using cipher_ok_block_preserving [OF c] by simp_all
    have xl: "length (take ?n buffer) = ?n" using buf by simp
    have el: "length (ecb (cia_encrypt c ?k) (take ?n buffer)) = ?n"
      using ecb_length [OF bp(1)] xl a16(2) by simp
    have wr: "ecb (cia_decrypt c ?k) (blit ?d ?off (ecb (cia_encrypt c ?k) (take ?n buffer))) =
              blit (ecb (cia_decrypt c ?k) ?d) ?off (take ?n buffer)"
      using ecb_blit [OF bp(2) a16(1), of "ecb (cia_encrypt c ?k) (take ?n buffer)" ?d] el a16(2) range len
        ecb_decrypt_encrypt [OF c, of "take ?n buffer" ?k] xl by simp
    have rd: "ecb (cia_decrypt c ?k) (take ?n (drop ?off ?d)) = take ?n (drop ?off (ecb (cia_decrypt c ?k) ?d))"
      using ecb_take_drop(2) [OF bp(2) a16(1), of ?d] ecb_take_drop(1) [OF bp(2) a16(2), of "drop ?off ?d"]
        range len by simp
    have rl: "length (ecb (cia_decrypt c ?k) (take ?n (drop ?off ?d))) = ?n"
      using ecb_length [OF bp(2)] a16(2) range len by simp
    from spec [of True] spec [of False] kne wr rd rl tn show ?thesis
      by (simp add: plain_view_def plain_write_def plain_read_def transfer_spec_def)
  qed
qed

lemma plain_view_blk_fields [simp]:
  "plain_view c (st\<lparr>completed := x\<rparr>) = plain_view c st" "plain_view c (st\<lparr>queue := q\<rparr>) = plain_view c st"
  by (simp_all add: plain_view_def installed_key_def)

lemma sbd_wf_blk_fields [simp]:
  "sbd_wf (st\<lparr>completed := x\<rparr>) = sbd_wf st" "sbd_wf (st\<lparr>queue := q\<rparr>) = sbd_wf st"
  by (simp_all add: sbd_wf_def key_inv_def)

text \<open>A segment inside the device: the sector arithmetic of the request loop does not wrap.\<close>

lemma seg_words:
  assumes fit: "unat (pos :: u64) * 512 + length s \<le> unat (sz :: u64)" and d: "512 dvd length s"
  shows "unat (pos * scast (512 :: c_int)) = unat pos * 512"
    and "unat (of_nat (length s div 512) * scast (512 :: c_int) :: u64) = length s"
    and "unat (pos + of_nat (length s div 512)) = unat pos + length s div 512"
proof -
  have sz: "unat sz < 2 ^ 64" using unsigned_less [of sz] by simp
  have c: "(scast (512 :: c_int) :: u64) = 512" by simp
  have k: "unat (of_nat (length s div 512) :: u64) = length s div 512"
    using fit sz by (simp add: unat_of_nat_u64)
  have "unat pos * unat (512 :: u64) < 2 ^ LENGTH(64)" using fit sz by simp
  from unat_mult_lem [THEN iffD1, OF this] show "unat (pos * scast (512 :: c_int)) = unat pos * 512"
    by (simp add: c)
  show "unat (of_nat (length s div 512) * scast (512 :: c_int) :: u64) = length s"
    using fit sz d k by (simp add: c unat_mult_lem [THEN iffD1])
  show "unat (pos + of_nat (length s div 512)) = unat pos + length s div 512"
    using fit sz k by (simp add: unat_add_lem [THEN iffD1])
qed

text \<open>One pass of the request loop on an in-range segment, seen on the plaintext disk.\<close>

lemma sbd_transfer_seg:
  assumes wf: "sbd_wf st" and c: "cipher_ok c" and lbs: "logical_block_size p = 512"
    and segs: "rq_segs r = s # ss"
    and fit: "unat (rq_pos r) * 512 + length s \<le> unat (dev_size (Device st))"
    and d: "512 dvd length s" and small: "length s < 2 ^ 31"
  shows "\<exists>st1 buf. sbd_transfer c p st (rq_pos r) (blk_rq_cur_sectors r) (rq_buffer r) (rq_write r) = Some (Inr (st1, buf)) \<and>
           plain_view c st1 = (if rq_write r then plain_write (plain_view c st) (unat (rq_pos r) * 512) s else plain_view c st) \<and>
           buf = (if rq_write r then s else plain_read (plain_view c st) (unat (rq_pos r) * 512) (length s)) \<and>
           sbd_wf st1 \<and> dev_size (Device st1) = dev_size (Device st) \<and>
           queue st1 = queue st \<and> completed st1 = completed st"
proof -
  note w = seg_words [OF fit d]
  have cur: "blk_rq_cur_sectors r = of_nat (length s div 512)" and rb: "rq_buffer r = s"
    using segs by (simp_all add: blk_rq_cur_sectors_def rq_buffer_def KERNEL_SECTOR_SIZE_def)
  have a16: "AES_BLOCK_SIZE dvd unat (rq_pos r) * 512" "AES_BLOCK_SIZE dvd length s"
    using d by (auto simp: AES_BLOCK_SIZE_def intro: dvd_trans [of 16 512])
  note pl = sbd_transfer_plain [OF wf c, of "rq_pos r" p "of_nat (length s div 512)" s]
  have pl': "(\<exists>st'. sbd_transfer c p st (rq_pos r) (of_nat (length s div 512)) s True = Some (Inr (st', s)) \<and>
              plain_view c st' = plain_write (plain_view c st) (unat (rq_pos r) * 512) s) \<and>
            (\<exists>st' b'. sbd_transfer c p st (rq_pos r) (of_nat (length s div 512)) s False = Some (Inr (st', b')) \<and>
              plain_view c st' = plain_view c st \<and>
              take (length s) b' = plain_read (plain_view c st) (unat (rq_pos r) * 512) (length s))"
    using pl lbs w fit a16 small by simp
  have post: "sbd_wf st1 \<and> dev_size (Device st1) = dev_size (Device st) \<and> queue st1 = queue st \<and>
              completed st1 = completed st \<and> length b1 = length s"
    if "sbd_transfer c p st (rq_pos r) (of_nat (length s div 512)) s wr = Some (Inr (st1, b1))" for wr st1 b1
    using sbd_transfer_shape [OF that] sbd_transfer_blk_fields [OF that] wf
    by (simp add: sbd_wf_def key_inv_def)
  show ?thesis
  proof (cases "rq_write r")
    case True
    with pl' obtain st1 where "sbd_transfer c p st (rq_pos r) (of_nat (length s div 512)) s True = Some (Inr (st1, s))"
      "plain_view c st1 = plain_write (plain_view c st) (unat (rq_pos r) * 512) s" by blast
    with post [OF this(1)] True cur rb show ?thesis by simp
  next
    case False
    with pl' obtain st1 b1 where t: "sbd_transfer c p st (rq_pos r) (of_nat (length s div 512)) s False = Some (Inr (st1, b1))"
      "plain_view c st1 = plain_view c st"
      "take (length s) b1 = plain_read (plain_view c st) (unat (rq_pos r) * 512) (length s)" by blast
    from post [OF t(1)] have "b1 = plain_read (plain_view c st) (unat (rq_pos r) * 512) (length s)"
      using t(3) by simp
    with post [OF t(1)] t False cur rb show ?thesis by simp
  qed
qed

text \<open>The abstract request after its first segment, as \<open>__blk_end_request_cur\<close> leaves it.\<close>

lemma plain_rq_step:
  assumes "rq_segs r = s # ss"
  shows "plain_rq r d =
           (let d' = (if rq_write r then plain_write d (unat (rq_pos r) * 512) s else d);
                s' = (if rq_write r then s else plain_read d (unat (rq_pos r) * 512) (length s))
            in case plain_segs (rq_write r) (unat (rq_pos r) + length s div 512) ss d' of
                 (d'', segs) \<Rightarrow> (d'', Completion (rq_id r) None ((rq_done r @ [s']) @ segs)))"
  using assms by (simp add: plain_rq_def Let_def split: prod.splits)

lemma plain_view_fetch:
  assumes "blk_fetch_request st = (req, st')"
  shows "plain_view c st' = plain_view c st" and "sbd_wf st' = sbd_wf st"
    and "dev_size (Device st') = dev_size (Device st)"
  using blk_fetch_request_fields [OF assms]
  by (simp_all add: plain_view_def installed_key_def sbd_wf_def key_inv_def)

text \<open>
  The request loop on requests that fit implements the abstract queue: it returns, the
  plaintext disk is the abstract one, and the completions are the abstract ones.
\<close>

lemma sbd_request_loop_plain:
  assumes "sbd_wf st" and "cipher_ok c" and "logical_block_size p = 512"
    and "req = None \<Longrightarrow> queue st = []"
    and "list_all (rq_ok (unat (dev_size (Device st)))) ((case req of None \<Rightarrow> [] | Some r \<Rightarrow> [r]) @ queue st)"
  shows "\<exists>st'. sbd_request_loop c p req st = Some (Inr st') \<and>
           plain_view c st' = fst (plain_queue ((case req of None \<Rightarrow> [] | Some r \<Rightarrow> [r]) @ queue st) (plain_view c st)) \<and>
           completed st' = completed st @ snd (plain_queue ((case req of None \<Rightarrow> [] | Some r \<Rightarrow> [r]) @ queue st) (plain_view c st))"
  using assms
proof (induction "pending_work req st" arbitrary: req st rule: less_induct)
  case less
  show ?case
  proof (cases req)
    case None
    with less.prems(4) show ?thesis by (simp add: sbd_request_loop.simps [of c p None st])
  next
    case (Some r)
    let ?sz = "unat (dev_size (Device st))"
    from less.prems(5) Some have ok: "rq_ok ?sz r" and qok: "list_all (rq_ok ?sz) (queue st)" by simp_all
    then obtain s ss where segs: "rq_segs r = s # ss" and fs: "cmd_type r = REQ_TYPE_FS"
      and fit: "unat (rq_pos r) * 512 + length s \<le> ?sz" "512 dvd length s" "length s < 2 ^ 31"
      and rest: "segs_fit ?sz (unat (rq_pos r) + length s div 512) ss"
      by (cases "rq_segs r") (auto simp: rq_ok_def)
    obtain st1 buf where tr: "sbd_transfer c p st (rq_pos r) (blk_rq_cur_sectors r) (rq_buffer r) (rq_write r) = Some (Inr (st1, buf))"
      and pv: "plain_view c st1 = (if rq_write r then plain_write (plain_view c st) (unat (rq_pos r) * 512) s else plain_view c st)"
      and bf: "buf = (if rq_write r then s else plain_read (plain_view c st) (unat (rq_pos r) * 512) (length s))"
      and wf1: "sbd_wf st1" and sz1: "dev_size (Device st1) = dev_size (Device st)"
      and q1: "queue st1 = queue st" and c1: "completed st1 = completed st"
      using sbd_transfer_seg [OF less.prems(1-3) segs fit] by blast
    let ?r' = "r\<lparr>rq_pos := rq_pos r + of_nat (length s div KERNEL_SECTOR_SIZE), rq_segs := ss, rq_done := rq_done r @ [buf]\<rparr>"
    have pos': "unat (rq_pos ?r') = unat (rq_pos r) + length s div 512"
      using seg_words(3) [OF fit(1,2)] by (simp add: KERNEL_SECTOR_SIZE_def)
    have ab: "plain_rq r (plain_view c st) = plain_rq ?r' (plain_view c st1)"
      unfolding plain_rq_step [OF segs] using pos' pv bf by (simp add: plain_rq_def Let_def)
    have loop: "sbd_request_loop c p (Some r) st =
                  (case blk_end_request_cur st1 r buf of (pending, r', st2) \<Rightarrow>
                     if pending then sbd_request_loop c p (Some r') st2
                     else (case blk_fetch_request st2 of (req', st3) \<Rightarrow> sbd_request_loop c p req' st3))"
      using fs tr by (simp add: sbd_request_loop.simps [of c p "Some r" st])
    show ?thesis
    proof (cases "ss = []")
      case False
      have e: "blk_end_request_cur st1 r buf = (True, ?r', st1)"
        using segs False by (simp add: blk_end_request_cur_def Let_def)
      have lt: "pending_work (Some ?r') st1 < pending_work req st"
        using Some segs q1 by (simp add: pending_work_def)
      have "rq_ok (unat (dev_size (Device st1))) ?r'" using fs False rest pos' sz1 by (simp add: rq_ok_def)
      with qok q1 sz1 have ok1: "list_all (rq_ok (unat (dev_size (Device st1)))) ((case Some ?r' of None \<Rightarrow> [] | Some r \<Rightarrow> [r]) @ queue st1)"
        by simp
      from less.hyps [OF lt wf1 less.prems(2,3) _ ok1] obtain st' where
        "sbd_request_loop c p (Some ?r') st1 = Some (Inr st')"
        "plain_view c st' = fst (plain_queue (?r' # queue st1) (plain_view c st1))"
        "completed st' = completed st1 @ snd (plain_queue (?r' # queue st1) (plain_view c st1))" by auto
      with loop e ab Some q1 c1 show ?thesis by (simp split: prod.splits)
    next
      case True
      let ?c = "Completion (rq_id r) None (rq_done r @ [buf])"
      let ?st2 = "st1\<lparr>completed := completed st1 @ [?c]\<rparr>"
      have e: "blk_end_request_cur st1 r buf = (False, ?r', ?st2)"
        using segs True by (simp add: blk_end_request_cur_def Let_def)
      obtain req' st3 where f: "blk_fetch_request ?st2 = (req', st3)" by fastforce
      note ff = blk_fetch_request_queue [OF f] and fv = plain_view_fetch [OF f]
      have lt: "pending_work req' st3 < pending_work req st"
        using blk_fetch_request_pending_work [OF f] Some segs q1 by (simp add: pending_work_def)
      have qs: "(case req' of None \<Rightarrow> [] | Some r \<Rightarrow> [r]) @ queue st3 = queue st"
        using ff(2) [of id] q1 by (simp split: option.splits)
      have ok3: "list_all (rq_ok (unat (dev_size (Device st3)))) ((case req' of None \<Rightarrow> [] | Some r \<Rightarrow> [r]) @ queue st3)"
        using qs qok fv(3) sz1 by simp
      have wf3: "sbd_wf st3" using fv(2) wf1 by simp
      from less.hyps [OF lt wf3 less.prems(2,3) ff(1) ok3] obtain st' where
        r3: "sbd_request_loop c p req' st3 = Some (Inr st')"
        "plain_view c st' = fst (plain_queue (queue st) (plain_view c st3))"
        "completed st' = completed st3 @ snd (plain_queue (queue st) (plain_view c st3))"
        using qs by auto
      have "plain_rq r (plain_view c st) = (plain_view c st1, ?c)"
        using ab True by (simp add: plain_rq_def)
      with r3 loop e f Some fv(1) ff(4) c1 show ?thesis by (simp split: prod.splits)
    qed
  qed
qed

section \<open>The driver implements a plaintext block device\<close>

text \<open>
  C37: Under the installed key, a transfer inside the device implements the plaintext
  disk the user sees (\<open>plain_view\<close>: the device buffer decrypted block by block, or as
  it is without a key).  A write stores the caller's bytes in the plaintext at the
  byte offset, and a read returns the plaintext there and leaves the disk unchanged.
  With a key set, the offset and length must be whole cipher blocks.
\<close>

theorem sbd_transfer_refines_plain_disk:
  assumes wf: "sbd_wf st" and c: "cipher_ok c"
    and range: "unat (sector * scast (logical_block_size p)) + unat (nsect * scast (logical_block_size p))
                  \<le> unat (dev_size (Device st))"
    and buf: "unat (nsect * scast (logical_block_size p)) \<le> length buffer"
    and aligned: "key_size st \<noteq> 0 \<Longrightarrow>
                    AES_BLOCK_SIZE dvd unat (sector * scast (logical_block_size p)) \<and>
                    AES_BLOCK_SIZE dvd unat (nsect * scast (logical_block_size p)) \<and>
                    unat (nsect * scast (logical_block_size p)) < 2 ^ 31"
  shows "(\<exists>st'. sbd_transfer c p st sector nsect buffer True = Some (Inr (st', buffer)) \<and>
            plain_view c st' =
              plain_write (plain_view c st) (unat (sector * scast (logical_block_size p)))
                (take (unat (nsect * scast (logical_block_size p))) buffer)) \<and>
         (\<exists>st' b'. sbd_transfer c p st sector nsect buffer False = Some (Inr (st', b')) \<and>
            plain_view c st' = plain_view c st \<and>
            take (unat (nsect * scast (logical_block_size p))) b' =
              plain_read (plain_view c st) (unat (sector * scast (logical_block_size p)))
                (unat (nsect * scast (logical_block_size p))))"
  using sbd_transfer_plain [OF assms] .

text \<open>
  C38: The request function implements the plaintext block device on a queue of
  requests that fit: with 512-byte logical blocks and any key, \<open>sbd_request\<close> on
  filesystem requests whose segments are whole sectors inside the device returns.
  Its plaintext disk is what the abstract queue \<open>plain_queue\<close> computes, writing and
  reading each request's segments in order.  The completions it reports, with their
  data, are the abstract ones, in queue order.
\<close>

theorem sbd_request_refines_plain_queue:
  assumes wf: "sbd_wf st" and c: "cipher_ok c" and lbs: "logical_block_size p = 512"
    and q: "list_all (rq_ok (unat (dev_size (Device st)))) (queue st)"
  shows "\<exists>st'. sbd_request c p st = Some (Inr st') \<and>
           plain_view c st' = fst (plain_queue (queue st) (plain_view c st)) \<and>
           completed st' = completed st @ snd (plain_queue (queue st) (plain_view c st))"
proof -
  obtain req st1 where f: "blk_fetch_request st = (req, st1)" by fastforce
  note ff = blk_fetch_request_queue [OF f] and fv = plain_view_fetch [OF f]
  have qs: "(case req of None \<Rightarrow> [] | Some r \<Rightarrow> [r]) @ queue st1 = queue st"
    using ff(2) [of id] by (simp split: option.splits)
  have "list_all (rq_ok (unat (dev_size (Device st1)))) ((case req of None \<Rightarrow> [] | Some r \<Rightarrow> [r]) @ queue st1)"
    using q qs fv(3) by simp
  from sbd_request_loop_plain [OF _ c lbs ff(1) this] wf fv(2) obtain st' where
    "sbd_request_loop c p req st1 = Some (Inr st')"
    "plain_view c st' = fst (plain_queue (queue st) (plain_view c st1))"
    "completed st' = completed st1 @ snd (plain_queue (queue st) (plain_view c st1))"
    using qs by auto
  with f fv(1) ff(4) show ?thesis by (simp add: sbd_request_def)
qed

section \<open>Witnesses\<close>

lemma sbd_transfer_refines_plain_disk_witness:
  "(\<exists>st'. sbd_transfer add_cipher ex_params16 ex_state 1 1 (replicate 16 3) True = Some (Inr (st', replicate 16 3)) \<and>
      plain_view add_cipher st' = plain_write (plain_view add_cipher ex_state) 16 (replicate 16 3)) \<and>
   (\<exists>st' b'. sbd_transfer add_cipher ex_params16 ex_state 1 1 (replicate 16 3) False = Some (Inr (st', b')) \<and>
      plain_view add_cipher st' = plain_view add_cipher ex_state \<and>
      take 16 b' = plain_read (plain_view add_cipher ex_state) 16 16)"
  using sbd_transfer_refines_plain_disk [OF ex_state_wf(1) add_cipher_ok,
      where sector = 1 and p = ex_params16 and nsect = 1 and buffer = "replicate 16 3"]
  by (simp add: ex_state_def ex_params16_def AES_BLOCK_SIZE_def)

lemma sbd_request_refines_plain_queue_witness:
  "\<exists>st'. sbd_request add_cipher sbd_default_params (ex_disk_state ex_write_read) = Some (Inr st') \<and>
     completed st' = [Completion 1 None [replicate 512 5], Completion 2 None [replicate 512 5]]"
proof -
  have wf: "sbd_wf (ex_disk_state ex_write_read)"
    by (simp add: sbd_wf_def key_inv_def ex_disk_state_def KEY_SIZE_def)
  have q: "list_all (rq_ok (unat (dev_size (Device (ex_disk_state ex_write_read))))) (queue (ex_disk_state ex_write_read))"
    by (simp add: rq_ok_def ex_disk_state_def ex_write_read_def ex_request_def)
  have len: "length (plain_view add_cipher (ex_disk_state ex_write_read)) = 1024"
    using ecb_length [of "cia_decrypt add_cipher (replicate 16 7)" "replicate 1024 0"]
      cipher_ok_block_preserving [OF add_cipher_ok]
    by (simp add: plain_view_def ex_disk_state_def installed_key_def AES_BLOCK_SIZE_def)
  have cs: "snd (plain_queue ex_write_read d) = [Completion 1 None [replicate 512 5], Completion 2 None [replicate 512 5]]"
    if "length d = 1024" for d
    using that by (simp add: ex_write_read_def ex_request_def plain_rq_def plain_write_def plain_read_def blit_def)
  obtain st' where "sbd_request add_cipher sbd_default_params (ex_disk_state ex_write_read) = Some (Inr st')"
    "completed st' = completed (ex_disk_state ex_write_read) @
       snd (plain_queue (queue (ex_disk_state ex_write_read)) (plain_view add_cipher (ex_disk_state ex_write_read)))"
    using sbd_request_refines_plain_queue [OF wf add_cipher_ok _ q, of sbd_default_params]
    by (auto simp: sbd_default_params_def)
  moreover have "queue (ex_disk_state ex_write_read) = ex_write_read" "completed (ex_disk_state ex_write_read) = []"
    by (simp_all add: ex_disk_state_def)
  ultimately show ?thesis using cs [OF len] by auto
qed

end
