(* ===== verification/Spec2Isabelle.thy ===== *)
theory Spec2Isabelle
  imports Lifecycle RequestLoop KeyTransfer PlainDisk
begin

text \<open>
  \<^bold>\<open>Verification development of the sbd encrypted RAM disk\<close>
  (\<open>src/assignments/a3/ramdisk.c\<close>, a Linux 2.6-era block driver).

  \<^bold>\<open>The program.\<close>  The driver keeps a byte buffer of \<open>nsectors * logical_block_size\<close>
  bytes as a block device.  A 32-byte global \<open>crypto_key\<close> and its length \<open>key_size\<close>
  are set and read through a sysfs attribute (\<open>key_store\<close>, \<open>key_display\<close>).  The
  block layer calls \<open>sbd_request\<close>, which takes requests off the queue and hands each
  segment to \<open>sbd_transfer\<close>.  That function computes the byte range, installs the key
  in the AES cipher handle \<open>tfm\<close> when a key is set, checks the range against the device
  size, and copies: raw with \<open>memcpy\<close> without a key, or block by block with
  \<open>crypto_cipher_encrypt_one\<close>/\<open>decrypt_one\<close> with one.  \<open>sbd_init\<close> and \<open>sbd_exit\<close>
  acquire and release the kernel resources; \<open>sbd_getgeo\<close> answers the geometry ioctl.

  \<^bold>\<open>The theories\<close>, each after the ones it imports:
  \<^item> \<open>Prelude\<close>: machine types (\<open>u64\<close> for \<open>unsigned long\<close>/\<open>sector_t\<close>, \<open>c_int\<close>
    for \<open>int\<close>, \<open>byte\<close>), error numbers, the kernel log (\<open>printk\<close> appends a
    \<open>msg\<close>), and the memory model.  A C object is a byte list; \<open>mem_read\<close>,
    \<open>mem_write\<close> and \<open>memcpy\<close> fail with \<open>Mem_fault\<close> outside the object, so
    undefined behaviour is a value.  It also holds generic lemmas on \<open>blit\<close> and on words.
  \<^item> \<open>Cipher\<close>: the crypto API calls the driver makes (\<open>crypto_cipher_setkey\<close>,
    \<open>clear_flags\<close>, \<open>blocksize\<close>, \<open>encrypt_one\<close>, \<open>decrypt_one\<close>), modelled from
    their kernel contract.  AES is a parameter \<open>cipher\<close> constrained by \<open>cipher_ok\<close>
    (16-byte blocks, decryption inverts encryption).  \<open>ecb\<close> is the reference
    block-by-block transform.  Its lemmas on block-aligned ranges (\<open>ecb_take_drop\<close>,
    \<open>ecb_blit\<close>) carry the refinement proofs of \<open>PlainDisk\<close>.
  \<^item> \<open>KeyStore\<close>: \<open>key_state\<close> (the globals \<open>crypto_key\<close>, \<open>key_size\<close>) and the
    handlers \<open>key_store\<close> (with \<open>snprintf_key\<close>, the byte-exact
    \<open>snprintf("%.*s")\<close>) and \<open>key_display\<close> (\<open>scnprintf("%s\n")\<close>).  The invariant
    is \<open>key_inv\<close>.
  \<^item> \<open>BlockLoop\<close>: the block loop \<open>cipher_loop\<close> of \<open>sbd_transfer\<close>, with its
    32-bit \<open>int\<close> index, and the reference \<open>ecb_copy\<close> it is equivalent to.
  \<^item> \<open>TransferEngine\<close>: \<open>sbd_state\<close> (key state, \<open>Device\<close>, \<open>tfm\<close>) and
    \<open>sbd_transfer\<close> with its 64-bit offset arithmetic.  \<open>transfer_spec\<close> is the
    abstract contract of a transfer.
  \<^item> \<open>Dispatcher\<close>: the request queue (\<open>blk_state\<close> extends \<open>sbd_state\<close>), the
    block-layer calls (\<open>blk_fetch_request\<close>, \<open>__blk_end_request_cur\<close>,
    \<open>__blk_end_request_all\<close>) from their contract, and \<open>sbd_request\<close>.
  \<^item> \<open>Init\<close>: \<open>sbd_init\<close>, \<open>sbd_exit\<close> and \<open>sbd_getgeo\<close>.  Start-up and tear-down act on
    the set of live kernel resources.  Each kernel call's outcome is an input
    (\<open>init_env\<close>), so every error path of the code is a branch.  \<open>getgeo_ref\<close> is
    the arithmetic reference of the geometry's bit operations.
  \<^item> \<open>Driver\<close>: the entry points the module registers (the sysfs key attribute of
    \<open>DEVICE_ATTR\<close>, the request function given to \<open>blk_init_queue\<close>, the
    \<open>getgeo\<close> of \<open>sbd_ops\<close>) as one dispatcher \<open>sbd_dispatch\<close> over an \<open>event\<close>,
    runs of events (\<open>sbd_run\<close>), and the inductive predicate \<open>reachable\<close> of the
    states a loaded module reaches from \<open>sbd_boot\<close>.
  \<^item> \<open>RequestLoop\<close>: the \<open>while\<close> loop of \<open>sbd_request\<close> pass by pass.  One pass of its
    body is \<open>sbd_request_pass\<close>, and \<open>sbd_request_steps n\<close> runs \<open>n\<close> passes and
    returns where the loop stands.  The iteration agrees with the fixpoint
    \<open>sbd_request_loop\<close> on every result, and shows what the loop does also where it
    never returns.
  \<^item> \<open>Lifecycle\<close>: the module in the kernel (\<open>module_init(sbd_init)\<close>,
    \<open>module_exit(sbd_exit)\<close>).  The system \<open>lsys\<close> pairs \<open>Init\<close>'s module state with
    \<open>Driver\<close>'s state while loaded.  Its steps \<open>sys_step\<close> are \<open>insmod\<close> (run
    \<open>sbd_init\<close>; on 0 start the driver from \<open>sbd_boot\<close> over the buffer of the size
    \<open>sbd_init\<close> stored), \<open>rmmod\<close> (run \<open>sbd_exit\<close>), and calls of the entry points.
    The states the kernel reaches are \<open>sys_reachable\<close>.
  \<^item> \<open>KeyTransfer\<close>: the key store and the transfer engine together.  It covers a
    transfer after a key write, and a transfer racing a key write.  \<open>key_store\<close> takes
    no lock, so \<open>transfer_key_store\<close> runs it before a transfer, after one, or
    between the key installation and the copy phase \<open>sbd_transfer_copy\<close>.
  \<^item> \<open>PlainDisk\<close>: the abstract specification of the whole driver, a plaintext block
    device.  The abstraction \<open>plain_view\<close> decrypts the device buffer under the
    installed key.  \<open>plain_write\<close>, \<open>plain_read\<close> and the request layer
    \<open>plain_queue\<close> are the abstract operations.  The refinement lemmas relate
    \<open>sbd_transfer\<close> and \<open>sbd_request\<close> to them (\<open>abs (op_c s) = op_a (abs s)\<close>).
  \<^item> this theory: the properties of a key write followed by transfers (C24, C31).

  \<^bold>\<open>Loops and termination.\<close>  Both loops of the driver are \<open>partial_function
  (option)\<close>, so a call that never returns is the value \<open>None\<close>.  The block loop's
  index is a C \<open>int\<close> that may wrap, but every loop the driver runs is shown to return
  (\<open>sbd_transfer_terminates\<close>).  The request loop returns on every queue of filesystem
  requests (\<open>sbd_request_returns_on_fs_queue\<close>) and never returns otherwise
  (\<open>sbd_request_hangs_on_non_fs\<close>).  Termination is proved by measures: the remaining
  bytes of the block loop, and the remaining segments and requests of the queue
  (\<open>pending_work\<close>).  The request loop also has a bounded iteration,
  \<open>sbd_request_steps\<close>, whose pass count plays the role of fuel.  It is adequate in both
  directions (\<open>sbd_request_steps_sound\<close>, \<open>sbd_request_steps_complete\<close>): a
  result of the loop is reached after some number of passes, and every stop after n
  passes is the loop's result.
  \<open>pending_work\<close> passes are enough on a queue of filesystem requests
  (\<open>sbd_request_passes_bound\<close>).  Runs of the driver are lists of events,
  so they end by construction; such a run returns whenever every request it
  submits is a filesystem request (\<open>sbd_run_fs_returns\<close>).

  \<^bold>\<open>What the lemmas show.\<close>
  \<^item> Transfers: the round trip write/read (C1); refinement of \<open>transfer_spec\<close> (C2);
    rejection of out-of-range requests (C3); the write frame (C4); termination (C5).
    Also the wrap-around of the bounds check (C13), sector aliasing (C14), and the
    buffer overrun on lengths that are not a multiple of 16 (C15).
  \<^item> Key store: error path (C6); invariant (C7); functional behaviour, including the
    truncation of 32-byte keys and stale bytes after a NUL (C8-C10); display (C11);
    round trip (C12).
  \<^item> Dispatcher: the hang on non-filesystem requests (C16); termination (C17); FIFO
    completion with status 0 (C18); beyond-end requests reported successful (C19).
  \<^item> Start-up: the leaked first buffer (C20); leaks on failure paths (C21); the capacity
    mismatch (C22); the geometry counting bytes as sectors (C23); the unvalidated
    \<open>int\<close> product that gives the device size (C36).
  \<^item> Across components: a stored key encrypts the next write (C24); data written under
    one key and read under another is not returned (C31, key isolation).
  \<^item> Equivalences: the block loop and the reference \<open>ecb_copy\<close>, faults included (C25);
    the geometry's bit operations and plain arithmetic (C26).
  \<^item> The driver as a whole, by rule induction over \<open>reachable\<close> and induction over
    runs: every reachable state conforms (C27); reading the key never faults (C28);
    requests complete once each, in submission order, with status 0 (C29); a
    driver given only filesystem requests never hangs (C30).
  \<^item> The request loop pass by pass: on filesystem requests it stops within
    \<open>pending_work\<close> passes, one per segment and one per fetch (C32).
  \<^item> The module's life, by rule induction over \<open>sys_reachable\<close>: a loaded module's
    driver is in a reachable state and holds live resources (C33); every load and
    unload cycle leaks one device buffer (C34).
  \<^item> Interleaving: a write racing a key write stores the data under the new key, as
    plaintext, or under the cipher handle's stale key, depending on where the key write
    falls (C35).
  \<^item> Refinement of the abstract plaintext disk: a transfer implements plaintext writes
    and reads (C37); the request function implements the abstract request queue,
    completions and their data included (C38).  Both hold on the inputs where the
    code has no failure path: in range, whole cipher blocks, filesystem requests with
    512-byte logical blocks.  Outside them the other lemmas show what goes wrong.
  Every property with a hypothesis has a witness evaluated on small concrete states.

  \<^bold>\<open>Not modelled.\<close>  The AES block function.  It is kernel library code
  (\<open>crypto/aes_generic.c\<close>), not part of the repository, and a pure function of key
  and block.  It is the parameter \<open>cipher\<close>, constrained by the contract \<open>cipher_ok\<close>
  the driver relies on; every crypto API call the driver makes is a definition of
  \<open>Cipher\<close>.  The internals of the other kernel services the driver calls are modelled
  only by their contract.  Lines 1-24 of the source (includes, \<open>MODULE_LICENSE\<close>,
  the unused \<open>Version\<close> string) have no behaviour.  With these exceptions every
  function of \<open>ramdisk.c\<close> is a definition of this development.  Concurrency, except one race:
  \<open>sbd_request\<close> and \<open>sbd_getgeo\<close> run under \<open>Device.lock\<close> and a sysfs handler
  runs to completion, so \<open>Driver\<close> and \<open>Lifecycle\<close> take each call as one atomic
  step.  \<open>key_store\<close> takes no lock, and its race with a transfer is modelled in
  \<open>KeyTransfer\<close> at the one point where it changes the outcome: between the key
  installation and the \<open>key_size\<close> test.  Finer interleavings, in the middle of
  \<open>snprintf\<close> or of \<open>crypto_cipher_setkey\<close>, are not modelled.  The sysfs
  and block-device registration glue (\<open>DEVICE_ATTR\<close>, \<open>rd_root_dev\<close>, \<open>sbd_ops\<close>):
  \<open>Driver\<close> models what it wires together, the entry points, and \<open>Lifecycle\<close> the
  module macros; \<open>rd_root_dev\<close> and its empty \<open>release\<close> have no behaviour of their
  own.  Writes of the module parameter \<open>nsectors\<close> through sysfs (mode 0600) while
  the module is loaded are not modelled: only \<open>sbd_init\<close> reads it.  In the lifecycle a
  resource is live or not, so a resource leaked by a failed load and acquired again
  by the next load is counted once; the leaked buffers are counted exactly because
  each \<open>vmalloc\<close> call has its own number.  At \<open>rmmod\<close> the driver's state, queued
  requests included, is dropped: what \<open>blk_cleanup_queue\<close> does with requests still
  queued is kernel behaviour outside the driver.  A request after
  \<open>__blk_end_request_all\<close> completed it: the kernel may free it, but the model keeps
  it as a value.  So on a non-filesystem request, where the code \<open>continue\<close>s with the
  same pointer, the model's loop repeats the completion for ever
  (\<open>sbd_request_hangs_on_non_fs\<close>), where the kernel reuses a completed request.
  Both mean that \<open>sbd_request\<close> never returns normally.
\<close>

section \<open>Key store and transfer engine together\<close>

text \<open>
  C24: A key change takes effect on the next transfer: after \<open>key_store\<close> accepts a
  NUL-free 16- or 24-byte key, an in-range, block-aligned write stores the caller's
  bytes ECB-encrypted under exactly that key.
\<close>

theorem stored_key_encrypts_next_write:
  assumes wf: "sbd_wf st" and c: "cipher_ok c"
    and k: "length k \<in> {16, 24}" "0 \<notin> set k"
    and range: "unat (sector * scast (logical_block_size p)) + unat (nsect * scast (logical_block_size p))
                  \<le> unat (dev_size (Device st))"
    and buf: "unat (nsect * scast (logical_block_size p)) \<le> length buffer"
    and aligned: "AES_BLOCK_SIZE dvd unat (nsect * scast (logical_block_size p))"
      "unat (nsect * scast (logical_block_size p)) < 2 ^ 31"
  shows "\<exists>st'. sbd_transfer c p (snd (key_store st k)) sector nsect buffer True = Some (Inr (st', buffer)) \<and>
           dev_data (Device st') =
             blit (dev_data (Device st)) (unat (sector * scast (logical_block_size p)))
               (ecb (cia_encrypt c k) (take (unat (nsect * scast (logical_block_size p))) buffer))"
  using stored_key_write [OF assms] by simp

text \<open>
  C31: Key isolation (spec section 8): data written under one key and read back after
  another NUL-free key was stored is decrypted under the new key, so the caller does
  not get its plaintext back whenever the cipher maps the first block to something
  else under the two keys.
\<close>

theorem key_change_isolates_data:
  assumes wf: "sbd_wf st" and c: "cipher_ok c"
    and k1: "length k1 \<in> {16, 24}" "0 \<notin> set k1" and k2: "length k2 \<in> {16, 24}" "0 \<notin> set k2"
    and range: "unat (sector * scast (logical_block_size p)) + unat (nsect * scast (logical_block_size p))
                  \<le> unat (dev_size (Device st))"
    and buf: "unat (nsect * scast (logical_block_size p)) \<le> length buffer"
      "unat (nsect * scast (logical_block_size p)) \<le> length buffer2"
    and aligned: "AES_BLOCK_SIZE dvd unat (nsect * scast (logical_block_size p))"
      "0 < unat (nsect * scast (logical_block_size p))" "unat (nsect * scast (logical_block_size p)) < 2 ^ 31"
    and differ: "cia_decrypt c k2 (cia_encrypt c k1 (take AES_BLOCK_SIZE buffer)) \<noteq> take AES_BLOCK_SIZE buffer"
  shows "\<exists>st1 st2 b2.
           sbd_transfer c p (snd (key_store st k1)) sector nsect buffer True = Some (Inr (st1, buffer)) \<and>
           sbd_transfer c p (snd (key_store st1 k2)) sector nsect buffer2 False = Some (Inr (st2, b2)) \<and>
           take (unat (nsect * scast (logical_block_size p))) b2 \<noteq>
           take (unat (nsect * scast (logical_block_size p))) buffer"
proof -
  let ?off = "unat (sector * scast (logical_block_size p))" and ?n = "unat (nsect * scast (logical_block_size p))"
  let ?enc = "ecb (cia_encrypt c k1) (take ?n buffer)"
  let ?st1 = "set_dev_data (sbd_install_key (snd (key_store st k1))) (blit (dev_data (Device st)) ?off ?enc)"
  note w = stored_key_write [OF wf c k1 range buf(1) aligned(1,3)]
  have bp: "block_preserving (cia_encrypt c k1)" "block_preserving (cia_decrypt c k2)"
    using cipher_ok_block_preserving [OF c] by simp_all
  have n16: "AES_BLOCK_SIZE \<le> ?n" using aligned(1,2) by (auto dest: dvd_imp_le)
  have enc_len: "length ?enc = ?n" using ecb_length [OF bp(1)] aligned(1) buf(1) by simp
  have fit: "?off + length ?enc \<le> length (dev_data (Device st))" using enc_len range wf by (simp add: sbd_wf_def)
  have wf1: "sbd_wf ?st1"
    using sbd_wf_after_write [OF key_store_sbd_wf(1) [OF wf]] fit key_store_sbd_wf(2) [OF wf] by simp
  have data: "take ?n (drop ?off (dev_data (Device ?st1))) = ?enc"
    using take_drop_blit [OF fit] enc_len by simp
  have size: "dev_size (Device ?st1) = dev_size (Device st)" using key_store_sbd_wf(2) [OF wf] by simp
  note r = stored_key_read [OF wf1 c k2 _ buf(2) aligned(1,3)]
  let ?dec = "ecb (cia_decrypt c k2) ?enc"
  have dec_len: "length ?dec = ?n" using ecb_length [OF bp(2)] enc_len aligned(1) by simp
  have "take ?n (blit buffer2 0 ?dec) = ?dec" using dec_len buf(2) by (simp add: blit_def)
  moreover have "take AES_BLOCK_SIZE ?dec = cia_decrypt c k2 (cia_encrypt c k1 (take AES_BLOCK_SIZE buffer))"
    using ecb_first_block [OF _ bp(1), of "take ?n buffer"] ecb_first_block [OF _ bp(2), of ?enc]
      enc_len n16 buf(1) by (simp add: min_def)
  moreover have "take AES_BLOCK_SIZE (take ?n buffer) = take AES_BLOCK_SIZE buffer" using n16 by (simp add: min_def)
  ultimately have "take ?n (blit buffer2 0 ?dec) \<noteq> take ?n buffer" using differ by metis
  with w r range size data show ?thesis by auto
qed

section \<open>Witnesses\<close>

lemma stored_key_encrypts_next_write_witness:
  "\<exists>st'. sbd_transfer add_cipher ex_params16 (snd (key_store ex_state (replicate 16 9))) 1 1 (replicate 16 3) True =
           Some (Inr (st', replicate 16 3)) \<and>
         dev_data (Device st') = blit (replicate 400 0) 16 (ecb (cia_encrypt add_cipher (replicate 16 9)) (replicate 16 3))"
  using stored_key_encrypts_next_write [OF ex_state_wf(1) add_cipher_ok,
      where k = "replicate 16 9" and sector = 1 and p = ex_params16 and nsect = 1 and buffer = "replicate 16 3"]
  by (simp add: ex_state_def ex_params16_def AES_BLOCK_SIZE_def)

lemma key_change_isolates_data_witness:
  "\<exists>st1 st2 b2.
     sbd_transfer add_cipher ex_params16 (snd (key_store ex_state (replicate 16 1))) 1 1 (replicate 16 3) True =
       Some (Inr (st1, replicate 16 3)) \<and>
     sbd_transfer add_cipher ex_params16 (snd (key_store st1 (replicate 16 2))) 1 1 (replicate 16 0) False =
       Some (Inr (st2, b2)) \<and>
     take 16 b2 \<noteq> take 16 (replicate 16 3)"
  using key_change_isolates_data [OF ex_state_wf(1) add_cipher_ok,
      where ?k1.0 = "replicate 16 1" and ?k2.0 = "replicate 16 2" and sector = 1 and p = ex_params16 and nsect = 1
        and buffer = "replicate 16 3" and ?buffer2.0 = "replicate 16 0"]
  by (simp add: ex_state_def ex_params16_def AES_BLOCK_SIZE_def add_cipher_def pad_key_def)

end
